theory Spec2Isabelle
  imports Main "HOL-Library.Word" "HOL-Library.Sublist"
begin

unbundle bit_operations_syntax

section \<open>The lx brand's network bring-up (lxinit.c)\<close>

text \<open>
  A shallow embedding of \<^verbatim>\<open>usr/src/lib/brand/lx/lx_init/lxinit.c\<close>: the netstack
  buffer normalizer, the logical interface allocator, the address dispatcher, the
  routing message encoder, the static route parser and the per-interface setup loop.

  The program talks to the kernel and to libraries all the time. Every such call is
  an entry of a log (\<open>events\<close>), and its answer is read from an oracle, a function
  from the number of the call to the integer the call returns. A theorem that holds
  for every oracle holds whatever the outside answers. Memory allocation has an oracle
  of its own (\<open>heap_ok\<close>), since it leaves no trace in the log.
\<close>

subsection \<open>Constants of headers that are not part of the source file\<close>

text \<open>
  \<^verbatim>\<open>LIFNAMSIZ\<close> (net/if.h), \<^verbatim>\<open>IPADM_AOBJSIZ\<close> and the status
  \<^verbatim>\<open>IPADM_IF_EXISTS\<close> (libipadm.h), \<^verbatim>\<open>MAXNAMELEN\<close> (sys/param.h),
  \<^verbatim>\<open>RTM_VERSION\<close> (net/route.h), the size of the routing message buffer
  \<^verbatim>\<open>sizeof (rtbuf)\<close> and \<^verbatim>\<open>inet_pton(AF_INET, ...)\<close> are parameters of the
  model. \<open>inet_pton\<close> answers \<open>None\<close> where the C function does not return 1.
  A status of libipadm or libzonecfg is an integer, 0 for \<^verbatim>\<open>IPADM_SUCCESS\<close> and
  \<^verbatim>\<open>Z_OK\<close>.
\<close>

record platform =
  LIFNAMSIZ :: nat
  IPADM_AOBJSIZ :: nat
  MAXNAMELEN :: nat
  RTMBUFSZ :: nat
  RTM_VERSION :: nat
  IPADM_IF_EXISTS :: int
  inet_pton :: "string \<Rightarrow> 32 word option"

datatype sa_family = AF_UNSPEC | AF_INET | AF_INET6

datatype mod_proto = MOD_PROTO_TCP | MOD_PROTO_UDP | MOD_PROTO_SCTP | MOD_PROTO_RAWIP

datatype rtm_flag = RTF_UP | RTF_STATIC | RTF_GATEWAY

datatype rta_bit = RTA_DST | RTA_GATEWAY | RTA_NETMASK

datatype rtm_kind = RTM_NONE | RTM_ADD

subsection \<open>The routing message\<close>

text \<open>
  \<^verbatim>\<open>struct sockaddr_in\<close> and \<^verbatim>\<open>struct rt_msghdr\<close>, with the fields the program
  touches; \<open>rtm_msglen\<close> and \<open>rtm_index\<close> are 16 bits wide and \<open>rtm_version\<close>
  is 8 bits wide, and a value assigned to them is cut to that width.
  \<open>sin_addr\<close> holds the four octets of the address, first octet most
  significant. The flag words are sets of the bits that are or-ed together.
  The buffer \<^verbatim>\<open>rtbuf\<close> is the header followed by an array of three socket
  addresses: \<^verbatim>\<open>dst_sin = (rtm + 1)\<close> is element 0, \<^verbatim>\<open>gw_sin = dst_sin + 1\<close>
  element 1 and \<^verbatim>\<open>netmask_sin = gw_sin + 1\<close> element 2.
\<close>

record sockaddr_in =
  sin_family :: sa_family
  sin_port :: "16 word"
  sin_addr :: "32 word"

record rt_msghdr =
  rtm_msglen :: "16 word"
  rtm_version :: "8 word"
  rtm_type :: rtm_kind
  rtm_index :: "16 word"
  rtm_flags :: "rtm_flag set"
  rtm_addrs :: "rta_bit set"
  rtm_pid :: int

record rtbuf =
  rtm :: rt_msghdr
  sins :: "sockaddr_in list"

subsection \<open>The world: log, oracle and the static counter\<close>

datatype call =
    Socket sa_family
  | Ioctl_SIOCLIFADDIF string
  | Close
  | Ipadm_create_if string sa_family
  | Ipadm_create_addrobj string
  | Ipadm_set_addr string string
  | Ipadm_create_addr string
  | Ipadm_destroy_addrobj string
  | Ipadm_set_prop string string mod_proto
  | Dhcp_start_agent int
  | Dhcp_ipc_alloc_request string
  | Dhcp_ipc_make_request string int
  | Dhcp_reply_return_code
  | Ioctl_SIOCGLIFFLAGS string
  | Ioctl_SIOCSLIFFLAGS string
  | Getpid
  | If_nametoindex string
  | Socket_PF_ROUTE
  | Write_rtmsg rtbuf
  | Svc_start string
  | Zonecfg_setnwifent
  | Zonecfg_endnwifent
  | Run_command string

datatype event =
    Call call int
  | Warn string
  | Err string
  | Fault string

text \<open>
  \<open>addrnum\<close> is \<^verbatim>\<open>static int addrnum\<close> of \<^verbatim>\<open>lxi_iface_ip\<close>, a 32-bit
  integer read as signed; \<open>ipv6_enable\<close> is the global of that name.
\<close>

record world =
  addrnum :: "32 word"
  ipv6_enable :: bool
  events :: "event list"
  answers :: "nat \<Rightarrow> int"
  clock :: nat
  heap_ok :: "nat \<Rightarrow> bool"
  allocs :: nat

text \<open>
  A function that can end in \<^verbatim>\<open>lxi_err\<close> returns \<open>Inl w\<close>, the world in which
  the process stopped, or \<open>Inr (v, w)\<close>.
\<close>

type_synonym 'a res = "world + ('a \<times> world)"

definition extern :: "call \<Rightarrow> world \<Rightarrow> int \<times> world" where
  "extern c w =
     (answers w (clock w),
      w\<lparr>events := events w @ [Call c (answers w (clock w))], clock := Suc (clock w)\<rparr>)"

definition alloc :: "world \<Rightarrow> bool \<times> world" where
  "alloc w = (heap_ok w (allocs w), w\<lparr>allocs := Suc (allocs w)\<rparr>)"

text \<open>
  \<^verbatim>\<open>lxi_warn\<close> writes a line and returns; \<^verbatim>\<open>lxi_err\<close> writes a line, pauses and
  exits. The log keeps the format string of the message.
\<close>

definition lxi_warn :: "string \<Rightarrow> world \<Rightarrow> world" where
  "lxi_warn msg w = w\<lparr>events := events w @ [Warn msg]\<rparr>"

definition lxi_err :: "string \<Rightarrow> world \<Rightarrow> 'a res" where
  "lxi_err msg w = Inl (w\<lparr>events := events w @ [Err msg]\<rparr>)"

definition fault :: "string \<Rightarrow> world \<Rightarrow> 'a res" where
  "fault what w = Inl (w\<lparr>events := events w @ [Fault what]\<rparr>)"

definition world_of :: "'a res \<Rightarrow> world" where
  "world_of r = (case r of Inl w \<Rightarrow> w | Inr (v, w) \<Rightarrow> w)"

definition news :: "world \<Rightarrow> world \<Rightarrow> event list" where
  "news w w' = drop (length (events w)) (events w')"

subsection \<open>C library functions\<close>

text \<open>
  \<^verbatim>\<open>snprintf\<close> with \<^verbatim>\<open>%u\<close> and \<^verbatim>\<open>%d\<close>: the decimal digits, and at most
  \<open>size - 1\<close> characters of the whole output.
\<close>

definition digit_char :: "nat \<Rightarrow> char" where
  "digit_char d = char_of (48 + d)"

fun dec_nat :: "nat \<Rightarrow> string" where
  "dec_nat n = (if n < 10 then [digit_char n] else dec_nat (n div 10) @ [digit_char (n mod 10)])"

declare dec_nat.simps [simp del]

definition dec_int :: "int \<Rightarrow> string" where
  "dec_int i = (if i < 0 then CHR ''-'' # dec_nat (nat (- i)) else dec_nat (nat i))"

definition snprintf :: "nat \<Rightarrow> string \<Rightarrow> string" where
  "snprintf n s = take (n - 1) s"

definition strncpy :: "nat \<Rightarrow> string \<Rightarrow> string" where
  "strncpy n s = take n s"

definition strlcpy :: "nat \<Rightarrow> string \<Rightarrow> string" where
  "strlcpy n s = take (n - 1) s"

text \<open>\<^verbatim>\<open>strstr(s, t) != NULL\<close>: \<open>t\<close> occurs in \<open>s\<close> as a block of adjacent characters.\<close>

fun strstr_found :: "string \<Rightarrow> string \<Rightarrow> bool" where
  "strstr_found [] t = (t = [])"
| "strstr_found (c # s) t = (prefix t (c # s) \<or> strstr_found s t)"

text \<open>
  \<^verbatim>\<open>strtok_r(s, ",", &lasts)\<close> called until it returns NULL: the maximal runs of
  characters other than the comma, empty runs left out.
\<close>

fun strtok_all :: "char \<Rightarrow> string \<Rightarrow> string \<Rightarrow> string list" where
  "strtok_all d [] cur = (if cur = [] then [] else [cur])"
| "strtok_all d (c # s) cur =
     (if c = d then (if cur = [] then strtok_all d s [] else cur # strtok_all d s [])
      else strtok_all d s (cur @ [c]))"

text \<open>
  The conversion \<^verbatim>\<open>%d\<close> of \<^verbatim>\<open>sscanf\<close>, and \<^verbatim>\<open>atoi\<close>: white space is skipped,
  a sign is read, then decimal digits. \<open>scan_int\<close> fails when no digit follows;
  \<^verbatim>\<open>atoi\<close> returns 0 there. The result is a C \<^verbatim>\<open>int\<close>: the digits are
  accumulated in 32 bits, so a number outside the range of \<^verbatim>\<open>int\<close> wraps around
  modulo \<open>2 ^ 32\<close> (4294967299 is read as 3), and the value is read as signed.
\<close>

definition isspace :: "char \<Rightarrow> bool" where
  "isspace c = (c \<in> set [CHR '' '', CHR 0x09, CHR 0x0A, CHR 0x0B, CHR 0x0C, CHR 0x0D])"

definition isdigit :: "char \<Rightarrow> bool" where
  "isdigit c = (48 \<le> (of_char c :: nat) \<and> (of_char c :: nat) \<le> 57)"

definition digits_val :: "string \<Rightarrow> 32 word" where
  "digits_val ds = foldl (\<lambda>a c. 10 * a + (of_char c - 48)) 0 ds"

definition scan_digits :: "string \<Rightarrow> (32 word \<times> string) option" where
  "scan_digits s =
     (let ds = takeWhile isdigit s in
      if ds = [] then None else Some (digits_val ds, dropWhile isdigit s))"

definition scan_int :: "string \<Rightarrow> (int \<times> string) option" where
  "scan_int s =
     (case dropWhile isspace s of
        [] \<Rightarrow> None
      | c # r \<Rightarrow>
          if c = CHR ''-'' then map_option (\<lambda>(v, t). (sint (- v), t)) (scan_digits r)
          else if c = CHR ''+'' then map_option (\<lambda>(v, t). (sint v, t)) (scan_digits r)
          else map_option (\<lambda>(v, t). (sint v, t)) (scan_digits (c # r)))"

definition atoi :: "string \<Rightarrow> int" where
  "atoi s = (case scan_int s of None \<Rightarrow> 0 | Some (v, r) \<Rightarrow> v)"

text \<open>
  \<^verbatim>\<open>sscanf(s, "%d.%d.%d", &v[0], &v[1], &v[2])\<close>: the values converted before the
  first failure, in order. The elements of \<open>v\<close> that are not reached keep what they held.
\<close>

definition sscanf_d3 :: "string \<Rightarrow> int list" where
  "sscanf_d3 s =
     (case scan_int s of
        None \<Rightarrow> []
      | Some (a, r1) \<Rightarrow>
          (case r1 of
             [] \<Rightarrow> [a]
           | c1 # r2 \<Rightarrow>
               if c1 \<noteq> CHR ''.'' then [a]
               else
                 (case scan_int r2 of
                    None \<Rightarrow> [a]
                  | Some (b, r3) \<Rightarrow>
                      (case r3 of
                         [] \<Rightarrow> [a, b]
                       | c2 # r4 \<Rightarrow>
                           if c2 \<noteq> CHR ''.'' then [a, b]
                           else
                             (case scan_int r4 of
                                None \<Rightarrow> [a, b]
                              | Some (c, r5) \<Rightarrow> [a, b, c])))))"

definition store_scanned :: "int list \<Rightarrow> int list \<Rightarrow> int list" where
  "store_scanned vs old = vs @ drop (length vs) old"

subsection \<open>The zone configuration\<close>

text \<open>
  The zone document as the program reads it: the zone's attributes
  (\<^verbatim>\<open>zonecfg_lookup_attr\<close>) and the network interfaces in configuration order
  (\<^verbatim>\<open>zonecfg_getnwifent\<close>), each with \<^verbatim>\<open>zone_nwif_physical\<close>,
  \<^verbatim>\<open>zone_nwif_allowed_address\<close>, \<^verbatim>\<open>zone_nwif_defrouter\<close> and the list
  \<^verbatim>\<open>zone_nwif_attrp\<close> of named values. A handle is \<open>None\<close> when it is NULL.
\<close>

record zone_nwiftab =
  zone_nwif_physical :: string
  zone_nwif_allowed_address :: string
  zone_nwif_defrouter :: string
  zone_nwif_attrp :: "(string \<times> string) list"

record zone_doc =
  zone_attrs :: "(string \<times> string) list"
  zone_nwifs :: "zone_nwiftab list"

type_synonym zone_dochandle_t = "zone_doc option"

type_synonym ipadm_handle_t = "nat option"

definition zonecfg_lookup_attr :: "zone_doc \<Rightarrow> string \<Rightarrow> string option" where
  "zonecfg_lookup_attr doc name = map_of (zone_attrs doc) name"

text \<open>\<^verbatim>\<open>strncmp(a, b, n) == 0\<close>: the first \<open>n\<close> characters agree.\<close>

definition strncmp_eq :: "nat \<Rightarrow> string \<Rightarrow> string \<Rightarrow> bool" where
  "strncmp_eq n a b = (take n a = take n b)"

fun zone_find_attr :: "platform \<Rightarrow> (string \<times> string) list \<Rightarrow> string \<Rightarrow> string option" where
  "zone_find_attr P [] name = None"
| "zone_find_attr P ((n, v) # attrs) name =
     (if strncmp_eq (MAXNAMELEN P) n name then Some v else zone_find_attr P attrs name)"

subsection \<open>lxi_kern_release_cmp\<close>

text \<open>
  The loop \<^verbatim>\<open>for (i = 0; i < 3; i++)\<close> over the indices still to visit: the first
  component that differs decides.
\<close>

fun vers_loop :: "int list \<Rightarrow> int list \<Rightarrow> nat list \<Rightarrow> int" where
  "vers_loop zvers cvers [] = 0"
| "vers_loop zvers cvers (i # rest) =
     (if zvers ! i > cvers ! i then 1
      else if zvers ! i < cvers ! i then - 1
      else vers_loop zvers cvers rest)"

definition lxi_kern_release_cmp :: "zone_dochandle_t \<Rightarrow> string option \<Rightarrow> world \<Rightarrow> int res" where
  "lxi_kern_release_cmp handle vers w =
     (case handle of
        None \<Rightarrow> lxi_err ''%s zone handle is NULL'' w
      | Some doc \<Rightarrow>
          (case vers of
             None \<Rightarrow> lxi_err ''%s kernel version is NULL'' w
           | Some v \<Rightarrow>
               (case zonecfg_lookup_attr doc ''kernel-version'' of
                  Some zone_attr_value \<Rightarrow>
                    (let zvers = store_scanned (sscanf_d3 zone_attr_value) [0, 0, 0];
                         cvers = store_scanned (sscanf_d3 v) [0, 0, 0]
                     in Inr (vers_loop zvers cvers [0, 1, 2], w))
                | None \<Rightarrow> lxi_err ''%s kernel-version zonecfg_lookup_attr: %s'' w)))"

subsection \<open>lxi_normalize_protocols\<close>

definition NETSTACK_BUFSZ :: nat where
  "NETSTACK_BUFSZ = 524288"

definition proto_entries :: "mod_proto list" where
  "proto_entries = [MOD_PROTO_TCP, MOD_PROTO_UDP, MOD_PROTO_SCTP, MOD_PROTO_RAWIP]"

definition set_prop_warn :: "string \<Rightarrow> string \<Rightarrow> mod_proto \<Rightarrow> world \<Rightarrow> world" where
  "set_prop_warn name v p w =
     (let (status, w1) = extern (Ipadm_set_prop name v p) w in
      if status \<noteq> 0 then lxi_warn ''%s buf ipadm_set_prop error %d index %d: %s'' w1 else w1)"

definition normalize_proto :: "string \<Rightarrow> string \<Rightarrow> world \<Rightarrow> mod_proto \<Rightarrow> world" where
  "normalize_proto val_max val w p =
     set_prop_warn ''recv_buf'' val p
       (set_prop_warn ''send_buf'' val p
         (set_prop_warn ''max_buf'' val_max p w))"

definition lxi_normalize_protocols :: "zone_dochandle_t \<Rightarrow> ipadm_handle_t \<Rightarrow> world \<Rightarrow> unit res" where
  "lxi_normalize_protocols handle iph w =
     (case iph of
        None \<Rightarrow> lxi_err ''%s ipadm handle is NULL'' w
      | Some h \<Rightarrow>
          (case lxi_kern_release_cmp handle (Some ''3.4.0'') w of
             Inl w1 \<Rightarrow> Inl w1
           | Inr (c, w1) \<Rightarrow>
               (let max_buf = (if c < 0 then 4 * 1024 * 1024 else 6 * 1024 * 1024 :: nat);
                    val = snprintf 16 (dec_nat (NETSTACK_BUFSZ * 2));
                    val_max = snprintf 16 (dec_nat max_buf)
                in Inr ((), foldl (normalize_proto val_max val) w1 proto_entries))))"

subsection \<open>lxi_net_plumb\<close>

definition lxi_net_plumb :: "platform \<Rightarrow> string \<Rightarrow> world \<Rightarrow> unit res" where
  "lxi_net_plumb P iface w =
     (let ifbuf = strncpy (LIFNAMSIZ P) iface;
          (status, w1) = extern (Ipadm_create_if ifbuf AF_INET) w
      in if status \<noteq> 0 \<and> status \<noteq> IPADM_IF_EXISTS P
         then lxi_err ''ipadm_create_if error %d: %s/v4: %s'' w1
         else if ipv6_enable w1 then
           (let (status6, w2) = extern (Ipadm_create_if ifbuf AF_INET6) w1
            in if status6 \<noteq> 0 \<and> status6 \<noteq> IPADM_IF_EXISTS P
               then lxi_err ''ipadm_create_if error %d: %s/v6: %s'' w2
               else Inr ((), w2))
         else Inr ((), w1))"

subsection \<open>lxi_getif\<close>

definition close_warn :: "world \<Rightarrow> world" where
  "close_warn w =
     (let (r, w1) = extern Close w
      in if r \<noteq> 0 then lxi_warn ''failed to close socket: %s'' w1 else w1)"

text \<open>
  Modelled from the spec: the answer of the kernel to \<^verbatim>\<open>SIOCLIFADDIF\<close>, which is not
  part of the source file. The spec has the allocation return
  "a kernel-assigned logical interface name (e.g., appending a numeric suffix)":
  the name passed in, a colon and the number of the logical unit. In the model the answer
  of the \<^verbatim>\<open>ioctl\<close> is negative when it fails and is the number of the unit otherwise.
\<close>

definition lifname :: "string \<Rightarrow> int \<Rightarrow> string" where
  "lifname base n = base @ '':'' @ dec_nat (nat n)"

text \<open>The function returns its status and what it leaves in the caller's buffer \<open>iface\<close>.\<close>

definition lxi_getif ::
  "platform \<Rightarrow> sa_family \<Rightarrow> string \<Rightarrow> nat \<Rightarrow> bool \<Rightarrow> world \<Rightarrow> (int \<times> string) \<times> world" where
  "lxi_getif P af iface len first_ipv4_configured w =
     (let (s, w1) = extern (Socket af) w
      in if s < 0 then ((- 1, iface), lxi_warn ''socket error %d: bringing up %s: %s'' w1)
         else if af = AF_INET6 \<or> first_ipv4_configured then
           (let lifr_name = strncpy (LIFNAMSIZ P) iface;
                (r, w2) = extern (Ioctl_SIOCLIFADDIF lifr_name) w1
            in if r < 0 then ((- 1, iface), close_warn w2)
               else ((0, strncpy len (lifname lifr_name r)), close_warn w2))
         else ((0, iface), close_warn w1))"

subsection \<open>lxi_iface_ip\<close>

definition aobjname_of :: "platform \<Rightarrow> string \<Rightarrow> 32 word \<Rightarrow> string" where
  "aobjname_of P iface n = snprintf (IPADM_AOBJSIZ P) (iface @ ''/addr'' @ dec_int (sint n))"

definition destroy_addrobj :: "string \<Rightarrow> world \<Rightarrow> world" where
  "destroy_addrobj aobjname w = snd (extern (Ipadm_destroy_addrobj aobjname) w)"

text \<open>The function returns its status and the new value of \<^verbatim>\<open>*first_ipv4_configured\<close>.\<close>

definition lxi_iface_ip ::
  "platform \<Rightarrow> string \<Rightarrow> string \<Rightarrow> bool \<Rightarrow> world \<Rightarrow> (int \<times> bool) \<times> world" where
  "lxi_iface_ip P origiface addr first_ipv4_configured w =
     (let iface0 = strncpy (LIFNAMSIZ P) origiface;
          af = (if strstr_found addr '':'' then AF_INET6 else AF_INET);
          ((g, iface), w1) = lxi_getif P af iface0 (LIFNAMSIZ P) first_ipv4_configured w
      in if g \<noteq> 0
         then ((- 1, first_ipv4_configured),
               lxi_warn ''failed to create new logical interface on %s: %s'' w1)
         else
           (let aobjname = aobjname_of P iface (addrnum w1);
                w2 = w1\<lparr>addrnum := addrnum w1 + 1\<rparr>;
                (st1, w3) = extern (Ipadm_create_addrobj aobjname) w2
            in if st1 \<noteq> 0
               then ((- 2, first_ipv4_configured),
                     lxi_warn ''ipadm_create_addrobj error %d: addr %s, interface %s: %s'' w3)
               else
                 (let (st2, w4) = extern (Ipadm_set_addr aobjname addr) w3
                  in if st2 \<noteq> 0
                     then ((- 3, first_ipv4_configured),
                           destroy_addrobj aobjname
                             (lxi_warn ''ipadm_set_addr error %d: addr %s, interface %s: %s'' w4))
                     else
                       (let (st3, w5) = extern (Ipadm_create_addr aobjname) w4
                        in if st3 \<noteq> 0
                           then ((- 4, first_ipv4_configured),
                                 destroy_addrobj aobjname
                                   (lxi_warn ''ipadm_create_addr error for %s: %s'' w5))
                           else ((0, (if af = AF_INET then True else first_ipv4_configured)),
                                 destroy_addrobj aobjname w5)))))"

subsection \<open>lxi_iface_dhcp\<close>

text \<open>
  \<^verbatim>\<open>dhcp_ipc_alloc_request\<close> allocates memory and returns NULL when there is none;
  the return code of the reply is a second answer of the outside.
\<close>

definition lxi_iface_dhcp ::
  "platform \<Rightarrow> string \<Rightarrow> bool \<Rightarrow> world \<Rightarrow> (int \<times> bool) res" where
  "lxi_iface_dhcp P origiface first_ipv4_configured w =
     (let timeout = 5;
          iface0 = strncpy (LIFNAMSIZ P) origiface;
          ((g, iface), w1) = lxi_getif P AF_INET iface0 (LIFNAMSIZ P) first_ipv4_configured w
      in if g \<noteq> 0
         then Inr ((- 1, first_ipv4_configured),
                   lxi_warn ''failed to create new logical interface on %s: %s'' w1)
         else
           (let (a, w2) = extern (Dhcp_start_agent timeout) w1
            in if a \<noteq> 0 then lxi_err ''Failed to start dhcpagent'' w2
               else
                 (let (ok, w3) = alloc w2
                  in if \<not> ok
                     then Inr ((- 1, first_ipv4_configured),
                               lxi_warn ''Unable to allocate memory to start DHCP on %s'' w3)
                     else
                       (let (err, w4) = extern (Dhcp_ipc_make_request iface timeout) w3
                        in if err \<noteq> 0
                           then Inr ((- 1, first_ipv4_configured),
                                     lxi_warn ''Failed to start DHCP on %s: %s'' w4)
                           else
                             (let (rc, w5) = extern Dhcp_reply_return_code w4
                              in if rc \<noteq> 0
                                 then Inr ((rc, first_ipv4_configured),
                                           lxi_warn ''Failed to start DHCP on %s: %s'' w5)
                                 else Inr ((rc, True), w5))))))"

subsection \<open>lxi_iface_ipv6_link_local\<close>

definition lxi_iface_ipv6_link_local :: "platform \<Rightarrow> string \<Rightarrow> world \<Rightarrow> int \<times> world" where
  "lxi_iface_ipv6_link_local P iface w =
     (let (s, w1) = extern (Socket AF_INET6) w;
          w2 = (if s = - 1 then lxi_warn ''socket error %d: bringing up %s: %s'' w1 else w1);
          lifr_name = strncpy (LIFNAMSIZ P) iface;
          (r, w3) = extern (Ioctl_SIOCGLIFFLAGS lifr_name) w2
      in if r < 0 then (- 1, lxi_warn ''SIOCGLIFFLAGS error %d: bringing up %s: %s'' w3)
         else
           (let (r2, w4) = extern (Ioctl_SIOCSLIFFLAGS lifr_name) w3
            in if r2 < 0 then (- 1, lxi_warn ''SIOCSLIFFLAGS error %d: bringing up %s: %s'' w4)
               else (0, snd (extern Close w4))))"

subsection \<open>lxi_iface_gateway\<close>

text \<open>
  Modelled from the spec: \<^verbatim>\<open>plen2mask\<close> of libinetutil, which is not part of the
  source file. The spec: the "netmask is computed from the prefix length
  (prefix\<rightarrow>dotted-mask conversion must match standard CIDR semantics: prefix 0 \<rightarrow> 0.0.0.0,
  prefix 32 \<rightarrow> 255.255.255.255)", the mask record being "an address-family tag plus a
  4-byte IPv4 address". The leading \<open>p\<close> bits of the address are set. A prefix length
  outside \<open>0..32\<close> has no mask in CIDR: the conversion fails there.
\<close>

definition cidr_mask :: "nat \<Rightarrow> 32 word" where
  "cidr_mask p = push_bit (32 - p) (mask p)"

definition plen2mask :: "int \<Rightarrow> sa_family \<Rightarrow> sockaddr_in option" where
  "plen2mask prefixlen af =
     (if 0 \<le> prefixlen \<and> prefixlen \<le> 32
      then Some \<lparr>sin_family = af, sin_port = 0, sin_addr = cidr_mask (nat prefixlen)\<rparr>
      else None)"

text \<open>The four octets of an address, as in the dotted notation.\<close>

definition dotted :: "32 word \<Rightarrow> nat list" where
  "dotted a = [unat (drop_bit 24 a), unat (take_bit 8 (drop_bit 16 a)),
               unat (take_bit 8 (drop_bit 8 a)), unat (take_bit 8 a)]"

definition zero_sin :: sockaddr_in where
  "zero_sin = \<lparr>sin_family = AF_UNSPEC, sin_port = 0, sin_addr = 0\<rparr>"

definition zero_rtm :: rt_msghdr where
  "zero_rtm = \<lparr>rtm_msglen = 0, rtm_version = 0, rtm_type = RTM_NONE, rtm_index = 0,
               rtm_flags = {}, rtm_addrs = {}, rtm_pid = 0\<rparr>"

text \<open>
  The end of the function: the routing socket is opened, the buffer is written at once,
  and a short write is an error.
\<close>

definition rt_write :: "rtbuf \<Rightarrow> world \<Rightarrow> int \<times> world" where
  "rt_write buf w =
     (let (sockfd, w1) = extern Socket_PF_ROUTE w
      in if sockfd < 0 then (- 1, lxi_warn ''socket(PF_ROUTE): %s'' w1)
         else
           (let (len, w2) = extern (Write_rtmsg buf) w1
            in if len < 0
               then (- 1, snd (extern Close (lxi_warn ''could not write rtmsg: %s'' w2)))
               else if len < uint (rtm_msglen (rtm buf))
               then (- 1, snd (extern Close (lxi_warn ''write() rtmsg incomplete'' w2)))
               else (0, snd (extern Close w2))))"

text \<open>
  The three socket addresses after \<^verbatim>\<open>bzero\<close>, the two assignments of
  \<open>sin_family\<close> and the destination branch: \<open>None\<close> when \<^verbatim>\<open>inet_pton\<close> or
  \<^verbatim>\<open>plen2mask\<close> fails.
\<close>

definition rt_dst_mask :: "platform \<Rightarrow> string option \<Rightarrow> int \<Rightarrow> sockaddr_in list option" where
  "rt_dst_mask P dst dstpfx =
     (let sins0 = [zero_sin\<lparr>sin_family := AF_INET\<rparr>, zero_sin, zero_sin\<lparr>sin_family := AF_INET\<rparr>]
      in case dst of
           None \<Rightarrow> Some sins0
         | Some d \<Rightarrow>
             (case inet_pton P d of
                None \<Rightarrow> None
              | Some a \<Rightarrow>
                  (case plen2mask dstpfx AF_INET of
                     None \<Rightarrow> None
                   | Some m \<Rightarrow> Some (sins0[0 := (sins0 ! 0)\<lparr>sin_addr := a\<rparr>, 2 := m]))))"

text \<open>
  A NULL \<open>gwaddr\<close> reaches \<^verbatim>\<open>inet_pton\<close>, which reads through it: the behaviour
  is undefined, and the model stops the process there with a \<open>Fault\<close>.
\<close>

definition lxi_iface_gateway ::
  "platform \<Rightarrow> string option \<Rightarrow> string option \<Rightarrow> int \<Rightarrow> string option \<Rightarrow> world \<Rightarrow> int res" where
  "lxi_iface_gateway P iface dst dstpfx gwaddr w =
     (let (pid, w1) = extern Getpid w;
          hdr = zero_rtm\<lparr>rtm_addrs := {RTA_DST, RTA_GATEWAY, RTA_NETMASK},
                         rtm_flags := {RTF_UP, RTF_STATIC, RTF_GATEWAY},
                         rtm_msglen := word_of_nat (RTMBUFSZ P),
                         rtm_pid := pid,
                         rtm_type := RTM_ADD,
                         rtm_version := word_of_nat (RTM_VERSION P)\<rparr>
      in case rt_dst_mask P dst dstpfx of
           None \<Rightarrow> Inr (- 1, lxi_warn ''bad destination network %s/%d: %s'' w1)
         | Some sins1 \<Rightarrow>
             (case gwaddr of
                None \<Rightarrow> fault ''inet_pton(AF_INET, NULL, &(gw_sin->sin_addr))'' w1
              | Some g \<Rightarrow>
                  (case inet_pton P g of
                     None \<Rightarrow> Inr (- 1, lxi_warn ''bad gateway %s: %s'' w1)
                   | Some ga \<Rightarrow>
                       (let sins2 = sins1[1 := (sins1 ! 1)\<lparr>sin_addr := ga\<rparr>]
                        in case iface of
                             None \<Rightarrow> Inr (rt_write \<lparr>rtm = hdr, sins = sins2\<rparr> w1)
                           | Some i \<Rightarrow>
                               (let (idx, w2) = extern (If_nametoindex i) w1
                                in if idx = 0
                                   then Inr (- 1,
                                     lxi_warn ''unable to get interface index for %s: %s'' w2)
                                   else Inr (rt_write
                                     \<lparr>rtm = hdr\<lparr>rtm_index := word_of_int idx\<rparr>, sins = sins2\<rparr> w2))))))"

subsection \<open>lxi_net_loopback\<close>

definition lxi_net_loopback :: "platform \<Rightarrow> world \<Rightarrow> unit res" where
  "lxi_net_loopback P w =
     (case lxi_net_plumb P ''lo0'' w of
        Inl e \<Rightarrow> Inl e
      | Inr (u, w1) \<Rightarrow>
          (let (r, w2) = lxi_iface_ip P ''lo0'' ''127.0.0.1/8'' False w1
           in if ipv6_enable w2 then Inr ((), snd (lxi_iface_ipv6_link_local P ''lo0'' w2))
              else Inr ((), w2)))"

subsection \<open>lxi_net_setup\<close>

text \<open>
  The loop \<^verbatim>\<open>while ((ipaddr = strtok_r(tmp, ",", &lasts)) != NULL)\<close> over the
  tokens still to come. Its state is \<open>do_addrconf\<close> and \<open>first_ipv4_configured\<close>.
\<close>

fun token_loop ::
  "platform \<Rightarrow> string \<Rightarrow> string list \<Rightarrow> bool \<times> bool \<Rightarrow> world \<Rightarrow> (bool \<times> bool) \<times> world" where
  "token_loop P iface [] st w = (st, w)"
| "token_loop P iface (ipaddr # rest) st w =
     (if ipaddr = ''addrconf'' then token_loop P iface rest (True, snd st) w
      else if ipaddr = ''dhcp'' then token_loop P iface rest st w
      else
        (let ((rc, first), w1) = lxi_iface_ip P iface ipaddr (snd st) w;
             w2 = (if rc < 0
                   then lxi_warn ''Unable to add new IP address (%s) to interface %s'' w1
                   else w1)
         in token_loop P iface rest (fst st, first) w2))"

text \<open>
  Lines 842 to 845 of the body of the loop over the interfaces: DHCP first, when the
  address string contains \<open>dhcp\<close>. \<open>first_ipv4_configured\<close> is \<open>False\<close> when the body
  starts; the result is its value after the call.
\<close>

definition lxi_net_dhcp :: "platform \<Rightarrow> string \<Rightarrow> string \<Rightarrow> world \<Rightarrow> bool res" where
  "lxi_net_dhcp P iface ipaddrs w =
     (if strstr_found ipaddrs ''dhcp''
      then (case lxi_iface_dhcp P iface False w of
              Inl e \<Rightarrow> Inl e
            | Inr ((rc, first), w1) \<Rightarrow>
                Inr (first,
                     if rc \<noteq> 0 then lxi_warn ''Failed to start DHCP on %s'' w1 else w1))
      else Inr (False, w))"

text \<open>
  Lines 842 to 867: the DHCP step, then the loop over the tokens of the copy of the
  address string.
\<close>

definition ipaddr_tokens :: "platform \<Rightarrow> string \<Rightarrow> string list" where
  "ipaddr_tokens P ipaddrs = strtok_all CHR '','' (strlcpy (MAXNAMELEN P) ipaddrs) []"

definition lxi_net_addrs ::
  "platform \<Rightarrow> string \<Rightarrow> string \<Rightarrow> bool \<Rightarrow> world \<Rightarrow> (bool \<times> bool) res" where
  "lxi_net_addrs P iface ipaddrs do_addrconf w =
     (case lxi_net_dhcp P iface ipaddrs w of
        Inl e \<Rightarrow> Inl e
      | Inr (first, w2) \<Rightarrow>
          Inr (token_loop P iface (ipaddr_tokens P ipaddrs) (do_addrconf, first) w2))"

text \<open>The \<open>ipv6\<close> attribute of the interface against the zone-wide setting.\<close>

definition nwif_ipv6 :: "string option \<Rightarrow> world \<Rightarrow> bool res" where
  "nwif_ipv6 ipv6attr w =
     (case ipv6attr of
        None \<Rightarrow> Inr (ipv6_enable w, w)
      | Some a \<Rightarrow>
          if a = ''true'' then
            (if \<not> ipv6_enable w
             then lxi_err ''Cannot enable ipv6 for an interface when it is disabled for the zone.'' w
             else Inr (ipv6_enable w, w))
          else if a = ''false'' then Inr (False, w)
          else lxi_err ''invalid value for 'ipv6' attribute'' w)"

definition nwif_gateway :: "platform \<Rightarrow> zone_nwiftab \<Rightarrow> string option" where
  "nwif_gateway P lookup =
     (if zone_nwif_defrouter lookup \<noteq> [] then Some (zone_nwif_defrouter lookup)
      else case zone_find_attr P (zone_nwif_attrp lookup) ''primary'' of
             None \<Rightarrow> None
           | Some primary \<Rightarrow>
               if strncmp_eq (MAXNAMELEN P) primary ''true''
               then zone_find_attr P (zone_nwif_attrp lookup) ''gateway''
               else None)"

text \<open>The body of the loop over the interfaces; it returns \<open>do_addrconf\<close>.\<close>

definition lxi_net_setup_if :: "platform \<Rightarrow> zone_nwiftab \<Rightarrow> bool \<Rightarrow> world \<Rightarrow> bool res" where
  "lxi_net_setup_if P lookup do_addrconf w =
     (let iface = zone_nwif_physical lookup;
          attrs = zone_nwif_attrp lookup
      in case lxi_net_plumb P iface w of
           Inl e \<Rightarrow> Inl e
         | Inr (u, w1) \<Rightarrow>
             (let (ipaddrs, w2) =
                    (if zone_nwif_allowed_address lookup \<noteq> []
                     then (Some (zone_nwif_allowed_address lookup), w1)
                     else case zone_find_attr P attrs ''ips'' of
                            None \<Rightarrow> (None,
                              lxi_warn ''Could not find zonecfg(8) network configuration for the %s interface'' w1)
                          | Some v \<Rightarrow> (Some v, w1))
              in case nwif_ipv6 (zone_find_attr P attrs ''ipv6'') w2 of
                   Inl e \<Rightarrow> Inl e
                 | Inr (ipv6, w3) \<Rightarrow>
                     (let w4 = (if ipv6
                                then (let (r, w') = lxi_iface_ipv6_link_local P iface w3
                                      in if r \<noteq> 0
                                         then lxi_warn ''unable to bring up link-local address on interface %s'' w'
                                         else w')
                                else w3)
                      in case ipaddrs of
                           None \<Rightarrow> Inr (do_addrconf, w4)
                         | Some ips \<Rightarrow>
                             (case lxi_net_addrs P iface ips do_addrconf w4 of
                                Inl e \<Rightarrow> Inl e
                              | Inr ((do_addrconf', first), w5) \<Rightarrow>
                                  (case nwif_gateway P lookup of
                                     None \<Rightarrow> Inr (do_addrconf', w5)
                                   | Some gateway \<Rightarrow>
                                       (case lxi_iface_gateway P (Some iface) None 0 (Some gateway) w5 of
                                          Inl e \<Rightarrow> Inl e
                                        | Inr (rc, w6) \<Rightarrow>
                                            if rc \<noteq> 0
                                            then lxi_err ''default route on %s -> %s failed'' w6
                                            else Inr (do_addrconf', w6)))))))"

fun nwif_loop :: "platform \<Rightarrow> zone_nwiftab list \<Rightarrow> bool \<Rightarrow> world \<Rightarrow> bool res" where
  "nwif_loop P [] do_addrconf w = Inr (do_addrconf, w)"
| "nwif_loop P (lookup # rest) do_addrconf w =
     (case lxi_net_setup_if P lookup do_addrconf w of
        Inl e \<Rightarrow> Inl e
      | Inr (do_addrconf', w1) \<Rightarrow> nwif_loop P rest do_addrconf' w1)"

text \<open>
  \<^verbatim>\<open>lxi_net_ndpd_start\<close> runs a service and ends in \<^verbatim>\<open>lxi_err\<close> unless the
  child exits with status 0: one call of the outside.
\<close>

definition lxi_net_ndpd_start :: "world \<Rightarrow> unit res" where
  "lxi_net_ndpd_start w =
     (let (st, w1) = extern (Svc_start ''in.ndpd'') w
      in if st \<noteq> 0 then lxi_err ''%s[%d] exited: %d'' w1 else Inr ((), w1))"

definition lxi_net_setup :: "platform \<Rightarrow> zone_doc \<Rightarrow> world \<Rightarrow> unit res" where
  "lxi_net_setup P handle w =
     (let (z, w1) = extern Zonecfg_setnwifent w
      in if z \<noteq> 0 then Inr ((), w1)
         else case nwif_loop P (zone_nwifs handle) False w1 of
                Inl e \<Rightarrow> Inl e
              | Inr (do_addrconf, w2) \<Rightarrow>
                  (case (if do_addrconf then lxi_net_ndpd_start w2 else Inr ((), w2)) of
                     Inl e \<Rightarrow> Inl e
                   | Inr (u, w3) \<Rightarrow> Inr ((), snd (extern Zonecfg_endnwifent w3))))"

text \<open>The two calls of \<^verbatim>\<open>main\<close> that assign addresses, in its order.\<close>

definition lxi_net_bringup :: "platform \<Rightarrow> zone_doc \<Rightarrow> world \<Rightarrow> unit res" where
  "lxi_net_bringup P handle w =
     (case lxi_net_loopback P w of
        Inl e \<Rightarrow> Inl e
      | Inr (u, w1) \<Rightarrow> lxi_net_setup P handle w1)"

subsection \<open>lxi_net_static_route\<close>

text \<open>
  The locals of the function: the buffer \<open>cu\<close>, the strings \<open>gw\<close> and \<open>dst\<close>
  (\<open>None\<close> while NULL) and \<open>pfx\<close>. \<^verbatim>\<open>custr_appendc\<close> and \<^verbatim>\<open>strdup\<close> allocate
  memory.
\<close>

record sr_state =
  cu :: string
  gw :: "string option"
  dst :: "string option"
  pfx :: int

definition custr_appendc :: "char \<Rightarrow> sr_state \<Rightarrow> world \<Rightarrow> sr_state res" where
  "custr_appendc c s w =
     (let (ok, w1) = alloc w
      in if ok then Inr (s\<lparr>cu := cu s @ [c]\<rparr>, w1) else lxi_err ''custr_appendc failure'' w1)"

definition sr_step :: "char \<Rightarrow> sr_state \<Rightarrow> world \<Rightarrow> sr_state res" where
  "sr_step c s w =
     (if gw s = None then
        (if c = CHR ''|'' then
           (let (ok, w1) = alloc w
            in if ok then Inr (s\<lparr>gw := Some (cu s), cu := []\<rparr>, w1)
               else lxi_err ''strdup failure'' w1)
         else custr_appendc c s w)
      else if dst s = None then
        (if c = CHR ''/'' then
           (let (ok, w1) = alloc w
            in if ok then Inr (s\<lparr>dst := Some (cu s), cu := []\<rparr>, w1)
               else lxi_err ''strdup failure'' w1)
         else custr_appendc c s w)
      else if pfx s = - 1 then
        (if c = CHR ''|'' then Inr (s\<lparr>pfx := atoi (cu s), cu := []\<rparr>, w)
         else custr_appendc c s w)
      else custr_appendc c s w)"

fun sr_loop :: "string \<Rightarrow> sr_state \<Rightarrow> world \<Rightarrow> sr_state res" where
  "sr_loop [] s w = Inr (s, w)"
| "sr_loop (c # line) s w =
     (case sr_step c s w of
        Inl e \<Rightarrow> Inl e
      | Inr (s', w') \<Rightarrow> sr_loop line s' w')"

definition sr_init :: sr_state where
  "sr_init = \<lparr>cu = [], gw = None, dst = None, pfx = - 1\<rparr>"

definition lxi_net_static_route :: "platform \<Rightarrow> string \<Rightarrow> world \<Rightarrow> unit res" where
  "lxi_net_static_route P line w =
     (let (ok, w0) = alloc w
      in if \<not> ok then lxi_err ''custr_alloc failure'' w0
         else case sr_loop line sr_init w0 of
                Inl e \<Rightarrow> Inl e
              | Inr (s, w1) \<Rightarrow>
                  (let w2 = (if cu s \<noteq> ''false''
                             then lxi_warn ''invalid static route: %s'' w1 else w1)
                   in case lxi_iface_gateway P None (dst s) (pfx s) (gw s) w2 of
                        Inl e \<Rightarrow> Inl e
                      | Inr (rc, w3) \<Rightarrow>
                          if rc \<noteq> 0 then lxi_err ''failed to add route: %s/%d -> %s'' w3
                          else Inr ((), w3)))"

subsection \<open>lxi_net_static_routes\<close>

text \<open>
  \<^verbatim>\<open>run_command\<close> fires the callback for each line the command prints. The lines
  are the input of the model, \<open>None\<close> when the command is not there; the status of
  the command is a call of the outside.
\<close>

fun route_lines :: "platform \<Rightarrow> string list \<Rightarrow> world \<Rightarrow> unit res" where
  "route_lines P [] w = Inr ((), w)"
| "route_lines P (line # rest) w =
     (case lxi_net_static_route P line w of
        Inl e \<Rightarrow> Inl e
      | Inr (u, w1) \<Rightarrow> route_lines P rest w1)"

definition lxi_net_static_routes :: "platform \<Rightarrow> string list option \<Rightarrow> world \<Rightarrow> unit res" where
  "lxi_net_static_routes P routeinfo w =
     (case routeinfo of
        None \<Rightarrow> Inr ((), w)
      | Some output \<Rightarrow>
          (case route_lines P output w of
             Inl e \<Rightarrow> Inl e
           | Inr (u, w1) \<Rightarrow>
               (let (code, w2) = extern (Run_command ''/native/usr/lib/brand/lx/routeinfo'') w1
                in if code \<noteq> 0 then lxi_err ''failed to run %s: %s'' w2 else Inr ((), w2))))"

subsection \<open>Observations of a log\<close>

text \<open>The \<^verbatim>\<open>ipadm_set_prop\<close> calls of a log, in order: property, value, protocol.\<close>

definition prop_of_event :: "event \<Rightarrow> (string \<times> string \<times> mod_proto) list" where
  "prop_of_event e = (case e of Call (Ipadm_set_prop n v p) a \<Rightarrow> [(n, v, p)] | _ \<Rightarrow> [])"

definition prop_calls :: "event list \<Rightarrow> (string \<times> string \<times> mod_proto) list" where
  "prop_calls es = concat (map prop_of_event es)"

definition three_props :: "string \<Rightarrow> string \<Rightarrow> mod_proto \<Rightarrow> (string \<times> string \<times> mod_proto) list" where
  "three_props vm v p = [(''max_buf'', vm, p), (''send_buf'', v, p), (''recv_buf'', v, p)]"

text \<open>
  The calls of a log in order, the routing messages written, and the result of a
  function that may stop the process: its value, \<open>None\<close> when it stopped.
  \<open>grows w w'\<close>: the log of \<open>w'\<close> continues the log of \<open>w\<close>.
  \<open>route_sins d g m\<close> are the three socket addresses of a routing message with
  destination \<open>d\<close>, gateway \<open>g\<close> and netmask \<open>m\<close>, in the order of the buffer;
  \<open>route_hdr\<close> is its header; \<open>next_hop_add\<close> holds of a message that adds a
  static route through a gateway. \<open>no_stop\<close> holds of the entries of the log that
  do not end the process.
\<close>

definition call_of_event :: "event \<Rightarrow> call list" where
  "call_of_event e = (case e of Call c a \<Rightarrow> [c] | _ \<Rightarrow> [])"

definition calls_of :: "event list \<Rightarrow> call list" where
  "calls_of es = concat (map call_of_event es)"

definition rtmsg_of_call :: "call \<Rightarrow> rtbuf list" where
  "rtmsg_of_call c = (case c of Write_rtmsg b \<Rightarrow> [b] | _ \<Rightarrow> [])"

definition written :: "event list \<Rightarrow> rtbuf list" where
  "written es = concat (map rtmsg_of_call (calls_of es))"

text \<open>A character that the parser appends to \<open>cu\<close> in state \<open>s\<close>.\<close>

definition route_sins :: "32 word \<Rightarrow> 32 word \<Rightarrow> 32 word \<Rightarrow> sockaddr_in list" where
  "route_sins d g m =
     [\<lparr>sin_family = AF_INET, sin_port = 0, sin_addr = d\<rparr>,
      \<lparr>sin_family = AF_UNSPEC, sin_port = 0, sin_addr = g\<rparr>,
      \<lparr>sin_family = AF_INET, sin_port = 0, sin_addr = m\<rparr>]"

definition route_hdr :: "platform \<Rightarrow> int \<Rightarrow> int \<Rightarrow> rt_msghdr" where
  "route_hdr P pid idx =
     \<lparr>rtm_msglen = word_of_nat (RTMBUFSZ P), rtm_version = word_of_nat (RTM_VERSION P),
      rtm_type = RTM_ADD, rtm_index = word_of_int idx, rtm_flags = {RTF_UP, RTF_STATIC, RTF_GATEWAY},
      rtm_addrs = {RTA_DST, RTA_GATEWAY, RTA_NETMASK}, rtm_pid = pid\<rparr>"

definition next_hop_add :: "rtbuf \<Rightarrow> bool" where
  "next_hop_add b =
     (rtm_type (rtm b) = RTM_ADD \<and> rtm_flags (rtm b) = {RTF_UP, RTF_STATIC, RTF_GATEWAY} \<and>
      rtm_addrs (rtm b) = {RTA_DST, RTA_GATEWAY, RTA_NETMASK})"

definition no_stop :: "event \<Rightarrow> bool" where
  "no_stop e = (case e of Err m \<Rightarrow> False | Fault m \<Rightarrow> False | _ \<Rightarrow> True)"

definition grows :: "world \<Rightarrow> world \<Rightarrow> bool" where
  "grows w w' = prefix (events w) (events w')"

definition value_of :: "'a res \<Rightarrow> 'a option" where
  "value_of r = (case r of Inl w \<Rightarrow> None | Inr (v, w) \<Rightarrow> Some v)"

definition appends :: "sr_state \<Rightarrow> char \<Rightarrow> bool" where
  "appends s c =
     (if gw s = None then c \<noteq> CHR ''|''
      else if dst s = None then c \<noteq> CHR ''/''
      else if pfx s = - 1 then c \<noteq> CHR ''|''
      else True)"

text \<open>
  The end of \<^verbatim>\<open>lxi_net_static_route\<close>, from the result of its call of
  \<^verbatim>\<open>lxi_iface_gateway\<close>.
\<close>

definition static_route_result :: "int res \<Rightarrow> unit res" where
  "static_route_result g =
     (case g of
        Inl e \<Rightarrow> Inl e
      | Inr (rc, w3) \<Rightarrow>
          if rc \<noteq> 0 then lxi_err ''failed to add route: %s/%d -> %s'' w3 else Inr ((), w3))"

text \<open>
  The \<^verbatim>\<open>SIOCLIFADDIF\<close> calls of a log with their answers, the names of the address
  objects created, the calls of the DHCP client and the calls on address objects.
  \<open>ip_apply\<close> is \<^verbatim>\<open>lxi_iface_ip\<close> from its \<^verbatim>\<open>snprintf\<close> on, \<open>addr_af\<close> the
  address family it derives from the address, and \<open>literal_v4\<close> holds of a token that
  the token loop hands to \<^verbatim>\<open>lxi_iface_ip\<close> as an IPv4 address.
\<close>

definition addif_of_event :: "event \<Rightarrow> (string \<times> int) list" where
  "addif_of_event e = (case e of Call (Ioctl_SIOCLIFADDIF nm) a \<Rightarrow> [(nm, a)] | _ \<Rightarrow> [])"

definition addif_calls :: "event list \<Rightarrow> (string \<times> int) list" where
  "addif_calls es = concat (map addif_of_event es)"

definition aobj_of_event :: "event \<Rightarrow> string list" where
  "aobj_of_event e = (case e of Call (Ipadm_create_addrobj nm) a \<Rightarrow> [nm] | _ \<Rightarrow> [])"

definition aobj_names :: "event list \<Rightarrow> string list" where
  "aobj_names es = concat (map aobj_of_event es)"

definition is_dhcp_call :: "call \<Rightarrow> bool" where
  "is_dhcp_call c =
     (case c of
        Dhcp_start_agent t \<Rightarrow> True
      | Dhcp_ipc_alloc_request i \<Rightarrow> True
      | Dhcp_ipc_make_request i t \<Rightarrow> True
      | Dhcp_reply_return_code \<Rightarrow> True
      | _ \<Rightarrow> False)"

definition is_addrobj_call :: "call \<Rightarrow> bool" where
  "is_addrobj_call c =
     (case c of
        Ipadm_create_addrobj n \<Rightarrow> True
      | Ipadm_set_addr n a \<Rightarrow> True
      | Ipadm_create_addr n \<Rightarrow> True
      | Ipadm_destroy_addrobj n \<Rightarrow> True
      | _ \<Rightarrow> False)"

text \<open>
  What a log shows of an assignment: \<open>applied\<close> holds when an
  \<^verbatim>\<open>ipadm_create_addr\<close> of the log answered \<open>IPADM_SUCCESS\<close>, \<open>dhcp_ok\<close> when the
  reply of the DHCP agent carried the return code 0, \<open>dhcp_failed\<close> when the request
  came back with an error or the reply with another return code. \<open>dhcp_requests\<close> are
  the interface names of the requests made, and \<open>addrobj_calls\<close> the four calls of a
  successful \<^verbatim>\<open>lxi_iface_ip\<close> on an address object, in their order.
\<close>

definition is_applied :: "event \<Rightarrow> bool" where
  "is_applied e = (case e of Call (Ipadm_create_addr nm) a \<Rightarrow> a = 0 | _ \<Rightarrow> False)"

definition applied :: "event list \<Rightarrow> bool" where
  "applied es = list_ex is_applied es"

definition dhcp_ok :: "event list \<Rightarrow> bool" where
  "dhcp_ok es = list_ex (\<lambda>e. e = Call Dhcp_reply_return_code 0) es"

definition is_dhcp_failure :: "event \<Rightarrow> bool" where
  "is_dhcp_failure e =
     (case e of
        Call (Dhcp_ipc_make_request i t) a \<Rightarrow> a \<noteq> 0
      | Call Dhcp_reply_return_code a \<Rightarrow> a \<noteq> 0
      | _ \<Rightarrow> False)"

definition dhcp_failed :: "event list \<Rightarrow> bool" where
  "dhcp_failed es = list_ex is_dhcp_failure es"

definition is_dhcp_request :: "call \<Rightarrow> bool" where
  "is_dhcp_request c = (case c of Dhcp_ipc_make_request i t \<Rightarrow> True | _ \<Rightarrow> False)"

definition dhcp_request_of :: "call \<Rightarrow> string list" where
  "dhcp_request_of c = (case c of Dhcp_ipc_make_request i t \<Rightarrow> [i] | _ \<Rightarrow> [])"

definition dhcp_requests :: "event list \<Rightarrow> string list" where
  "dhcp_requests es = concat (map dhcp_request_of (calls_of es))"

definition addrobj_calls :: "string \<Rightarrow> string \<Rightarrow> call list" where
  "addrobj_calls nm addr =
     [Ipadm_create_addrobj nm, Ipadm_set_addr nm addr, Ipadm_create_addr nm,
      Ipadm_destroy_addrobj nm]"

definition ip_apply ::
  "platform \<Rightarrow> string \<Rightarrow> string \<Rightarrow> sa_family \<Rightarrow> bool \<Rightarrow> world \<Rightarrow> (int \<times> bool) \<times> world" where
  "ip_apply P iface addr af first_ipv4_configured w1 =
     (let aobjname = aobjname_of P iface (addrnum w1);
          w2 = w1\<lparr>addrnum := addrnum w1 + 1\<rparr>;
          (st1, w3) = extern (Ipadm_create_addrobj aobjname) w2
      in if st1 \<noteq> 0
         then ((- 2, first_ipv4_configured),
               lxi_warn ''ipadm_create_addrobj error %d: addr %s, interface %s: %s'' w3)
         else
           (let (st2, w4) = extern (Ipadm_set_addr aobjname addr) w3
            in if st2 \<noteq> 0
               then ((- 3, first_ipv4_configured),
                     destroy_addrobj aobjname
                       (lxi_warn ''ipadm_set_addr error %d: addr %s, interface %s: %s'' w4))
               else
                 (let (st3, w5) = extern (Ipadm_create_addr aobjname) w4
                  in if st3 \<noteq> 0
                     then ((- 4, first_ipv4_configured),
                           destroy_addrobj aobjname
                             (lxi_warn ''ipadm_create_addr error for %s: %s'' w5))
                     else ((0, (if af = AF_INET then True else first_ipv4_configured)),
                           destroy_addrobj aobjname w5))))"

definition addr_af :: "string \<Rightarrow> sa_family" where
  "addr_af addr = (if strstr_found addr '':'' then AF_INET6 else AF_INET)"

definition literal_v4 :: "string \<Rightarrow> bool" where
  "literal_v4 t = (t \<noteq> ''addrconf'' \<and> t \<noteq> ''dhcp'' \<and> \<not> strstr_found t '':'')"

text \<open>
  The part of the log that the token loop writes for the token \<open>t\<close> that follows the
  tokens \<open>ts1\<close>, and whether the log shows that an IPv4 address among \<open>ts1\<close> was
  applied.
\<close>

definition token_seg ::
  "platform \<Rightarrow> string \<Rightarrow> string list \<Rightarrow> string \<Rightarrow> bool \<times> bool \<Rightarrow> world \<Rightarrow> event list" where
  "token_seg P iface ts1 t st w =
     news (snd (token_loop P iface ts1 st w)) (snd (token_loop P iface (ts1 @ [t]) st w))"

definition earlier_v4_applied ::
  "platform \<Rightarrow> string \<Rightarrow> string list \<Rightarrow> bool \<times> bool \<Rightarrow> world \<Rightarrow> bool" where
  "earlier_v4_applied P iface ts1 st w =
     list_ex (\<lambda>i. literal_v4 (ts1 ! i) \<and> applied (token_seg P iface (take i ts1) (ts1 ! i) st w))
       [0 ..< length ts1]"

text \<open>
  A world for running the model on concrete inputs: every call answers 0 and every
  allocation succeeds.
\<close>

definition quiet_world :: world where
  "quiet_world =
     \<lparr>addrnum = 0, ipv6_enable = True, events = [], answers = (\<lambda>n. 0), clock = 0,
      heap_ok = (\<lambda>n. True), allocs = 0\<rparr>"

text \<open>
  A reference platform for running the model: the values the illumos headers give the
  constants, and the dotted decimal notation for \<^verbatim>\<open>inet_pton\<close> (four fields of one
  to three digits, each at most 255 and none with a leading zero before another digit).
\<close>

fun split_dots :: "string \<Rightarrow> string \<Rightarrow> string list" where
  "split_dots [] cur = [cur]"
| "split_dots (c # s) cur =
     (if c = CHR ''.'' then cur # split_dots s [] else split_dots s (cur @ [c]))"

definition octet_of :: "string \<Rightarrow> nat option" where
  "octet_of s =
     (if s \<noteq> [] \<and> length s \<le> 3 \<and> list_all isdigit s \<and> unat (digits_val s) \<le> 255 \<and>
         (length s = 1 \<or> take 1 s \<noteq> ''0'')
      then Some (unat (digits_val s)) else None)"

definition dotted_quad :: "string \<Rightarrow> 32 word option" where
  "dotted_quad s =
     (case map octet_of (split_dots s []) of
        [Some a, Some b, Some c, Some d] \<Rightarrow>
          Some (word_of_nat (((a * 256 + b) * 256 + c) * 256 + d))
      | _ \<Rightarrow> None)"

definition ref_platform :: platform where
  "ref_platform =
     \<lparr>LIFNAMSIZ = 32, IPADM_AOBJSIZ = 64, MAXNAMELEN = 256, RTMBUFSZ = 124,
      RTM_VERSION = 3, IPADM_IF_EXISTS = 10, inet_pton = dotted_quad\<rparr>"

text \<open>The quiet world with other answers: \<open>f\<close> maps the number of a call to its answer.\<close>

definition world_answering :: "(nat \<Rightarrow> int) \<Rightarrow> world" where
  "world_answering f = quiet_world\<lparr>answers := f\<rparr>"

text \<open>
  A world in which the routing socket opens and the write of the third call returns 124,
  the length of the message on the reference platform.
\<close>

definition route_ok_world :: world where
  "route_ok_world = world_answering (\<lambda>n. if n = 2 then 124 else 0)"

definition zone_with_version :: "string \<Rightarrow> zone_doc" where
  "zone_with_version v = \<lparr>zone_attrs = [(''kernel-version'', v)], zone_nwifs = []\<rparr>"

section \<open>Decimal output\<close>

lemma digit_char_simps:
  "digit_char 0 = CHR ''0''" "digit_char 1 = CHR ''1''" "digit_char (Suc 0) = CHR ''1''"
  "digit_char 2 = CHR ''2''" "digit_char 3 = CHR ''3''" "digit_char 4 = CHR ''4''"
  "digit_char 5 = CHR ''5''" "digit_char 6 = CHR ''6''" "digit_char 7 = CHR ''7''"
  "digit_char 8 = CHR ''8''" "digit_char 9 = CHR ''9''"
  by code_simp+

lemma dec_nat_consts:
  "dec_nat 1048576 = ''1048576''" "dec_nat 2097152 = ''2097152''"
  "dec_nat 4194304 = ''4194304''" "dec_nat 6291456 = ''6291456''"
  by (simp_all add: dec_nat.simps digit_char_simps)

section \<open>The log only grows\<close>

lemma news_append: "events w' = events w @ X \<Longrightarrow> news w w' = X"
  by (simp add: news_def)

section \<open>The netstack buffer normalizer\<close>

lemma prop_calls_append [simp]: "prop_calls (xs @ ys) = prop_calls xs @ prop_calls ys"
  by (simp add: prop_calls_def)

lemma prop_calls_simps [simp]:
  "prop_calls [] = []"
  "prop_calls (Call (Ipadm_set_prop n v p) a # es) = (n, v, p) # prop_calls es"
  "prop_calls (Warn m # es) = prop_calls es"
  "prop_calls (Err m # es) = prop_calls es"
  by (simp_all add: prop_calls_def prop_of_event_def)

lemma set_prop_warn_events:
  "\<exists>X. events (set_prop_warn n v p w) = events w @ X \<and> prop_calls X = [(n, v, p)]"
  by (simp add: set_prop_warn_def extern_def lxi_warn_def)

lemma normalize_proto_events:
  "\<exists>X. events (normalize_proto vm v w p) = events w @ X \<and> prop_calls X = three_props vm v p"
proof -
  let ?w1 = "set_prop_warn ''max_buf'' vm p w"
  let ?w2 = "set_prop_warn ''send_buf'' v p ?w1"
  obtain X1 where 1: "events ?w1 = events w @ X1" "prop_calls X1 = [(''max_buf'', vm, p)]"
    using set_prop_warn_events by blast
  obtain X2 where 2: "events ?w2 = events ?w1 @ X2" "prop_calls X2 = [(''send_buf'', v, p)]"
    using set_prop_warn_events by blast
  obtain X3 where 3: "events (normalize_proto vm v w p) = events ?w2 @ X3"
      "prop_calls X3 = [(''recv_buf'', v, p)]"
    unfolding normalize_proto_def using set_prop_warn_events by blast
  have "events (normalize_proto vm v w p) = events w @ (X1 @ X2 @ X3)"
    using 1 2 3 by simp
  moreover have "prop_calls (X1 @ X2 @ X3) = three_props vm v p"
    using 1 2 3 by (simp add: three_props_def)
  ultimately show ?thesis by blast
qed

lemma foldl_normalize_events:
  "\<exists>X. events (foldl (normalize_proto vm v) w ps) = events w @ X \<and>
     prop_calls X = concat (map (three_props vm v) ps)"
proof (induction ps arbitrary: w)
  case Nil
  then show ?case by simp
next
  case (Cons p ps)
  let ?w1 = "normalize_proto vm v w p"
  obtain X1 where 1: "events ?w1 = events w @ X1" "prop_calls X1 = three_props vm v p"
    using normalize_proto_events by blast
  obtain X2 where 2: "events (foldl (normalize_proto vm v) ?w1 ps) = events ?w1 @ X2"
     "prop_calls X2 = concat (map (three_props vm v) ps)"
    using Cons.IH by blast
  have "events (foldl (normalize_proto vm v) w (p # ps)) = events w @ (X1 @ X2)"
    using 1 2 by simp
  moreover have "prop_calls (X1 @ X2) = concat (map (three_props vm v) (p # ps))"
    using 1 2 by simp
  ultimately show ?case by blast
qed

lemma scan_3_4_0: "sscanf_d3 ''3.4.0'' = [3, 4, 0]"
  by code_simp



lemma kern_release_cmp_world:
  "lxi_kern_release_cmp handle vers w = Inr (c, w') \<Longrightarrow> w' = w"
  by (auto simp: lxi_kern_release_cmp_def lxi_err_def Let_def split: option.splits)

lemma kern_release_cmp_fatal:
  "lxi_kern_release_cmp handle vers w = Inl w' \<Longrightarrow> \<exists>m. events w' = events w @ [Err m]"
  by (auto simp: lxi_kern_release_cmp_def lxi_err_def Let_def split: option.splits)

lemma normalize_protocols_Inr:
  assumes "lxi_normalize_protocols handle iph w = Inr (u, w')"
  shows "\<exists>c X. lxi_kern_release_cmp handle (Some ''3.4.0'') w = Inr (c, w) \<and>
           events w' = events w @ X \<and>
           prop_calls X =
             concat (map (three_props
                            (dec_nat (if c < 0 then 4 * 1024 * 1024 else 6 * 1024 * 1024))
                            (dec_nat (NETSTACK_BUFSZ * 2))) proto_entries)"
proof -
  from assms obtain h c w1 where iph: "iph = Some h"
    and k: "lxi_kern_release_cmp handle (Some ''3.4.0'') w = Inr (c, w1)"
    by (auto simp: lxi_normalize_protocols_def lxi_err_def split: option.splits sum.splits)
  have w1: "w1 = w" using k by (rule kern_release_cmp_world)
  let ?vm = "dec_nat (if c < 0 then 4 * 1024 * 1024 else 6 * 1024 * 1024)"
  let ?v = "dec_nat (NETSTACK_BUFSZ * 2)"
  have sn: "snprintf 16 ?v = ?v"
    by (simp add: snprintf_def NETSTACK_BUFSZ_def dec_nat_consts)
  have sm: "snprintf 16 ?vm = ?vm"
    by (simp add: snprintf_def dec_nat_consts)
  have "w' = foldl (normalize_proto ?vm ?v) w proto_entries"
    using assms iph k w1 sn sm by (simp add: lxi_normalize_protocols_def Let_def)
  then show ?thesis
    using foldl_normalize_events k w1 by blast
qed

lemma normalize_protocols_Inl:
  assumes "lxi_normalize_protocols handle iph w = Inl w'"
  shows "\<exists>m. events w' = events w @ [Err m]"
  using assms kern_release_cmp_fatal
  by (auto simp: lxi_normalize_protocols_def lxi_err_def Let_def
      split: option.splits sum.splits prod.splits)

lemma normalize_protocols_news:
  "prop_calls (news w (world_of (lxi_normalize_protocols handle iph w))) =
     (case lxi_normalize_protocols handle iph w of
        Inl w' \<Rightarrow> []
      | Inr (u, w') \<Rightarrow>
          concat (map (three_props
             (dec_nat (if fst (projr (lxi_kern_release_cmp handle (Some ''3.4.0'') w)) < 0
                       then 4 * 1024 * 1024 else 6 * 1024 * 1024))
             ''1048576'') proto_entries))"
proof (cases "lxi_normalize_protocols handle iph w")
  case (Inl w')
  then obtain m where "events w' = events w @ [Err m]"
    using normalize_protocols_Inl by blast
  then have "news w w' = [Err m]" by (rule news_append)
  then show ?thesis using Inl by (simp add: world_of_def)
next
  case (Inr p)
  obtain u w' where p: "p = (u, w')" by (cases p)
  from Inr p obtain c X where c: "lxi_kern_release_cmp handle (Some ''3.4.0'') w = Inr (c, w)"
    and X: "events w' = events w @ X"
    and P: "prop_calls X =
             concat (map (three_props
                            (dec_nat (if c < 0 then 4 * 1024 * 1024 else 6 * 1024 * 1024))
                            (dec_nat (NETSTACK_BUFSZ * 2))) proto_entries)"
    using normalize_protocols_Inr by blast
  have "news w w' = X" using X by (rule news_append)
  then show ?thesis
    using Inr p c P by (simp add: world_of_def NETSTACK_BUFSZ_def dec_nat_consts)
qed

text \<open>
  C1, as the code has it. Whatever the zone handle, the ipadm handle and the answers of
  the outside: when the normalizer runs to its end, the \<open>send_buf\<close> calls it made are
  one per protocol, in the order TCP, UDP, SCTP, raw IP, each with the decimal string
  of \<open>2 * NETSTACK_BUFSZ = 1048576 = 1024 * 1024\<close>, and so are the \<open>recv_buf\<close>
  calls; when it stops in \<^verbatim>\<open>lxi_err\<close> it made none. The value does not depend on
  the kernel version. It is 1 MiB, not 2 MiB.
\<close>

theorem normalize_send_recv_buf:
  "[x \<leftarrow> prop_calls (news w (world_of (lxi_normalize_protocols handle iph w))).
      fst x = ''send_buf''] =
     (if isl (lxi_normalize_protocols handle iph w) then []
      else map (\<lambda>p. (''send_buf'', dec_nat (1024 * 1024), p))
             [MOD_PROTO_TCP, MOD_PROTO_UDP, MOD_PROTO_SCTP, MOD_PROTO_RAWIP]) \<and>
   [x \<leftarrow> prop_calls (news w (world_of (lxi_normalize_protocols handle iph w))).
      fst x = ''recv_buf''] =
     (if isl (lxi_normalize_protocols handle iph w) then []
      else map (\<lambda>p. (''recv_buf'', dec_nat (1024 * 1024), p))
             [MOD_PROTO_TCP, MOD_PROTO_UDP, MOD_PROTO_SCTP, MOD_PROTO_RAWIP]) \<and>
   dec_nat (1024 * 1024) = dec_nat (2 * NETSTACK_BUFSZ)"
  unfolding normalize_protocols_news
  by (cases "lxi_normalize_protocols handle iph w")
     (auto simp: proto_entries_def three_props_def dec_nat_consts NETSTACK_BUFSZ_def)

text \<open>
  C1 as the claim states it fails: for a zone that declares kernel version 3.4.0, in the
  world where every call succeeds, the value given to \<open>send_buf\<close> and \<open>recv_buf\<close>
  for TCP is \<open>1048576\<close> and the decimal string of \<open>2 * 1024 * 1024\<close> is given to neither.
\<close>

theorem normalize_send_recv_buf_not_2MiB:
  "(''send_buf'', ''1048576'', MOD_PROTO_TCP) \<in>
     set (prop_calls (news quiet_world (world_of
       (lxi_normalize_protocols (Some (zone_with_version ''3.4.0'')) (Some 0) quiet_world)))) \<and>
   (''recv_buf'', ''1048576'', MOD_PROTO_TCP) \<in>
     set (prop_calls (news quiet_world (world_of
       (lxi_normalize_protocols (Some (zone_with_version ''3.4.0'')) (Some 0) quiet_world)))) \<and>
   (''send_buf'', dec_nat (2 * 1024 * 1024), MOD_PROTO_TCP) \<notin>
     set (prop_calls (news quiet_world (world_of
       (lxi_normalize_protocols (Some (zone_with_version ''3.4.0'')) (Some 0) quiet_world)))) \<and>
   (''recv_buf'', dec_nat (2 * 1024 * 1024), MOD_PROTO_TCP) \<notin>
     set (prop_calls (news quiet_world (world_of
       (lxi_normalize_protocols (Some (zone_with_version ''3.4.0'')) (Some 0) quiet_world))))"
proof -
  have k: "lxi_kern_release_cmp (Some (zone_with_version ''3.4.0'')) (Some ''3.4.0'') quiet_world
             = Inr (0, quiet_world)"
    by (simp add: lxi_kern_release_cmp_def zone_with_version_def zonecfg_lookup_attr_def
        scan_3_4_0 store_scanned_def)
  have r: "\<not> isl (lxi_normalize_protocols (Some (zone_with_version ''3.4.0'')) (Some 0) quiet_world)"
    by (simp add: lxi_normalize_protocols_def k Let_def)
  show ?thesis
    unfolding normalize_protocols_news using r
    by (cases "lxi_normalize_protocols (Some (zone_with_version ''3.4.0'')) (Some 0) quiet_world")
       (auto simp: k proto_entries_def three_props_def dec_nat_consts)
qed

subsection \<open>What the scan reads\<close>










lemma not_isdigit_dot [simp]: "\<not> isdigit CHR ''.''"
  by (simp add: isdigit_def)


















section \<open>The static route parser and the routing message\<close>

lemma calls_of_simps [simp]:
  "calls_of [] = []"
  "calls_of (Call c a # es) = c # calls_of es"
  "calls_of (Warn m # es) = calls_of es"
  "calls_of (Err m # es) = calls_of es"
  "calls_of (Fault m # es) = calls_of es"
  "calls_of (xs @ ys) = calls_of xs @ calls_of ys"
  by (simp_all add: calls_of_def call_of_event_def)

lemma written_simps [simp]:
  "written [] = []"
  "written (Call (Write_rtmsg b) a # es) = b # written es"
  "written (Warn m # es) = written es"
  "written (Err m # es) = written es"
  "written (Fault m # es) = written es"
  "written (xs @ ys) = written xs @ written ys"
  by (simp_all add: written_def rtmsg_of_call_def)

lemma written_Call [simp]: "written (Call c a # es) = rtmsg_of_call c @ written es"
  by (simp add: written_def)

lemma rtmsg_of_call_simps [simp]:
  "rtmsg_of_call (Write_rtmsg b) = [b]"
  "rtmsg_of_call Getpid = []"
  "rtmsg_of_call Socket_PF_ROUTE = []"
  "rtmsg_of_call Close = []"
  "rtmsg_of_call (If_nametoindex i) = []"
  by (simp_all add: rtmsg_of_call_def)

lemma sr_step_appends:
  "appends s c \<Longrightarrow> sr_step c s w = custr_appendc c s w"
  by (auto simp: appends_def sr_step_def split: if_splits)

lemma appends_cu [simp]: "appends (s\<lparr>cu := x\<rparr>) c = appends s c"
  by (simp add: appends_def)

lemma sr_loop_collect:
  "list_all (appends s) xs \<Longrightarrow> \<forall>n. heap_ok w n \<Longrightarrow>
     sr_loop xs s w = Inr (s\<lparr>cu := cu s @ xs\<rparr>, w\<lparr>allocs := allocs w + length xs\<rparr>)"
proof (induction xs arbitrary: s w)
  case Nil
  then show ?case by simp
next
  case (Cons c xs)
  have st: "sr_step c s w = Inr (s\<lparr>cu := cu s @ [c]\<rparr>, w\<lparr>allocs := Suc (allocs w)\<rparr>)"
    using Cons.prems by (simp add: sr_step_appends custr_appendc_def alloc_def)
  have "list_all (appends (s\<lparr>cu := cu s @ [c]\<rparr>)) xs"
    using Cons.prems(1) by (simp add: list_all_iff)
  moreover have "\<forall>n. heap_ok (w\<lparr>allocs := Suc (allocs w)\<rparr>) n"
    using Cons.prems(2) by simp
  ultimately have "sr_loop xs (s\<lparr>cu := cu s @ [c]\<rparr>) (w\<lparr>allocs := Suc (allocs w)\<rparr>) =
      Inr (s\<lparr>cu := cu s @ [c]\<rparr>\<lparr>cu := cu (s\<lparr>cu := cu s @ [c]\<rparr>) @ xs\<rparr>,
           w\<lparr>allocs := Suc (allocs w)\<rparr>\<lparr>allocs := allocs (w\<lparr>allocs := Suc (allocs w)\<rparr>) + length xs\<rparr>)"
    by (rule Cons.IH)
  then show ?case using st by simp
qed

lemma sr_loop_append:
  "sr_loop (xs @ ys) s w =
     (case sr_loop xs s w of Inl e \<Rightarrow> Inl e | Inr (s', w') \<Rightarrow> sr_loop ys s' w')"
  by (induction xs arbitrary: s w) (auto split: sum.splits)

lemma sr_loop_seg:
  assumes "list_all (appends s) xs" and "\<forall>n. heap_ok w n"
  shows "sr_loop (xs @ rest) s w =
           sr_loop rest (s\<lparr>cu := cu s @ xs\<rparr>) (w\<lparr>allocs := allocs w + length xs\<rparr>)"
  by (simp add: sr_loop_append sr_loop_collect [OF assms])

lemma not_in_set_all: "c \<notin> set xs \<Longrightarrow> list_all (\<lambda>x. x \<noteq> c) xs"
  by (auto simp: list_all_iff)

lemma sr_loop_line:
  assumes g: "CHR ''|'' \<notin> set g" and d: "CHR ''/'' \<notin> set d" and p: "CHR ''|'' \<notin> set p"
    and a: "atoi p \<noteq> - 1" and h: "\<forall>n. heap_ok w n"
  shows "sr_loop (g @ ''|'' @ d @ ''/'' @ p @ ''|'' @ f) sr_init w =
     Inr (\<lparr>cu = f, gw = Some g, dst = Some d, pfx = atoi p\<rparr>,
          w\<lparr>allocs := allocs w + (length g + length d + length p + length f + 2)\<rparr>)"
proof -
  let ?s1 = "\<lparr>cu = g, gw = None, dst = None, pfx = - 1\<rparr>"
  let ?s2 = "\<lparr>cu = [], gw = Some g, dst = None, pfx = - 1\<rparr>"
  let ?s3 = "\<lparr>cu = d, gw = Some g, dst = None, pfx = - 1\<rparr>"
  let ?s4 = "\<lparr>cu = [], gw = Some g, dst = Some d, pfx = - 1\<rparr>"
  let ?s5 = "\<lparr>cu = p, gw = Some g, dst = Some d, pfx = - 1\<rparr>"
  let ?s6 = "\<lparr>cu = [], gw = Some g, dst = Some d, pfx = atoi p\<rparr>"
  let ?w1 = "w\<lparr>allocs := allocs w + length g\<rparr>"
  let ?w2 = "w\<lparr>allocs := allocs w + length g + 1\<rparr>"
  let ?w3 = "w\<lparr>allocs := allocs w + length g + 1 + length d\<rparr>"
  let ?w4 = "w\<lparr>allocs := allocs w + length g + 1 + length d + 1\<rparr>"
  let ?w5 = "w\<lparr>allocs := allocs w + length g + 1 + length d + 1 + length p\<rparr>"
  have ag: "list_all (appends sr_init) g"
    using g by (auto simp: list_all_iff appends_def sr_init_def)
  have ad: "list_all (appends ?s2) d"
    using d by (auto simp: list_all_iff appends_def)
  have ap: "list_all (appends ?s4) p"
    using p by (auto simp: list_all_iff appends_def)
  have af: "list_all (appends ?s6) f"
    using a by (simp add: appends_def list_all_iff)
  have 1: "sr_loop (g @ ''|'' @ d @ ''/'' @ p @ ''|'' @ f) sr_init w =
           sr_loop (''|'' @ d @ ''/'' @ p @ ''|'' @ f) ?s1 ?w1"
    using sr_loop_seg [OF ag h] by (simp add: sr_init_def)
  have 2: "sr_loop (''|'' @ d @ ''/'' @ p @ ''|'' @ f) ?s1 ?w1 =
           sr_loop (d @ ''/'' @ p @ ''|'' @ f) ?s2 ?w2"
    using h by (simp add: sr_step_def alloc_def)
  have 3: "sr_loop (d @ ''/'' @ p @ ''|'' @ f) ?s2 ?w2 = sr_loop (''/'' @ p @ ''|'' @ f) ?s3 ?w3"
    using sr_loop_seg [OF ad, of ?w2] h by simp
  have 4: "sr_loop (''/'' @ p @ ''|'' @ f) ?s3 ?w3 = sr_loop (p @ ''|'' @ f) ?s4 ?w4"
    using h by (simp add: sr_step_def alloc_def)
  have 5: "sr_loop (p @ ''|'' @ f) ?s4 ?w4 = sr_loop (''|'' @ f) ?s5 ?w5"
    using sr_loop_seg [OF ap, of ?w4] h by simp
  have 6: "sr_loop (''|'' @ f) ?s5 ?w5 = sr_loop f ?s6 ?w5"
    by (simp add: sr_step_def)
  have 7: "sr_loop f ?s6 ?w5 =
     Inr (\<lparr>cu = f, gw = Some g, dst = Some d, pfx = atoi p\<rparr>,
          w\<lparr>allocs := allocs w + (length g + length d + length p + length f + 2)\<rparr>)"
    using sr_loop_collect [OF af, of ?w5] h by (simp add: add_ac)
  show ?thesis
    by (simp only: 1 2 3 4 5 6 7)
qed

lemma atoi_24: "atoi ''24'' = 24"
  by (simp add: atoi_def scan_int_def scan_digits_def isdigit_def isspace_def digits_val_def)

lemma sr_loop_sample:
  assumes "\<forall>n. heap_ok w n"
  shows "sr_loop ''10.77.77.2|10.1.1.0/24|false'' sr_init w =
     Inr (\<lparr>cu = ''false'', gw = Some ''10.77.77.2'', dst = Some ''10.1.1.0'', pfx = 24\<rparr>,
          w\<lparr>allocs := allocs w + 27\<rparr>)"
proof -
  have l: "''10.77.77.2|10.1.1.0/24|false'' =
             ''10.77.77.2'' @ ''|'' @ ''10.1.1.0'' @ ''/'' @ ''24'' @ ''|'' @ ''false''"
    by simp
  have n: "length ''10.77.77.2'' + length ''10.1.1.0'' + length ''24'' + length ''false'' + 2 = 27"
    by simp
  have "sr_loop (''10.77.77.2'' @ ''|'' @ ''10.1.1.0'' @ ''/'' @ ''24'' @ ''|'' @ ''false'') sr_init w =
     Inr (\<lparr>cu = ''false'', gw = Some ''10.77.77.2'', dst = Some ''10.1.1.0'', pfx = atoi ''24''\<rparr>,
          w\<lparr>allocs := allocs w + (length ''10.77.77.2'' + length ''10.1.1.0'' + length ''24'' + length ''false'' + 2)\<rparr>)"
    by (rule sr_loop_line) (simp_all add: atoi_24 assms)
  then show ?thesis
    unfolding l n atoi_24 .
qed



lemma no_stop_simps [simp]:
  "no_stop (Call c a)" "no_stop (Warn m)" "\<not> no_stop (Err m)" "\<not> no_stop (Fault m)"
  by (simp_all add: no_stop_def)

lemma rt_write_events:
  "\<exists>X. events (snd (rt_write buf w)) = events w @ X \<and>
       (written X = [] \<or> written X = [buf]) \<and>
       (fst (rt_write buf w) = 0 \<longrightarrow> written X = [buf]) \<and>
       [c \<leftarrow> calls_of X. c = Getpid] = [] \<and>
       list_all no_stop X"
  by (simp add: rt_write_def extern_def lxi_warn_def Let_def)

lemma rt_dst_mask_None: "rt_dst_mask P None pl = Some (route_sins 0 0 0)"
  by (simp add: rt_dst_mask_def route_sins_def zero_sin_def)

lemma rt_dst_mask_Some:
  "inet_pton P d = Some a \<Longrightarrow> 0 \<le> pl \<Longrightarrow> pl \<le> 32 \<Longrightarrow>
     rt_dst_mask P (Some d) pl = Some (route_sins a 0 (cidr_mask (nat pl)))"
  by (simp add: rt_dst_mask_def route_sins_def zero_sin_def plen2mask_def)

lemma gateway_eq_None:
  assumes "rt_dst_mask P dn pl = Some (route_sins a 0 mk)" and "inet_pton P g = Some ga"
  shows "lxi_iface_gateway P None dn pl (Some g) w =
     Inr (rt_write \<lparr>rtm = route_hdr P (answers w (clock w)) 0, sins = route_sins a ga mk\<rparr>
            (snd (extern Getpid w)))"
  using assms
  by (simp add: lxi_iface_gateway_def Let_def extern_def route_sins_def route_hdr_def zero_rtm_def)

lemma gateway_eq_Some:
  assumes "rt_dst_mask P dn pl = Some (route_sins a 0 mk)" and "inet_pton P g = Some ga"
  shows "lxi_iface_gateway P (Some i) dn pl (Some g) w =
     (if answers w (Suc (clock w)) = 0
      then Inr (- 1, lxi_warn ''unable to get interface index for %s: %s''
                  (snd (extern (If_nametoindex i) (snd (extern Getpid w)))))
      else Inr (rt_write \<lparr>rtm = route_hdr P (answers w (clock w)) (answers w (Suc (clock w))),
                           sins = route_sins a ga mk\<rparr>
                  (snd (extern (If_nametoindex i) (snd (extern Getpid w))))))"
  using assms
  by (simp add: lxi_iface_gateway_def Let_def extern_def route_sins_def route_hdr_def zero_rtm_def)

lemma next_hop_add_route_hdr [simp]: "next_hop_add \<lparr>rtm = route_hdr P pid idx, sins = ss\<rparr>"
  by (simp add: next_hop_add_def route_hdr_def)

lemma grows_append: "events w' = events w @ X \<Longrightarrow> grows w w'"
  by (simp add: grows_def)

lemma grows_refl [simp]: "grows w w"
  by (simp add: grows_def)

lemma grows_trans: "grows w w1 \<Longrightarrow> grows w1 w2 \<Longrightarrow> grows w w2"
  by (auto simp: grows_def)

lemma news_trans: "grows w w1 \<Longrightarrow> grows w1 w2 \<Longrightarrow> news w w2 = news w w1 @ news w1 w2"
  by (auto simp: grows_def news_def prefix_def)

lemma news_same_events: "events w1 = events w \<Longrightarrow> news w w' = news w1 w'"
  by (simp add: news_def)

lemma world_of_simps [simp]: "world_of (Inl w) = w" "world_of (Inr p) = snd p"
  by (simp_all add: world_of_def split_def)

lemma value_of_simps [simp]: "value_of (Inl w) = None" "value_of (Inr p) = Some (fst p)"
  by (simp_all add: value_of_def split_def)

lemma gateway_written:
  assumes m: "rt_dst_mask P dn pl = Some (route_sins a 0 mk)" and g: "inet_pton P g = Some ga"
  shows "value_of (lxi_iface_gateway P iface dn pl (Some g) w) \<noteq> None \<and>
       grows w (world_of (lxi_iface_gateway P iface dn pl (Some g) w)) \<and>
       (map sins (written (news w (world_of (lxi_iface_gateway P iface dn pl (Some g) w)))) = [] \<or>
        map sins (written (news w (world_of (lxi_iface_gateway P iface dn pl (Some g) w)))) =
          [route_sins a ga mk]) \<and>
       (value_of (lxi_iface_gateway P iface dn pl (Some g) w) = Some 0 \<longrightarrow>
        map sins (written (news w (world_of (lxi_iface_gateway P iface dn pl (Some g) w)))) =
          [route_sins a ga mk]) \<and>
       list_all next_hop_add
         (written (news w (world_of (lxi_iface_gateway P iface dn pl (Some g) w)))) \<and>
       [c \<leftarrow> calls_of (news w (world_of (lxi_iface_gateway P iface dn pl (Some g) w))).
          c = Getpid] = [Getpid] \<and>
       list_all no_stop (news w (world_of (lxi_iface_gateway P iface dn pl (Some g) w)))"
proof (cases iface)
  case None
  let ?buf = "\<lparr>rtm = route_hdr P (answers w (clock w)) 0, sins = route_sins a ga mk\<rparr>"
  let ?w1 = "snd (extern Getpid w)"
  let ?w' = "snd (rt_write ?buf ?w1)"
  obtain X where X: "events ?w' = events ?w1 @ X"
      "written X = [] \<or> written X = [?buf]" "fst (rt_write ?buf ?w1) = 0 \<longrightarrow> written X = [?buf]"
      "[c \<leftarrow> calls_of X. c = Getpid] = []" "list_all no_stop X"
    using rt_write_events by blast
  have e: "lxi_iface_gateway P iface dn pl (Some g) w = Inr (fst (rt_write ?buf ?w1), ?w')"
    using gateway_eq_None [OF m g] None by simp
  have ev: "events ?w' = events w @ (Call Getpid (answers w (clock w)) # X)"
    using X(1) by (simp add: extern_def)
  have n: "news w ?w' = Call Getpid (answers w (clock w)) # X"
    using ev by (rule news_append)
  have gr: "grows w ?w'"
    using ev by (rule grows_append)
  show ?thesis
    unfolding e using gr X(2-5) by (auto simp: n)
next
  case (Some i)
  let ?buf = "\<lparr>rtm = route_hdr P (answers w (clock w)) (answers w (Suc (clock w))),
               sins = route_sins a ga mk\<rparr>"
  let ?w1 = "snd (extern (If_nametoindex i) (snd (extern Getpid w)))"
  show ?thesis
  proof (cases "answers w (Suc (clock w)) = 0")
    case True
    let ?w' = "lxi_warn ''unable to get interface index for %s: %s'' ?w1"
    have e: "lxi_iface_gateway P iface dn pl (Some g) w = Inr (- 1, ?w')"
      using gateway_eq_Some [OF m g] Some True by simp
    have ev: "events ?w' =
        events w @ [Call Getpid (answers w (clock w)), Call (If_nametoindex i) (answers w (Suc (clock w))),
                    Warn ''unable to get interface index for %s: %s'']"
      by (simp add: extern_def lxi_warn_def)
    have n: "news w ?w' = [Call Getpid (answers w (clock w)), Call (If_nametoindex i) (answers w (Suc (clock w))),
                    Warn ''unable to get interface index for %s: %s'']"
      using ev by (rule news_append)
    have gr: "grows w ?w'"
      using ev by (rule grows_append)
    show ?thesis
      unfolding e using gr by (auto simp: n)
  next
    case False
    let ?w' = "snd (rt_write ?buf ?w1)"
    obtain X where X: "events ?w' = events ?w1 @ X"
        "written X = [] \<or> written X = [?buf]" "fst (rt_write ?buf ?w1) = 0 \<longrightarrow> written X = [?buf]"
        "[c \<leftarrow> calls_of X. c = Getpid] = []" "list_all no_stop X"
      using rt_write_events by blast
    have e: "lxi_iface_gateway P iface dn pl (Some g) w = Inr (fst (rt_write ?buf ?w1), ?w')"
      using gateway_eq_Some [OF m g] Some False by simp
    have ev: "events ?w' =
        events w @ (Call Getpid (answers w (clock w)) #
                    Call (If_nametoindex i) (answers w (Suc (clock w))) # X)"
      using X(1) by (simp add: extern_def)
    have n: "news w ?w' = Call Getpid (answers w (clock w)) #
                    Call (If_nametoindex i) (answers w (Suc (clock w))) # X"
      using ev by (rule news_append)
    have gr: "grows w ?w'"
      using ev by (rule grows_append)
    show ?thesis
      unfolding e using gr X(2-5) by (auto simp: n)
  qed
qed

lemma dotted_cidr:
  "dotted (cidr_mask 0) = [0, 0, 0, 0]"
  "dotted (cidr_mask 24) = [255, 255, 255, 0]"
  "dotted (cidr_mask 32) = [255, 255, 255, 255]"
  by (simp_all add: dotted_def cidr_mask_def mask_eq_exp_minus_1)

lemma bit_cidr_mask: "p \<le> 32 \<Longrightarrow> bit (cidr_mask p) n \<longleftrightarrow> 32 - p \<le> n \<and> n < 32"
  by (auto simp: cidr_mask_def bit_simps)

lemma q1: "dotted_quad ''10.77.77.2'' = Some 172838146"
  by (simp add: dotted_quad_def octet_of_def isdigit_def digits_val_def)

lemma grows_news: "grows w w' \<Longrightarrow> events w' = events w @ news w w'"
  by (auto simp: grows_def news_def prefix_def)

lemma rt_dst_mask_form:
  "rt_dst_mask P dn pl = Some ss \<Longrightarrow> \<exists>a mk. ss = route_sins a 0 mk"
  by (auto simp: rt_dst_mask_def route_sins_def zero_sin_def plen2mask_def Let_def
      split: option.splits if_splits)

lemma gateway_general:
  "grows w (world_of (lxi_iface_gateway P iface dn pl gwaddr w)) \<and>
   [c \<leftarrow> calls_of (news w (world_of (lxi_iface_gateway P iface dn pl gwaddr w))). c = Getpid] = [Getpid] \<and>
   length (written (news w (world_of (lxi_iface_gateway P iface dn pl gwaddr w)))) \<le> 1 \<and>
   list_all next_hop_add (written (news w (world_of (lxi_iface_gateway P iface dn pl gwaddr w))))"
proof -
  let ?r = "lxi_iface_gateway P iface dn pl gwaddr w"
  let ?pid = "answers w (clock w)"
  have short: ?thesis
    if ev: "events (world_of ?r) = events w @ [Call Getpid ?pid, m]"
      and wm: "written [m] = []" and cm: "calls_of [m] = []" for m
  proof -
    have n: "news w (world_of ?r) = [Call Getpid ?pid, m]" using ev by (rule news_append)
    have w2: "written [Call Getpid ?pid, m] = []"
      using wm by simp
    have c2: "calls_of [Call Getpid ?pid, m] = [Getpid]"
      using cm calls_of_simps(6) [of "[Call Getpid ?pid]" "[m]"] by simp
    show ?thesis
      using grows_append [OF ev] by (simp only: n w2 c2) simp
  qed
  show ?thesis
  proof (cases "rt_dst_mask P dn pl")
    case None
    have "events (world_of ?r) = events w @ [Call Getpid ?pid, Warn ''bad destination network %s/%d: %s'']"
      using None by (simp add: lxi_iface_gateway_def extern_def lxi_warn_def Let_def)
    then show ?thesis by (rule short) simp_all
  next
    case (Some ss)
    then obtain a mk where ss: "rt_dst_mask P dn pl = Some (route_sins a 0 mk)"
      using rt_dst_mask_form by blast
    show ?thesis
    proof (cases gwaddr)
      case None
      have "events (world_of ?r) = events w @ [Call Getpid ?pid, Fault ''inet_pton(AF_INET, NULL, &(gw_sin->sin_addr))'']"
        using None ss by (simp add: lxi_iface_gateway_def extern_def fault_def Let_def)
      then show ?thesis by (rule short) simp_all
    next
      case g: (Some g)
      show ?thesis
      proof (cases "inet_pton P g")
        case None
        have "events (world_of ?r) = events w @ [Call Getpid ?pid, Warn ''bad gateway %s: %s'']"
          using None ss g by (simp add: lxi_iface_gateway_def extern_def lxi_warn_def Let_def)
        then show ?thesis by (rule short) simp_all
      next
        case (Some ga)
        have "map sins (written (news w (world_of ?r))) = [] \<or>
              map sins (written (news w (world_of ?r))) = [route_sins a ga mk]"
          using gateway_written [OF ss Some, of iface w] g by simp
        then have "length (map sins (written (news w (world_of ?r)))) \<le> 1"
          by (metis length_Cons list.size(3) le_numeral_extra(4) One_nat_def zero_le)
        then have "length (written (news w (world_of ?r))) \<le> 1" by simp
        then show ?thesis
          using gateway_written [OF ss Some, of iface w] g by simp
      qed
    qed
  qed
qed

lemma sr_step_events:
  "sr_step c s w = Inr (s', w') \<Longrightarrow> events w' = events w"
  by (auto simp: sr_step_def custr_appendc_def alloc_def lxi_err_def Let_def split: if_splits)

lemma sr_loop_events:
  "sr_loop xs s w = Inr (s', w') \<Longrightarrow> events w' = events w"
proof (induction xs arbitrary: s w)
  case Nil
  then show ?case by simp
next
  case (Cons c xs)
  then show ?case
    by (auto split: sum.splits dest: sr_step_events)
qed

lemma static_route_unfold:
  assumes "heap_ok w (allocs w)"
    and "sr_loop line sr_init (w\<lparr>allocs := Suc (allocs w)\<rparr>) = Inr (s, w1)"
  shows "lxi_net_static_route P line w =
     static_route_result
       (lxi_iface_gateway P None (dst s) (pfx s) (gw s)
          (if cu s \<noteq> ''false'' then lxi_warn ''invalid static route: %s'' w1 else w1))"
  using assms by (simp add: lxi_net_static_route_def alloc_def static_route_result_def Let_def)

lemma static_route_result_news:
  assumes "grows w2 (world_of g)"
  shows "grows w2 (world_of (static_route_result g)) \<and>
    calls_of (news w2 (world_of (static_route_result g))) = calls_of (news w2 (world_of g)) \<and>
    written (news w2 (world_of (static_route_result g))) = written (news w2 (world_of g)) \<and>
    (value_of (static_route_result g) = Some () \<longrightarrow> value_of g = Some 0)"
proof (cases g)
  case (Inl e)
  then show ?thesis using assms by (simp add: static_route_result_def)
next
  case (Inr p)
  obtain rc w3 where p: "p = (rc, w3)" by (cases p)
  show ?thesis
  proof (cases "rc = 0")
    case True
    then show ?thesis using assms Inr p by (simp add: static_route_result_def)
  next
    case False
    have g3: "grows w2 w3" using assms Inr p by simp
    have ev: "events (world_of (static_route_result g)) = events w2 @ (news w2 w3 @ [Err ''failed to add route: %s/%d -> %s''])"
      using False Inr p grows_news [OF g3] by (simp add: static_route_result_def lxi_err_def)
    have n: "news w2 (world_of (static_route_result g)) = news w2 w3 @ [Err ''failed to add route: %s/%d -> %s'']"
      using ev by (rule news_append)
    have v: "value_of (static_route_result g) = None"
      using False Inr p by (simp add: static_route_result_def lxi_err_def)
    have wg: "world_of g = w3" using Inr p by simp
    show ?thesis
      using grows_append [OF ev] by (simp add: n v wg)
  qed
qed


lemma static_route_news:
  assumes h: "heap_ok w (allocs w)"
    and l: "sr_loop line sr_init (w\<lparr>allocs := Suc (allocs w)\<rparr>) = Inr (s, w1)"
    and f: "cu s = ''false''"
  shows "calls_of (news w (world_of (lxi_net_static_route P line w))) =
           calls_of (news w1 (world_of (lxi_iface_gateway P None (dst s) (pfx s) (gw s) w1))) \<and>
         written (news w (world_of (lxi_net_static_route P line w))) =
           written (news w1 (world_of (lxi_iface_gateway P None (dst s) (pfx s) (gw s) w1))) \<and>
         (value_of (lxi_net_static_route P line w) = Some () \<longrightarrow>
            value_of (lxi_iface_gateway P None (dst s) (pfx s) (gw s) w1) = Some 0)"
proof -
  let ?g = "lxi_iface_gateway P None (dst s) (pfx s) (gw s) w1"
  have u: "lxi_net_static_route P line w = static_route_result ?g"
    using static_route_unfold [OF h l, of P] f by simp
  have e: "events w1 = events w"
    using sr_loop_events [OF l] by simp
  have gr: "grows w1 (world_of ?g)"
    using gateway_general by blast
  have n: "news w (world_of (static_route_result ?g)) = news w1 (world_of (static_route_result ?g))"
    using e by (rule news_same_events)
  show ?thesis
    unfolding u n using static_route_result_news [OF gr] by simp
qed

lemma static_route_news_warn:
  assumes h: "heap_ok w (allocs w)"
    and l: "sr_loop line sr_init (w\<lparr>allocs := Suc (allocs w)\<rparr>) = Inr (s, w1)"
    and f: "cu s \<noteq> ''false''"
  shows "take 1 (news w (world_of (lxi_net_static_route P line w))) =
           [Warn ''invalid static route: %s''] \<and>
         calls_of (news w (world_of (lxi_net_static_route P line w))) =
           calls_of (news (lxi_warn ''invalid static route: %s'' w1)
             (world_of (lxi_iface_gateway P None (dst s) (pfx s) (gw s)
                (lxi_warn ''invalid static route: %s'' w1)))) \<and>
         written (news w (world_of (lxi_net_static_route P line w))) =
           written (news (lxi_warn ''invalid static route: %s'' w1)
             (world_of (lxi_iface_gateway P None (dst s) (pfx s) (gw s)
                (lxi_warn ''invalid static route: %s'' w1))))"
proof -
  let ?w2 = "lxi_warn ''invalid static route: %s'' w1"
  let ?g = "lxi_iface_gateway P None (dst s) (pfx s) (gw s) ?w2"
  have u: "lxi_net_static_route P line w = static_route_result ?g"
    using static_route_unfold [OF h l, of P] f by simp
  have e: "events ?w2 = events w @ [Warn ''invalid static route: %s'']"
    using sr_loop_events [OF l] by (simp add: lxi_warn_def)
  have g0: "grows w ?w2" using e by (rule grows_append)
  have n0: "news w ?w2 = [Warn ''invalid static route: %s'']" using e by (rule news_append)
  have gr: "grows ?w2 (world_of ?g)"
    using gateway_general by blast
  have gr2: "grows ?w2 (world_of (static_route_result ?g))"
    using static_route_result_news [OF gr] by simp
  have n: "news w (world_of (static_route_result ?g)) =
      [Warn ''invalid static route: %s''] @ news ?w2 (world_of (static_route_result ?g))"
    using news_trans [OF g0 gr2] n0 by simp
  show ?thesis
    unfolding u n using static_route_result_news [OF gr] by simp
qed

lemma route_lines_append:
  "route_lines P (xs @ ys) w =
     (case route_lines P xs w of Inl e \<Rightarrow> Inl e | Inr (u, w1) \<Rightarrow> route_lines P ys w1)"
  by (induction xs arbitrary: w) (auto split: sum.splits)

lemma route_lines_snoc:
  "route_lines P (ls @ [line]) w =
     (case route_lines P ls w of
        Inl e \<Rightarrow> Inl e
      | Inr (u, w1) \<Rightarrow> lxi_net_static_route P line w1)"
  by (induction ls arbitrary: w) (auto split: sum.splits)

lemma rt_dst_mask_Some_inv:
  assumes "rt_dst_mask P (Some d) pl = Some ss"
  shows "\<exists>a. inet_pton P d = Some a \<and> 0 \<le> pl \<and> pl \<le> 32 \<and>
             ss = route_sins a 0 (cidr_mask (nat pl))"
  using assms
  by (auto simp: rt_dst_mask_def route_sins_def zero_sin_def plen2mask_def Let_def
      split: option.splits if_splits)

lemma gateway_bad_dst:
  "rt_dst_mask P dn pl = None \<Longrightarrow>
     value_of (lxi_iface_gateway P iface dn pl gwaddr w) = Some (- 1)"
  by (simp add: lxi_iface_gateway_def Let_def split_def)

lemma gateway_bad_gw:
  "inet_pton P g = None \<Longrightarrow>
     value_of (lxi_iface_gateway P iface dn pl (Some g) w) \<noteq> Some 0"
  by (simp add: lxi_iface_gateway_def Let_def split_def split: option.splits)

lemma gateway_returns_0:
  assumes v: "value_of (lxi_iface_gateway P iface (Some d) pl (Some g) w) = Some 0"
  shows "\<exists>a ga. inet_pton P d = Some a \<and> inet_pton P g = Some ga \<and> 0 \<le> pl \<and> pl \<le> 32 \<and>
     map sins (written (news w (world_of (lxi_iface_gateway P iface (Some d) pl (Some g) w)))) =
       [route_sins a ga (cidr_mask (nat pl))]"
proof (cases "rt_dst_mask P (Some d) pl")
  case None
  then show ?thesis using v gateway_bad_dst [OF None, of iface "Some g" w] by simp
next
  case (Some ss)
  then obtain a where a: "inet_pton P d = Some a" "0 \<le> pl" "pl \<le> 32"
      and ss: "ss = route_sins a 0 (cidr_mask (nat pl))"
    using rt_dst_mask_Some_inv by blast
  have m: "rt_dst_mask P (Some d) pl = Some (route_sins a 0 (cidr_mask (nat pl)))"
    using Some ss by simp
  show ?thesis
  proof (cases "inet_pton P g")
    case None
    then show ?thesis using v gateway_bad_gw [OF None, of iface "Some d" pl w] by simp
  next
    case (Some ga)
    have wq: "map sins (written (news w (world_of (lxi_iface_gateway P iface (Some d) pl (Some g) w)))) =
       [route_sins a ga (cidr_mask (nat pl))]"
      using gateway_written [OF m Some, of iface w] v by blast
    show ?thesis
      by (rule exI [of _ a], rule exI [of _ ga]) (simp add: a Some wq)
  qed
qed

text \<open>
  C8. A line \<open>g|d/p|f\<close> whose fields hold no delimiter of their own, whose prefix
  \<^verbatim>\<open>atoi\<close> does not read as \<open>-1\<close> and whose last field \<open>f\<close> is not \<open>false\<close>,
  parsed while memory allocation succeeds: the function logs the one warning
  \<open>invalid static route\<close> first and then goes on exactly as it does for the line that
  ends in \<open>false\<close>. It calls \<^verbatim>\<open>lxi_iface_gateway\<close> once (the one \<^verbatim>\<open>getpid\<close>
  of the log), with destination \<open>d\<close>, prefix \<open>atoi p\<close> and gateway \<open>g\<close>; it writes
  at most one message, and every message written adds a static route through a gateway.
  When the function returns, \<^verbatim>\<open>inet_pton\<close> has read \<open>d\<close> and \<open>g\<close>, the prefix is
  from 0 to 32, and exactly one message was written: the one with destination \<open>d\<close>,
  gateway \<open>g\<close> and the netmask of the prefix.
\<close>

theorem static_route_flag_warns:
  assumes g: "CHR ''|'' \<notin> set g" and d: "CHR ''/'' \<notin> set d" and p: "CHR ''|'' \<notin> set p"
    and a: "atoi p \<noteq> - 1" and h: "\<forall>n. heap_ok w n" and f: "f \<noteq> ''false''"
  shows "lxi_net_static_route P (g @ ''|'' @ d @ ''/'' @ p @ ''|'' @ f) w =
      static_route_result
        (lxi_iface_gateway P None (Some d) (atoi p) (Some g)
          (lxi_warn ''invalid static route: %s''
            (w\<lparr>allocs := allocs w + (length g + length d + length p + length f + 3)\<rparr>))) \<and>
    take 1 (news w (world_of (lxi_net_static_route P (g @ ''|'' @ d @ ''/'' @ p @ ''|'' @ f) w))) =
      [Warn ''invalid static route: %s''] \<and>
    [c \<leftarrow> calls_of (news w (world_of
        (lxi_net_static_route P (g @ ''|'' @ d @ ''/'' @ p @ ''|'' @ f) w))). c = Getpid] = [Getpid] \<and>
    list_all next_hop_add (written (news w (world_of
        (lxi_net_static_route P (g @ ''|'' @ d @ ''/'' @ p @ ''|'' @ f) w)))) \<and>
    lxi_net_static_route P (g @ ''|'' @ d @ ''/'' @ p @ ''|'' @ ''false'') w =
      static_route_result
        (lxi_iface_gateway P None (Some d) (atoi p) (Some g)
          (w\<lparr>allocs := allocs w + (length g + length d + length p + 8)\<rparr>)) \<and>
    length (written (news w (world_of
        (lxi_net_static_route P (g @ ''|'' @ d @ ''/'' @ p @ ''|'' @ f) w)))) \<le> 1 \<and>
    (value_of (lxi_net_static_route P (g @ ''|'' @ d @ ''/'' @ p @ ''|'' @ f) w) = Some () \<longrightarrow>
      (\<exists>da ga. inet_pton P d = Some da \<and> inet_pton P g = Some ga \<and>
         0 \<le> atoi p \<and> atoi p \<le> 32 \<and>
         map sins (written (news w (world_of
           (lxi_net_static_route P (g @ ''|'' @ d @ ''/'' @ p @ ''|'' @ f) w)))) =
           [route_sins da ga (cidr_mask (nat (atoi p)))]))"
proof -
  let ?line = "g @ ''|'' @ d @ ''/'' @ p @ ''|'' @ f"
  let ?s = "\<lparr>cu = f, gw = Some g, dst = Some d, pfx = atoi p\<rparr>"
  let ?w1 = "w\<lparr>allocs := allocs w + (length g + length d + length p + length f + 3)\<rparr>"
  let ?w2 = "lxi_warn ''invalid static route: %s'' ?w1"
  let ?G = "lxi_iface_gateway P None (Some d) (atoi p) (Some g) ?w2"
  have h0: "heap_ok w (allocs w)" using h by simp
  have h1: "\<forall>n. heap_ok (w\<lparr>allocs := Suc (allocs w)\<rparr>) n" using h by simp
  have l: "sr_loop ?line sr_init (w\<lparr>allocs := Suc (allocs w)\<rparr>) = Inr (?s, ?w1)"
    using sr_loop_line [OF g d p a h1, of f] by simp
  have l2: "sr_loop (g @ ''|'' @ d @ ''/'' @ p @ ''|'' @ ''false'') sr_init (w\<lparr>allocs := Suc (allocs w)\<rparr>) =
      Inr (\<lparr>cu = ''false'', gw = Some g, dst = Some d, pfx = atoi p\<rparr>,
           w\<lparr>allocs := allocs w + (length g + length d + length p + 8)\<rparr>)"
    using sr_loop_line [OF g d p a h1, of "''false''"] by simp
  have cf: "cu ?s \<noteq> ''false''" using f by simp
  have 1: "lxi_net_static_route P ?line w = static_route_result ?G"
    using static_route_unfold [OF h0 l, of P] f by simp
  have 5: "lxi_net_static_route P (g @ ''|'' @ d @ ''/'' @ p @ ''|'' @ ''false'') w =
      static_route_result
        (lxi_iface_gateway P None (Some d) (atoi p) (Some g)
          (w\<lparr>allocs := allocs w + (length g + length d + length p + 8)\<rparr>))"
    using static_route_unfold [OF h0 l2, of P] by simp
  note sw = static_route_news_warn [OF h0 l cf, of P]
  note gg = gateway_general [of ?w2 P None "Some d" "atoi p" "Some g"]
  have wr: "written (news w (world_of (lxi_net_static_route P ?line w))) =
            written (news ?w2 (world_of ?G))"
    using sw by simp
  have 2: "take 1 (news w (world_of (lxi_net_static_route P ?line w))) = [Warn ''invalid static route: %s'']"
    using sw by blast
  have 3: "[c \<leftarrow> calls_of (news w (world_of (lxi_net_static_route P ?line w))). c = Getpid] = [Getpid]"
    using sw gg by simp
  have 4: "list_all next_hop_add (written (news w (world_of (lxi_net_static_route P ?line w))))"
    using sw gg by simp
  have 6: "length (written (news w (world_of (lxi_net_static_route P ?line w)))) \<le> 1"
    unfolding wr using gg by blast
  have 7: "value_of (lxi_net_static_route P ?line w) = Some () \<longrightarrow>
      (\<exists>da ga. inet_pton P d = Some da \<and> inet_pton P g = Some ga \<and>
         0 \<le> atoi p \<and> atoi p \<le> 32 \<and>
         map sins (written (news w (world_of (lxi_net_static_route P ?line w)))) =
           [route_sins da ga (cidr_mask (nat (atoi p)))])"
  proof
    assume v: "value_of (lxi_net_static_route P ?line w) = Some ()"
    have "value_of (static_route_result ?G) = Some ()"
      using v unfolding 1 .
    then have "value_of ?G = Some 0"
      using static_route_result_news [of ?w2 ?G] gg by blast
    then show "\<exists>da ga. inet_pton P d = Some da \<and> inet_pton P g = Some ga \<and>
         0 \<le> atoi p \<and> atoi p \<le> 32 \<and>
         map sins (written (news w (world_of (lxi_net_static_route P ?line w)))) =
           [route_sins da ga (cidr_mask (nat (atoi p)))]"
      unfolding wr by (rule gateway_returns_0)
  qed
  show ?thesis
    using 1 2 3 4 5 6 7 by (intro conjI)
qed

lemma q2: "dotted_quad ''10.1.1.0'' = Some 167837952"
  by (simp add: dotted_quad_def octet_of_def isdigit_def digits_val_def)

lemma ref_pton [simp]:
  "inet_pton ref_platform ''10.77.77.2'' = Some 172838146"
  "inet_pton ref_platform ''10.1.1.0'' = Some 167837952"
  by (simp_all add: ref_platform_def q1 q2)

lemma route_ok_world_simps [simp]:
  "heap_ok route_ok_world n" "events route_ok_world = []" "clock route_ok_world = 0"
  "answers route_ok_world n = (if n = 2 then 124 else 0)"
  by (simp_all add: route_ok_world_def world_answering_def quiet_world_def)

lemma cidr_24: "cidr_mask 24 = 4294967040"
  by (simp add: cidr_mask_def mask_eq_exp_minus_1)

lemma gateway_ok_value:
  assumes m: "rt_dst_mask ref_platform dn pl = Some (route_sins a 0 mk)"
    and g: "inet_pton ref_platform g = Some ga"
    and "clock w = 0" and "answers w = (\<lambda>n. if n = 2 then 124 else 0)"
  shows "value_of (lxi_iface_gateway ref_platform None dn pl (Some g) w) = Some 0"
  unfolding gateway_eq_None [OF m g]
  using assms(3,4)
  by (simp add: rt_write_def extern_def lxi_warn_def Let_def route_hdr_def ref_platform_def)

lemma gateway_sample_value:
  assumes "clock w = 0" and "answers w = (\<lambda>n. if n = 2 then 124 else 0)"
  shows "value_of (lxi_iface_gateway ref_platform None (Some ''10.1.1.0'') 24 (Some ''10.77.77.2'') w) = Some 0"
proof -
  have m: "rt_dst_mask ref_platform (Some ''10.1.1.0'') 24 = Some (route_sins 167837952 0 (cidr_mask (nat 24)))"
    by (rule rt_dst_mask_Some) simp_all
  show ?thesis
    using m ref_pton(1) assms by (rule gateway_ok_value)
qed

lemma static_route_result_ok: "value_of g = Some 0 \<Longrightarrow> value_of (static_route_result g) = Some ()"
  by (auto simp: static_route_result_def value_of_def split: sum.splits)

theorem static_route_flag_warns_witness:
  "take 1 (news route_ok_world (world_of
      (lxi_net_static_route ref_platform ''10.77.77.2|10.1.1.0/24|true'' route_ok_world))) =
     [Warn ''invalid static route: %s''] \<and>
   [c \<leftarrow> calls_of (news route_ok_world (world_of
      (lxi_net_static_route ref_platform ''10.77.77.2|10.1.1.0/24|true'' route_ok_world))).
      c = Getpid] = [Getpid] \<and>
   value_of (lxi_net_static_route ref_platform ''10.77.77.2|10.1.1.0/24|true'' route_ok_world) =
     Some () \<and>
   map sins (written (news route_ok_world (world_of
      (lxi_net_static_route ref_platform ''10.77.77.2|10.1.1.0/24|true'' route_ok_world)))) =
     [route_sins 167837952 172838146 4294967040] \<and>
   map dotted [167837952, 172838146, 4294967040] =
     [[10, 1, 1, 0], [10, 77, 77, 2], [255, 255, 255, 0]]"
proof -
  have l: "''10.77.77.2|10.1.1.0/24|true'' =
             ''10.77.77.2'' @ ''|'' @ ''10.1.1.0'' @ ''/'' @ ''24'' @ ''|'' @ ''true''"
    by simp
  have h1: "CHR ''|'' \<notin> set ''10.77.77.2''" by simp
  have h2: "CHR ''/'' \<notin> set ''10.1.1.0''" by simp
  have h3: "CHR ''|'' \<notin> set ''24''" by simp
  have h4: "atoi ''24'' \<noteq> - 1" by (simp add: atoi_24)
  have h5: "\<forall>n. heap_ok route_ok_world n" by simp
  have h6: "''true'' \<noteq> ''false''" by simp
  note t = static_route_flag_warns [OF h1 h2 h3 h4 h5 h6, of ref_platform, folded l]
  note t1 = t [THEN conjunct1]
  note t2 = t [THEN conjunct2, THEN conjunct1]
  note t3 = t [THEN conjunct2, THEN conjunct2, THEN conjunct1]
  note t7 = t [THEN conjunct2, THEN conjunct2, THEN conjunct2, THEN conjunct2, THEN conjunct2,
               THEN conjunct2]
  have v: "value_of (lxi_iface_gateway ref_platform None (Some ''10.1.1.0'') (atoi ''24'') (Some ''10.77.77.2'')
          (lxi_warn ''invalid static route: %s''
            (route_ok_world\<lparr>allocs := allocs route_ok_world +
               (length ''10.77.77.2'' + length ''10.1.1.0'' + length ''24'' + length ''true'' + 3)\<rparr>))) = Some 0"
    unfolding atoi_24
    by (rule gateway_sample_value) (simp_all add: lxi_warn_def fun_eq_iff)
  have t4: "value_of (lxi_net_static_route ref_platform ''10.77.77.2|10.1.1.0/24|true'' route_ok_world) =
     Some ()"
    unfolding t1 using v by (rule static_route_result_ok)
  have t5: "map sins (written (news route_ok_world (world_of
      (lxi_net_static_route ref_platform ''10.77.77.2|10.1.1.0/24|true'' route_ok_world)))) =
     [route_sins 167837952 172838146 4294967040]"
    using t7 t4 by (simp add: atoi_24 cidr_24)
  have t6: "map dotted [167837952, 172838146, 4294967040 :: 32 word] =
     [[10, 1, 1, 0], [10, 77, 77, 2], [255, 255, 255, 0]]"
    by (simp add: dotted_def)
  show ?thesis
    using t2 t3 t4 t5 t6 by (intro conjI)
qed

text \<open>
  C5. The line \<open>10.77.77.2|10.1.1.0/24|false\<close>, parsed in any world where memory
  allocation succeeds, on a platform whose \<^verbatim>\<open>inet_pton\<close> reads the two addresses:
  the function is one call of \<^verbatim>\<open>lxi_iface_gateway\<close> with destination
  \<open>10.1.1.0\<close>, prefix 24 and gateway \<open>10.77.77.2\<close> (the log has one \<^verbatim>\<open>getpid\<close>,
  the first call of every invocation); at most one message is written, exactly
  one when the function returns, with destination, gateway and the netmask
  255.255.255.0 in this order. A line that follows other lines is parsed by the same
  function from its initial state: nothing of the earlier lines but the world is passed on.
\<close>

theorem static_route_sample:
  assumes h: "\<forall>n. heap_ok w n"
    and ga: "inet_pton P ''10.77.77.2'' = Some ga"
    and a: "inet_pton P ''10.1.1.0'' = Some a"
  shows "lxi_net_static_route P ''10.77.77.2|10.1.1.0/24|false'' w =
      static_route_result
        (lxi_iface_gateway P None (Some ''10.1.1.0'') 24 (Some ''10.77.77.2'')
          (w\<lparr>allocs := allocs w + 28\<rparr>)) \<and>
    [c \<leftarrow> calls_of (news w (world_of
        (lxi_net_static_route P ''10.77.77.2|10.1.1.0/24|false'' w))). c = Getpid] = [Getpid] \<and>
    (map sins (written (news w (world_of
        (lxi_net_static_route P ''10.77.77.2|10.1.1.0/24|false'' w)))) = [] \<or>
     map sins (written (news w (world_of
        (lxi_net_static_route P ''10.77.77.2|10.1.1.0/24|false'' w)))) =
       [route_sins a ga (cidr_mask 24)]) \<and>
    (value_of (lxi_net_static_route P ''10.77.77.2|10.1.1.0/24|false'' w) = Some () \<longrightarrow>
     map sins (written (news w (world_of
        (lxi_net_static_route P ''10.77.77.2|10.1.1.0/24|false'' w)))) =
       [route_sins a ga (cidr_mask 24)]) \<and>
    dotted (cidr_mask 24) = [255, 255, 255, 0] \<and>
    route_lines P (ls @ [''10.77.77.2|10.1.1.0/24|false'']) w0 =
      (case route_lines P ls w0 of
         Inl e \<Rightarrow> Inl e
       | Inr (u, w1) \<Rightarrow> lxi_net_static_route P ''10.77.77.2|10.1.1.0/24|false'' w1)"
proof -
  let ?line = "''10.77.77.2|10.1.1.0/24|false''"
  let ?s = "\<lparr>cu = ''false'', gw = Some ''10.77.77.2'', dst = Some ''10.1.1.0'', pfx = 24\<rparr>"
  let ?w1 = "w\<lparr>allocs := allocs w + 28\<rparr>"
  let ?g = "lxi_iface_gateway P None (Some ''10.1.1.0'') 24 (Some ''10.77.77.2'') ?w1"
  have h0: "heap_ok w (allocs w)" using h by simp
  have h1: "\<forall>n. heap_ok (w\<lparr>allocs := Suc (allocs w)\<rparr>) n" using h by simp
  have l: "sr_loop ?line sr_init (w\<lparr>allocs := Suc (allocs w)\<rparr>) = Inr (?s, ?w1)"
    using sr_loop_sample [OF h1] by simp
  have cf: "cu ?s = ''false''" by simp
  have 1: "lxi_net_static_route P ?line w = static_route_result ?g"
    using static_route_unfold [OF h0 l, of P] by simp
  have sn: "calls_of (news w (world_of (lxi_net_static_route P ?line w))) =
              calls_of (news ?w1 (world_of ?g)) \<and>
            written (news w (world_of (lxi_net_static_route P ?line w))) =
              written (news ?w1 (world_of ?g)) \<and>
            (value_of (lxi_net_static_route P ?line w) = Some () \<longrightarrow> value_of ?g = Some 0)"
    using static_route_news [OF h0 l cf, of P] by simp
  have m: "rt_dst_mask P (Some ''10.1.1.0'') 24 = Some (route_sins a 0 (cidr_mask (nat 24)))"
    using a by (rule rt_dst_mask_Some) simp_all
  note gw = gateway_written [OF m ga, of None ?w1]
  have 2: "[c \<leftarrow> calls_of (news w (world_of (lxi_net_static_route P ?line w))). c = Getpid] = [Getpid]"
    using sn gw by simp
  have 3: "map sins (written (news w (world_of (lxi_net_static_route P ?line w)))) = [] \<or>
     map sins (written (news w (world_of (lxi_net_static_route P ?line w)))) =
       [route_sins a ga (cidr_mask 24)]"
    using sn gw by simp
  have 4: "value_of (lxi_net_static_route P ?line w) = Some () \<longrightarrow>
     map sins (written (news w (world_of (lxi_net_static_route P ?line w)))) =
       [route_sins a ga (cidr_mask 24)]"
    using sn gw by simp
  have 5: "dotted (cidr_mask 24) = [255, 255, 255, 0]"
    by (rule dotted_cidr)
  have 6: "route_lines P (ls @ [?line]) w0 =
      (case route_lines P ls w0 of
         Inl e \<Rightarrow> Inl e
       | Inr (u, w1) \<Rightarrow> lxi_net_static_route P ?line w1)"
    by (rule route_lines_snoc)
  show ?thesis
    using 1 2 3 4 5 6 by (intro conjI)
qed

theorem static_route_sample_witness:
  "value_of (lxi_net_static_route ref_platform ''10.77.77.2|10.1.1.0/24|false'' route_ok_world) =
     Some () \<and>
   map sins (written (news route_ok_world (world_of
     (lxi_net_static_route ref_platform ''10.77.77.2|10.1.1.0/24|false'' route_ok_world)))) =
     [route_sins 167837952 172838146 4294967040] \<and>
   dotted 167837952 = [10, 1, 1, 0] \<and> dotted 172838146 = [10, 77, 77, 2] \<and>
   dotted 4294967040 = [255, 255, 255, 0]"
proof -
  have h: "\<forall>n. heap_ok route_ok_world n" by simp
  note t = static_route_sample [OF h ref_pton(1) ref_pton(2)]
  note t1 = t [THEN conjunct1]
  note t4 = t [THEN conjunct2, THEN conjunct2, THEN conjunct2, THEN conjunct1]
  have v: "value_of (lxi_iface_gateway ref_platform None (Some ''10.1.1.0'') 24 (Some ''10.77.77.2'')
          (route_ok_world\<lparr>allocs := allocs route_ok_world + 28\<rparr>)) = Some 0"
    by (rule gateway_sample_value) (simp_all add: fun_eq_iff)
  have a: "value_of (lxi_net_static_route ref_platform ''10.77.77.2|10.1.1.0/24|false'' route_ok_world) =
     Some ()"
    unfolding t1 using v by (rule static_route_result_ok)
  have b: "map sins (written (news route_ok_world (world_of
     (lxi_net_static_route ref_platform ''10.77.77.2|10.1.1.0/24|false'' route_ok_world)))) =
     [route_sins 167837952 172838146 4294967040]"
    using t4 a by (simp add: cidr_24)
  have c: "dotted 167837952 = [10, 1, 1, 0]" "dotted 172838146 = [10, 77, 77, 2]"
     "dotted 4294967040 = [255, 255, 255, 0]"
    by (simp_all add: dotted_def)
  show ?thesis
    using a b c by (intro conjI)
qed

lemma sr_loop_no_bar:
  assumes g: "CHR ''|'' \<notin> set g" and h: "\<forall>n. heap_ok w n"
  shows "sr_loop g sr_init w =
     Inr (\<lparr>cu = g, gw = None, dst = None, pfx = - 1\<rparr>, w\<lparr>allocs := allocs w + length g\<rparr>)"
proof -
  have ag: "list_all (appends sr_init) g"
    using g by (auto simp: list_all_iff appends_def sr_init_def)
  show ?thesis
    using sr_loop_collect [OF ag h] by (simp add: sr_init_def)
qed

lemma sr_loop_no_slash:
  assumes g: "CHR ''|'' \<notin> set g" and d: "CHR ''/'' \<notin> set d" and h: "\<forall>n. heap_ok w n"
  shows "sr_loop (g @ ''|'' @ d) sr_init w =
     Inr (\<lparr>cu = d, gw = Some g, dst = None, pfx = - 1\<rparr>,
          w\<lparr>allocs := allocs w + (length g + length d + 1)\<rparr>)"
proof -
  let ?s1 = "\<lparr>cu = g, gw = None, dst = None, pfx = - 1\<rparr>"
  let ?s2 = "\<lparr>cu = [], gw = Some g, dst = None, pfx = - 1\<rparr>"
  let ?w1 = "w\<lparr>allocs := allocs w + length g\<rparr>"
  let ?w2 = "w\<lparr>allocs := allocs w + length g + 1\<rparr>"
  have ag: "list_all (appends sr_init) g"
    using g by (auto simp: list_all_iff appends_def sr_init_def)
  have ad: "list_all (appends ?s2) d"
    using d by (auto simp: list_all_iff appends_def)
  have 1: "sr_loop (g @ ''|'' @ d) sr_init w = sr_loop (''|'' @ d) ?s1 ?w1"
    using sr_loop_seg [OF ag h] by (simp add: sr_init_def)
  have 2: "sr_loop (''|'' @ d) ?s1 ?w1 = sr_loop d ?s2 ?w2"
    using h by (simp add: sr_step_def alloc_def)
  have 3: "sr_loop d ?s2 ?w2 =
     Inr (\<lparr>cu = d, gw = Some g, dst = None, pfx = - 1\<rparr>,
          w\<lparr>allocs := allocs w + (length g + length d + 1)\<rparr>)"
    using sr_loop_collect [OF ad, of ?w2] h by (simp add: add_ac)
  show ?thesis
    by (simp only: 1 2 3)
qed

lemma route_hdr_msglen [simp]: "rtm_msglen (route_hdr P pid idx) = word_of_nat (RTMBUFSZ P)"
  by (simp add: route_hdr_def)

lemma ref_platform_simps [simp]:
  "LIFNAMSIZ ref_platform = 32" "IPADM_AOBJSIZ ref_platform = 64" "MAXNAMELEN ref_platform = 256"
  "RTMBUFSZ ref_platform = 124" "RTM_VERSION ref_platform = 3" "IPADM_IF_EXISTS ref_platform = 10"
  by (simp_all add: ref_platform_def)

text \<open>
  C3 does not hold of the code. On the reference platform, in a world where every call
  succeeds: the line \<open>10.77.77.2\<close>, which has no delimiter at all, is not rejected;
  after the warning about the flag the function calls \<^verbatim>\<open>lxi_iface_gateway\<close> with a
  NULL gateway, which \<^verbatim>\<open>inet_pton\<close> reads through. The line
  \<open>10.77.77.2|10.1.1.0\<close>, which has no \<open>/\<close> and no second \<open>|\<close>, is not rejected
  either: after the same warning the function returns normally, having written a
  routing message with destination 0.0.0.0 and netmask 0.0.0.0, the default route
  through 10.77.77.2.
\<close>

theorem static_route_missing_delimiter:
  "events (world_of (lxi_net_static_route ref_platform ''10.77.77.2'' route_ok_world)) =
     [Warn ''invalid static route: %s'', Call Getpid 0,
      Fault ''inet_pton(AF_INET, NULL, &(gw_sin->sin_addr))''] \<and>
   value_of (lxi_net_static_route ref_platform ''10.77.77.2|10.1.1.0'' route_ok_world) = Some () \<and>
   events (world_of (lxi_net_static_route ref_platform ''10.77.77.2|10.1.1.0'' route_ok_world)) =
     [Warn ''invalid static route: %s'', Call Getpid 0, Call Socket_PF_ROUTE 0,
      Call (Write_rtmsg \<lparr>rtm = route_hdr ref_platform 0 0, sins = route_sins 0 172838146 0\<rparr>) 124,
      Call Close 0] \<and>
   dotted 172838146 = [10, 77, 77, 2]"
proof -
  let ?W = "route_ok_world\<lparr>allocs := Suc (allocs route_ok_world)\<rparr>"
  have h0: "heap_ok route_ok_world (allocs route_ok_world)" by simp
  have h1: "\<forall>n. heap_ok ?W n" by simp
  have la: "sr_loop ''10.77.77.2'' sr_init ?W =
      Inr (\<lparr>cu = ''10.77.77.2'', gw = None, dst = None, pfx = - 1\<rparr>,
           ?W\<lparr>allocs := allocs ?W + length ''10.77.77.2''\<rparr>)"
    by (rule sr_loop_no_bar [OF _ h1]) simp
  have lb0: "sr_loop (''10.77.77.2'' @ ''|'' @ ''10.1.1.0'') sr_init ?W =
      Inr (\<lparr>cu = ''10.1.1.0'', gw = Some ''10.77.77.2'', dst = None, pfx = - 1\<rparr>,
           ?W\<lparr>allocs := allocs ?W + (length ''10.77.77.2'' + length ''10.1.1.0'' + 1)\<rparr>)"
    by (rule sr_loop_no_slash [OF _ _ h1]) simp_all
  have e: "''10.77.77.2|10.1.1.0'' = ''10.77.77.2'' @ ''|'' @ ''10.1.1.0''" by simp
  note lb = lb0 [folded e]
  have a: "events (world_of (lxi_net_static_route ref_platform ''10.77.77.2'' route_ok_world)) =
     [Warn ''invalid static route: %s'', Call Getpid 0,
      Fault ''inet_pton(AF_INET, NULL, &(gw_sin->sin_addr))'']"
    unfolding static_route_unfold [OF h0 la]
    by (simp add: static_route_result_def lxi_iface_gateway_def rt_dst_mask_None extern_def
        lxi_warn_def fault_def Let_def)
  have m: "rt_dst_mask ref_platform None (- 1) = Some (route_sins 0 0 0)"
    by (rule rt_dst_mask_None)
  have b: "value_of (lxi_net_static_route ref_platform ''10.77.77.2|10.1.1.0'' route_ok_world) = Some ()"
    unfolding static_route_unfold [OF h0 lb]
    by (simp add: gateway_eq_None [OF m ref_pton(1)] static_route_result_def rt_write_def
        extern_def lxi_warn_def Let_def)
  have c: "events (world_of (lxi_net_static_route ref_platform ''10.77.77.2|10.1.1.0'' route_ok_world)) =
     [Warn ''invalid static route: %s'', Call Getpid 0, Call Socket_PF_ROUTE 0,
      Call (Write_rtmsg \<lparr>rtm = route_hdr ref_platform 0 0, sins = route_sins 0 172838146 0\<rparr>) 124,
      Call Close 0]"
    unfolding static_route_unfold [OF h0 lb]
    by (simp add: gateway_eq_None [OF m ref_pton(1)] static_route_result_def rt_write_def
        extern_def lxi_warn_def Let_def)
  have d: "dotted 172838146 = [10, 77, 77, 2]"
    by (simp add: dotted_def)
  show ?thesis
    using a b c d by (intro conjI)
qed


text \<open>
  C4, as the code has it. With a gateway that \<^verbatim>\<open>inet_pton\<close> reads, the encoder writes at most one
  message, and exactly one when it returns 0. Its three socket addresses are, in this
  order, the destination, the gateway and the netmask. Without a destination, the
  addresses of the destination and of the netmask are 0.0.0.0 (their family is
  \<open>AF_INET\<close>, their port 0). With a destination that \<^verbatim>\<open>inet_pton\<close> reads and a
  prefix length \<open>pl\<close> from 0 to 32, the destination is that address and the netmask is
  \<open>cidr_mask pl\<close>, whose set bits are the leading \<open>pl\<close> bits: 0.0.0.0 for 0,
  255.255.255.0 for 24 and 255.255.255.255 for 32.
\<close>

theorem route_message_records:
  assumes g: "inet_pton P g = Some ga"
  shows
   "(map sins (written (news w (world_of (lxi_iface_gateway P iface None pl (Some g) w)))) = [] \<or>
     map sins (written (news w (world_of (lxi_iface_gateway P iface None pl (Some g) w)))) =
       [route_sins 0 ga 0]) \<and>
    (value_of (lxi_iface_gateway P iface None pl (Some g) w) = Some 0 \<longrightarrow>
     map sins (written (news w (world_of (lxi_iface_gateway P iface None pl (Some g) w)))) =
       [route_sins 0 ga 0]) \<and>
    (inet_pton P d = Some a \<and> 0 \<le> pl \<and> pl \<le> 32 \<longrightarrow>
      (map sins (written (news w (world_of (lxi_iface_gateway P iface (Some d) pl (Some g) w)))) = [] \<or>
       map sins (written (news w (world_of (lxi_iface_gateway P iface (Some d) pl (Some g) w)))) =
         [route_sins a ga (cidr_mask (nat pl))]) \<and>
      (value_of (lxi_iface_gateway P iface (Some d) pl (Some g) w) = Some 0 \<longrightarrow>
       map sins (written (news w (world_of (lxi_iface_gateway P iface (Some d) pl (Some g) w)))) =
         [route_sins a ga (cidr_mask (nat pl))])) \<and>
    (\<forall>p n. p \<le> 32 \<longrightarrow> bit (cidr_mask p) n = (32 - p \<le> n \<and> n < 32)) \<and>
    dotted (cidr_mask 0) = [0, 0, 0, 0] \<and>
    dotted (cidr_mask 24) = [255, 255, 255, 0] \<and>
    dotted (cidr_mask 32) = [255, 255, 255, 255] \<and>
    route_sins x y z =
      [\<lparr>sin_family = AF_INET, sin_port = 0, sin_addr = x\<rparr>,
       \<lparr>sin_family = AF_UNSPEC, sin_port = 0, sin_addr = y\<rparr>,
       \<lparr>sin_family = AF_INET, sin_port = 0, sin_addr = z\<rparr>]"
proof -
  have m0: "rt_dst_mask P None pl = Some (route_sins 0 0 0)"
    by (rule rt_dst_mask_None)
  note g0 = gateway_written [OF m0 g, of iface w]
  have 1: "map sins (written (news w (world_of (lxi_iface_gateway P iface None pl (Some g) w)))) = [] \<or>
     map sins (written (news w (world_of (lxi_iface_gateway P iface None pl (Some g) w)))) =
       [route_sins 0 ga 0]"
    using g0 by blast
  have 2: "value_of (lxi_iface_gateway P iface None pl (Some g) w) = Some 0 \<longrightarrow>
     map sins (written (news w (world_of (lxi_iface_gateway P iface None pl (Some g) w)))) =
       [route_sins 0 ga 0]"
    using g0 by blast
  have 3: "inet_pton P d = Some a \<and> 0 \<le> pl \<and> pl \<le> 32 \<longrightarrow>
      (map sins (written (news w (world_of (lxi_iface_gateway P iface (Some d) pl (Some g) w)))) = [] \<or>
       map sins (written (news w (world_of (lxi_iface_gateway P iface (Some d) pl (Some g) w)))) =
         [route_sins a ga (cidr_mask (nat pl))]) \<and>
      (value_of (lxi_iface_gateway P iface (Some d) pl (Some g) w) = Some 0 \<longrightarrow>
       map sins (written (news w (world_of (lxi_iface_gateway P iface (Some d) pl (Some g) w)))) =
         [route_sins a ga (cidr_mask (nat pl))])"
  proof
    assume h: "inet_pton P d = Some a \<and> 0 \<le> pl \<and> pl \<le> 32"
    then have m1: "rt_dst_mask P (Some d) pl = Some (route_sins a 0 (cidr_mask (nat pl)))"
      by (simp add: rt_dst_mask_Some)
    note g1 = gateway_written [OF m1 g, of iface w]
    show "(map sins (written (news w (world_of (lxi_iface_gateway P iface (Some d) pl (Some g) w)))) = [] \<or>
       map sins (written (news w (world_of (lxi_iface_gateway P iface (Some d) pl (Some g) w)))) =
         [route_sins a ga (cidr_mask (nat pl))]) \<and>
      (value_of (lxi_iface_gateway P iface (Some d) pl (Some g) w) = Some 0 \<longrightarrow>
       map sins (written (news w (world_of (lxi_iface_gateway P iface (Some d) pl (Some g) w)))) =
         [route_sins a ga (cidr_mask (nat pl))])"
      using g1 by blast
  qed
  have 4: "\<forall>p n. p \<le> 32 \<longrightarrow> bit (cidr_mask p) n = (32 - p \<le> n \<and> n < 32)"
    using bit_cidr_mask by blast
  have 5: "route_sins x y z =
      [\<lparr>sin_family = AF_INET, sin_port = 0, sin_addr = x\<rparr>,
       \<lparr>sin_family = AF_UNSPEC, sin_port = 0, sin_addr = y\<rparr>,
       \<lparr>sin_family = AF_INET, sin_port = 0, sin_addr = z\<rparr>]"
    by (simp add: route_sins_def)
  show ?thesis
    using 1 2 3 4 dotted_cidr 5 by (intro conjI)
qed

theorem route_message_records_witness:
  "map sins (written (news route_ok_world (world_of
      (lxi_iface_gateway ref_platform None None 0 (Some ''10.77.77.2'') route_ok_world)))) =
     [route_sins 0 172838146 0] \<and>
   map sins (written (news route_ok_world (world_of
      (lxi_iface_gateway ref_platform None (Some ''10.1.1.0'') 24 (Some ''10.77.77.2'')
         route_ok_world)))) =
     [route_sins 167837952 172838146 4294967040] \<and>
   dotted 4294967040 = [255, 255, 255, 0]"
proof -
  note t = route_message_records [OF ref_pton(1), of route_ok_world None 24 "''10.1.1.0''" 167837952]
  note t0 = route_message_records [OF ref_pton(1), of route_ok_world None 0]
  note t2 = t0 [THEN conjunct2, THEN conjunct1]
  note t3 = t [THEN conjunct2, THEN conjunct2, THEN conjunct1]
  have m0: "rt_dst_mask ref_platform None 0 = Some (route_sins 0 0 0)"
    by (rule rt_dst_mask_None)
  have v0: "value_of (lxi_iface_gateway ref_platform None None 0 (Some ''10.77.77.2'') route_ok_world) = Some 0"
    using m0 ref_pton(1) by (rule gateway_ok_value) (simp_all add: fun_eq_iff)
  have v1: "value_of (lxi_iface_gateway ref_platform None (Some ''10.1.1.0'') 24 (Some ''10.77.77.2'') route_ok_world) = Some 0"
    by (rule gateway_sample_value) (simp_all add: fun_eq_iff)
  have a: "map sins (written (news route_ok_world (world_of
      (lxi_iface_gateway ref_platform None None 0 (Some ''10.77.77.2'') route_ok_world)))) =
     [route_sins 0 172838146 0]"
    using t2 v0 by blast
  have b: "map sins (written (news route_ok_world (world_of
      (lxi_iface_gateway ref_platform None (Some ''10.1.1.0'') 24 (Some ''10.77.77.2'')
         route_ok_world)))) =
     [route_sins 167837952 172838146 4294967040]"
    using t3 v1 by (simp add: cidr_24)
  have c: "dotted 4294967040 = [255, 255, 255, 0]"
    by (simp add: dotted_def)
  show ?thesis
    using a b c by (intro conjI)
qed

text \<open>
  C4 as the claim states it fails: without a destination, the records of the
  destination and of the netmask are not all-zero. On the reference platform, for the
  gateway 10.77.77.2, the one message written carries the address 0.0.0.0 and the port 0
  in both, under the family tag \<open>AF_INET\<close>, which the code sets before it looks at the
  destination; only the tag of the gateway record is left as \<^verbatim>\<open>bzero\<close> made it.
\<close>

theorem route_records_not_all_zero:
  "map sins (written (news route_ok_world (world_of
      (lxi_iface_gateway ref_platform None None 0 (Some ''10.77.77.2'') route_ok_world)))) =
     [[\<lparr>sin_family = AF_INET, sin_port = 0, sin_addr = 0\<rparr>,
       \<lparr>sin_family = AF_UNSPEC, sin_port = 0, sin_addr = 172838146\<rparr>,
       \<lparr>sin_family = AF_INET, sin_port = 0, sin_addr = 0\<rparr>]] \<and>
   \<lparr>sin_family = AF_INET, sin_port = 0, sin_addr = 0\<rparr> \<noteq> zero_sin \<and>
   zero_sin = \<lparr>sin_family = AF_UNSPEC, sin_port = 0, sin_addr = 0\<rparr>"
proof -
  have m0: "rt_dst_mask ref_platform None 0 = Some (route_sins 0 0 0)"
    by (rule rt_dst_mask_None)
  have v0: "value_of (lxi_iface_gateway ref_platform None None 0 (Some ''10.77.77.2'') route_ok_world) = Some 0"
    using m0 ref_pton(1) by (rule gateway_ok_value) (simp_all add: fun_eq_iff)
  have a: "map sins (written (news route_ok_world (world_of
      (lxi_iface_gateway ref_platform None None 0 (Some ''10.77.77.2'') route_ok_world)))) =
     [route_sins 0 172838146 0]"
    using gateway_written [OF m0 ref_pton(1), of None route_ok_world] v0 by blast
  show ?thesis
    unfolding a by (simp add: route_sins_def zero_sin_def)
qed

section \<open>Logical interfaces and address objects\<close>

lemma addif_calls_simps [simp]:
  "addif_calls [] = []"
  "addif_calls (e # es) = addif_of_event e @ addif_calls es"
  "addif_calls (xs @ ys) = addif_calls xs @ addif_calls ys"
  by (simp_all add: addif_calls_def)

lemma aobj_names_simps [simp]:
  "aobj_names [] = []"
  "aobj_names (e # es) = aobj_of_event e @ aobj_names es"
  "aobj_names (xs @ ys) = aobj_names xs @ aobj_names ys"
  by (simp_all add: aobj_names_def)

lemma strncpy_short [simp]: "length s \<le> n \<Longrightarrow> strncpy n s = s"
  by (simp add: strncpy_def)

lemma length_strncpy [simp]: "length (strncpy n s) \<le> n"
  by (simp add: strncpy_def)

lemma lifname_neq: "length base < n \<Longrightarrow> strncpy n (lifname base k) \<noteq> base"
proof
  assume l: "length base < n" and e: "strncpy n (lifname base k) = base"
  have "length (strncpy n (lifname base k)) = min (length base + 1 + length (dec_nat (nat k))) n"
    by (simp add: strncpy_def lifname_def)
  then have "length base = min (length base + 1 + length (dec_nat (nat k))) n"
    using e by simp
  with l show False by arith
qed

lemma getif_base:
  assumes "af = AF_INET" and "\<not> first"
  shows "grows w (snd (lxi_getif P af iface len first w)) \<and>
         addrnum (snd (lxi_getif P af iface len first w)) = addrnum w \<and>
         snd (fst (lxi_getif P af iface len first w)) = iface \<and>
         addif_calls (news w (snd (lxi_getif P af iface len first w))) = [] \<and>
         aobj_names (news w (snd (lxi_getif P af iface len first w))) = [] \<and>
         (fst (fst (lxi_getif P af iface len first w)) = 0 \<or>
          fst (fst (lxi_getif P af iface len first w)) = - 1)"
  using assms
  by (simp add: lxi_getif_def close_warn_def extern_def lxi_warn_def Let_def grows_def news_def
      addif_of_event_def aobj_of_event_def)

lemma getif_lif:
  assumes "af = AF_INET6 \<or> first"
  shows "grows w (snd (lxi_getif P af iface len first w)) \<and>
         addrnum (snd (lxi_getif P af iface len first w)) = addrnum w \<and>
         aobj_names (news w (snd (lxi_getif P af iface len first w))) = [] \<and>
         (fst (fst (lxi_getif P af iface len first w)) = - 1 \<or>
          fst (fst (lxi_getif P af iface len first w)) = 0 \<and>
          0 \<le> answers w (Suc (clock w)) \<and>
          addif_calls (news w (snd (lxi_getif P af iface len first w))) =
            [(strncpy (LIFNAMSIZ P) iface, answers w (Suc (clock w)))] \<and>
          snd (fst (lxi_getif P af iface len first w)) =
            strncpy len (lifname (strncpy (LIFNAMSIZ P) iface) (answers w (Suc (clock w)))))"
  using assms
  by (auto simp: lxi_getif_def close_warn_def extern_def lxi_warn_def Let_def grows_def news_def
      addif_of_event_def aobj_of_event_def)


lemma lxi_iface_ip_eq:
  "lxi_iface_ip P origiface addr first w =
     (if fst (fst (lxi_getif P (addr_af addr) (strncpy (LIFNAMSIZ P) origiface) (LIFNAMSIZ P) first w)) \<noteq> 0
      then ((- 1, first),
            lxi_warn ''failed to create new logical interface on %s: %s''
              (snd (lxi_getif P (addr_af addr) (strncpy (LIFNAMSIZ P) origiface) (LIFNAMSIZ P) first w)))
      else ip_apply P
             (snd (fst (lxi_getif P (addr_af addr) (strncpy (LIFNAMSIZ P) origiface) (LIFNAMSIZ P) first w)))
             addr (addr_af addr) first
             (snd (lxi_getif P (addr_af addr) (strncpy (LIFNAMSIZ P) origiface) (LIFNAMSIZ P) first w)))"
  by (simp add: lxi_iface_ip_def ip_apply_def addr_af_def Let_def split_def)

lemma ip_apply_facts:
  "grows w (snd (ip_apply P iface addr af first w)) \<and>
   addrnum (snd (ip_apply P iface addr af first w)) = addrnum w + 1 \<and>
   aobj_names (news w (snd (ip_apply P iface addr af first w))) = [aobjname_of P iface (addrnum w)] \<and>
   addif_calls (news w (snd (ip_apply P iface addr af first w))) = [] \<and>
   snd (fst (ip_apply P iface addr af first w)) =
     (first \<or> (af = AF_INET \<and> fst (fst (ip_apply P iface addr af first w)) = 0)) \<and>
   fst (fst (ip_apply P iface addr af first w)) \<le> 0"
  by (simp add: ip_apply_def destroy_addrobj_def extern_def lxi_warn_def Let_def grows_def news_def
      addif_of_event_def aobj_of_event_def)


lemma grows_warn: "grows w w1 \<Longrightarrow> grows w (lxi_warn m w1) \<and> news w (lxi_warn m w1) = news w w1 @ [Warn m]"
proof -
  assume g: "grows w w1"
  have e: "events (lxi_warn m w1) = events w @ (news w w1 @ [Warn m])"
    using grows_news [OF g] by (simp add: lxi_warn_def)
  show ?thesis
    using grows_append [OF e] news_append [OF e] by simp
qed

lemma getif_length:
  "length iface \<le> len \<Longrightarrow> length (snd (fst (lxi_getif P af iface len first w))) \<le> len"
  by (simp add: lxi_getif_def close_warn_def extern_def lxi_warn_def Let_def)

lemma getif_quiet:
  "grows w (snd (lxi_getif P af iface len first w)) \<and>
   addrnum (snd (lxi_getif P af iface len first w)) = addrnum w \<and>
   aobj_names (news w (snd (lxi_getif P af iface len first w))) = []"
  by (simp add: lxi_getif_def close_warn_def extern_def lxi_warn_def Let_def grows_def news_def
      aobj_of_event_def)

text \<open>The call of lxi_iface_ip in terms of its call of lxi_getif.\<close>

lemma iface_ip_fail:
  assumes "fst (fst (lxi_getif P (addr_af addr) (strncpy (LIFNAMSIZ P) base) (LIFNAMSIZ P) first w)) \<noteq> 0"
  shows "fst (lxi_iface_ip P base addr first w) = (- 1, first) \<and>
         grows w (snd (lxi_iface_ip P base addr first w)) \<and>
         addrnum (snd (lxi_iface_ip P base addr first w)) = addrnum w \<and>
         news w (snd (lxi_iface_ip P base addr first w)) =
           news w (snd (lxi_getif P (addr_af addr) (strncpy (LIFNAMSIZ P) base) (LIFNAMSIZ P) first w)) @
           [Warn ''failed to create new logical interface on %s: %s'']"
proof -
  let ?G = "lxi_getif P (addr_af addr) (strncpy (LIFNAMSIZ P) base) (LIFNAMSIZ P) first w"
  have e: "lxi_iface_ip P base addr first w =
      ((- 1, first), lxi_warn ''failed to create new logical interface on %s: %s'' (snd ?G))"
    using assms by (simp add: lxi_iface_ip_eq)
  have g: "grows w (snd ?G)" using getif_quiet by blast
  have a: "addrnum (snd ?G) = addrnum w" using getif_quiet by blast
  show ?thesis
    unfolding e using grows_warn [OF g] a by (simp add: lxi_warn_def)
qed

lemma iface_ip_ok:
  assumes "fst (fst (lxi_getif P (addr_af addr) (strncpy (LIFNAMSIZ P) base) (LIFNAMSIZ P) first w)) = 0"
  shows "grows w (snd (lxi_iface_ip P base addr first w)) \<and>
         addrnum (snd (lxi_iface_ip P base addr first w)) = addrnum w + 1 \<and>
         aobj_names (news w (snd (lxi_iface_ip P base addr first w))) =
           [aobjname_of P
              (snd (fst (lxi_getif P (addr_af addr) (strncpy (LIFNAMSIZ P) base) (LIFNAMSIZ P) first w)))
              (addrnum w)] \<and>
         addif_calls (news w (snd (lxi_iface_ip P base addr first w))) =
           addif_calls (news w (snd (lxi_getif P (addr_af addr) (strncpy (LIFNAMSIZ P) base) (LIFNAMSIZ P) first w))) \<and>
         snd (fst (lxi_iface_ip P base addr first w)) =
           (first \<or> (addr_af addr = AF_INET \<and> fst (fst (lxi_iface_ip P base addr first w)) = 0)) \<and>
         fst (fst (lxi_iface_ip P base addr first w)) \<le> 0"
proof -
  let ?G = "lxi_getif P (addr_af addr) (strncpy (LIFNAMSIZ P) base) (LIFNAMSIZ P) first w"
  let ?A = "ip_apply P (snd (fst ?G)) addr (addr_af addr) first (snd ?G)"
  have e: "lxi_iface_ip P base addr first w = ?A"
    using assms by (simp add: lxi_iface_ip_eq)
  have g: "grows w (snd ?G)" using getif_quiet by blast
  have a: "addrnum (snd ?G) = addrnum w" using getif_quiet by blast
  have n: "aobj_names (news w (snd ?G)) = []" using getif_quiet by blast
  note f = ip_apply_facts [of "snd ?G" P "snd (fst ?G)" addr "addr_af addr" first]
  have g2: "grows (snd ?G) (snd ?A)" using f by blast
  have nt: "news w (snd ?A) = news w (snd ?G) @ news (snd ?G) (snd ?A)"
    using g g2 by (rule news_trans)
  show ?thesis
    unfolding e nt using f grows_trans [OF g g2] a n by simp
qed

lemma iface_ip_base:
  assumes v4: "\<not> strstr_found addr '':''" and nf: "\<not> first" and L: "length base \<le> LIFNAMSIZ P"
  shows "grows w (snd (lxi_iface_ip P base addr first w)) \<and>
         addif_calls (news w (snd (lxi_iface_ip P base addr first w))) = [] \<and>
         (aobj_names (news w (snd (lxi_iface_ip P base addr first w))) = [] \<or>
          aobj_names (news w (snd (lxi_iface_ip P base addr first w))) =
            [aobjname_of P base (addrnum w)]) \<and>
         (fst (fst (lxi_iface_ip P base addr first w)) = 0 \<longrightarrow>
          aobj_names (news w (snd (lxi_iface_ip P base addr first w))) =
            [aobjname_of P base (addrnum w)])"
proof -
  let ?G = "lxi_getif P (addr_af addr) (strncpy (LIFNAMSIZ P) base) (LIFNAMSIZ P) first w"
  have af: "addr_af addr = AF_INET" using v4 by (simp add: addr_af_def)
  note gb = getif_base [OF af nf, of w P "strncpy (LIFNAMSIZ P) base" "LIFNAMSIZ P"]
  have nm: "snd (fst ?G) = base" using gb L by simp
  show ?thesis
  proof (cases "fst (fst ?G) = 0")
    case True
    show ?thesis
      using iface_ip_ok [OF True] gb nm by simp
  next
    case False
    have n: "aobj_names (news w (snd ?G)) = []" using getif_quiet by blast
    show ?thesis
      using iface_ip_fail [OF False] gb n by (simp add: aobj_of_event_def addif_of_event_def)
  qed
qed

lemma iface_ip_lif:
  assumes v6: "strstr_found addr '':'' \<or> first" and L: "length base < LIFNAMSIZ P"
  shows "grows w (snd (lxi_iface_ip P base addr first w)) \<and>
         (fst (fst (lxi_iface_ip P base addr first w)) = - 1 \<and>
          aobj_names (news w (snd (lxi_iface_ip P base addr first w))) = [] \<or>
          0 \<le> answers w (Suc (clock w)) \<and>
          addif_calls (news w (snd (lxi_iface_ip P base addr first w))) =
            [(base, answers w (Suc (clock w)))] \<and>
          aobj_names (news w (snd (lxi_iface_ip P base addr first w))) =
            [aobjname_of P (strncpy (LIFNAMSIZ P) (lifname base (answers w (Suc (clock w)))))
               (addrnum w)] \<and>
          strncpy (LIFNAMSIZ P) (lifname base (answers w (Suc (clock w)))) \<noteq> base)"
proof -
  let ?G = "lxi_getif P (addr_af addr) (strncpy (LIFNAMSIZ P) base) (LIFNAMSIZ P) first w"
  have af: "addr_af addr = AF_INET6 \<or> first" using v6 by (auto simp: addr_af_def)
  note gl = getif_lif [OF af, of w P "strncpy (LIFNAMSIZ P) base" "LIFNAMSIZ P"]
  have sb: "strncpy (LIFNAMSIZ P) base = base" using L by simp
  note ne = lifname_neq [OF L, of "answers w (Suc (clock w))"]
  show ?thesis
  proof (cases "fst (fst ?G) = 0")
    case True
    show ?thesis
      using iface_ip_ok [OF True] gl True ne by (simp add: sb)
  next
    case False
    have n: "aobj_names (news w (snd ?G)) = []" using getif_quiet by blast
    show ?thesis
      using iface_ip_fail [OF False] n by (simp add: aobj_of_event_def)
  qed
qed

lemma iface_ip_flag:
  "snd (fst (lxi_iface_ip P base addr first w)) =
     (first \<or> (\<not> strstr_found addr '':'' \<and> fst (fst (lxi_iface_ip P base addr first w)) = 0))"
proof (cases "fst (fst (lxi_getif P (addr_af addr) (strncpy (LIFNAMSIZ P) base) (LIFNAMSIZ P) first w)) = 0")
  case True
  show ?thesis using iface_ip_ok [OF True] by (auto simp: addr_af_def split: if_splits)
next
  case False
  show ?thesis using iface_ip_fail [OF False] by simp
qed


lemma token_loop_append:
  "token_loop P iface (xs @ ys) st w =
     token_loop P iface ys (fst (token_loop P iface xs st w)) (snd (token_loop P iface xs st w))"
  by (induction xs arbitrary: st w) (simp_all add: Let_def split_def)

lemma token_loop_single:
  "token_loop P iface [t] st w =
     (if t = ''addrconf'' then ((True, snd st), w)
      else if t = ''dhcp'' then (st, w)
      else ((fst st, snd (fst (lxi_iface_ip P iface t (snd st) w))),
            (if fst (fst (lxi_iface_ip P iface t (snd st) w)) < 0
             then lxi_warn ''Unable to add new IP address (%s) to interface %s''
                    (snd (lxi_iface_ip P iface t (snd st) w))
             else snd (lxi_iface_ip P iface t (snd st) w))))"
  by (simp add: Let_def split_def)

lemma dec_nat_small: "n < 10 \<Longrightarrow> dec_nat n = [digit_char n]"
  by (simp add: dec_nat.simps)

lemmas addr_eval =
  lxi_iface_ip_def lxi_getif_def close_warn_def extern_def lxi_warn_def destroy_addrobj_def
  aobjname_of_def snprintf_def strncpy_def dec_int_def lifname_def Let_def
  quiet_world_def world_answering_def dec_nat_small digit_char_simps
  aobj_of_event_def addif_of_event_def

text \<open>
  C2 as the claim states it fails: on \<open>net0\<close>, when \<^verbatim>\<open>ipadm_create_addr\<close> fails
  for the first IPv4 address 10.0.0.1 (the fifth call answers 1), the subsequent IPv4
  address 10.0.0.2 is placed on \<open>net0\<close> itself, as address object \<open>net0/addr1\<close>, and
  no logical interface is allocated.
\<close>

theorem second_ipv4_on_base:
  "aobj_names (events (snd (token_loop ref_platform ''net0'' [''10.0.0.1'', ''10.0.0.2'']
      (False, False) (world_answering (\<lambda>n. if n = 4 then 1 else 0))))) =
     [''net0/addr0'', ''net0/addr1''] \<and>
   addif_calls (events (snd (token_loop ref_platform ''net0'' [''10.0.0.1'', ''10.0.0.2'']
      (False, False) (world_answering (\<lambda>n. if n = 4 then 1 else 0))))) = [] \<and>
   Call (Ipadm_create_addr ''net0/addr0'') 1 \<in>
     set (events (snd (token_loop ref_platform ''net0'' [''10.0.0.1'', ''10.0.0.2'']
      (False, False) (world_answering (\<lambda>n. if n = 4 then 1 else 0))))) \<and>
   Call (Ipadm_set_addr ''net0/addr1'' ''10.0.0.2'') 0 \<in>
     set (events (snd (token_loop ref_platform ''net0'' [''10.0.0.1'', ''10.0.0.2'']
      (False, False) (world_answering (\<lambda>n. if n = 4 then 1 else 0)))))"
  by (simp add: addr_eval)


lemma is_applied_simps [simp]:
  "is_applied (Warn m) = False" "is_applied (Err m) = False" "is_applied (Fault m) = False"
  "is_applied (Call c a) = (a = 0 \<and> (\<exists>nm. c = Ipadm_create_addr nm))"
  by (simp_all add: is_applied_def split: call.splits)

lemma applied_simps [simp]:
  "applied [] = False" "applied (e # es) = (is_applied e \<or> applied es)"
  "applied (xs @ ys) = (applied xs \<or> applied ys)"
  by (auto simp: applied_def list_ex_iff)

lemma dhcp_ok_simps [simp]:
  "dhcp_ok [] = False" "dhcp_ok (e # es) = (e = Call Dhcp_reply_return_code 0 \<or> dhcp_ok es)"
  "dhcp_ok (xs @ ys) = (dhcp_ok xs \<or> dhcp_ok ys)"
  by (auto simp: dhcp_ok_def list_ex_iff)

lemma dhcp_requests_simps [simp]:
  "dhcp_requests [] = []"
  "dhcp_requests (Call c a # es) = dhcp_request_of c @ dhcp_requests es"
  "dhcp_requests (Warn m # es) = dhcp_requests es"
  "dhcp_requests (xs @ ys) = dhcp_requests xs @ dhcp_requests ys"
  by (simp_all add: dhcp_requests_def)

lemma dhcp_request_of_simps [simp]:
  "dhcp_request_of (Socket af) = []" "dhcp_request_of Close = []"
  "dhcp_request_of (Ioctl_SIOCLIFADDIF nm) = []"
  "dhcp_request_of (Dhcp_start_agent n) = []"
  "dhcp_request_of (Dhcp_ipc_make_request i n) = [i]"
  "dhcp_request_of Dhcp_reply_return_code = []"
  "dhcp_request_of (Ipadm_create_addrobj nm) = []"
  "dhcp_request_of (Ipadm_set_addr nm x) = []"
  "dhcp_request_of (Ipadm_create_addr nm) = []"
  "dhcp_request_of (Ipadm_destroy_addrobj nm) = []"
  by (simp_all add: dhcp_request_of_def)

lemma getif_obs:
  "[c \<leftarrow> calls_of (news w (snd (lxi_getif P af iface len first w))). is_addrobj_call c] = [] \<and>
   \<not> applied (news w (snd (lxi_getif P af iface len first w))) \<and>
   dhcp_requests (news w (snd (lxi_getif P af iface len first w))) = [] \<and>
   \<not> dhcp_ok (news w (snd (lxi_getif P af iface len first w)))"
  by (simp add: lxi_getif_def close_warn_def extern_def lxi_warn_def Let_def news_def
      is_addrobj_call_def)

lemma ip_apply_obs:
  "set [c \<leftarrow> calls_of (news w (snd (ip_apply P iface addr af first w))). is_addrobj_call c] \<subseteq>
     set (addrobj_calls (aobjname_of P iface (addrnum w)) addr) \<and>
   (applied (news w (snd (ip_apply P iface addr af first w))) \<longrightarrow>
     [c \<leftarrow> calls_of (news w (snd (ip_apply P iface addr af first w))). is_addrobj_call c] =
       addrobj_calls (aobjname_of P iface (addrnum w)) addr) \<and>
   (fst (fst (ip_apply P iface addr af first w)) = 0) =
     applied (news w (snd (ip_apply P iface addr af first w)))"
  by (simp add: ip_apply_def destroy_addrobj_def extern_def lxi_warn_def Let_def news_def
      is_addrobj_call_def addrobj_calls_def)

lemma iface_ip_obs_ok:
  assumes "fst (fst (lxi_getif P (addr_af addr) (strncpy (LIFNAMSIZ P) base) (LIFNAMSIZ P) first w)) = 0"
  shows "set [c \<leftarrow> calls_of (news w (snd (lxi_iface_ip P base addr first w))). is_addrobj_call c] \<subseteq>
     set (addrobj_calls (aobjname_of P
        (snd (fst (lxi_getif P (addr_af addr) (strncpy (LIFNAMSIZ P) base) (LIFNAMSIZ P) first w)))
        (addrnum w)) addr) \<and>
   (applied (news w (snd (lxi_iface_ip P base addr first w))) \<longrightarrow>
     [c \<leftarrow> calls_of (news w (snd (lxi_iface_ip P base addr first w))). is_addrobj_call c] =
       addrobj_calls (aobjname_of P
        (snd (fst (lxi_getif P (addr_af addr) (strncpy (LIFNAMSIZ P) base) (LIFNAMSIZ P) first w)))
        (addrnum w)) addr) \<and>
   (fst (fst (lxi_iface_ip P base addr first w)) = 0) =
     applied (news w (snd (lxi_iface_ip P base addr first w)))"
proof -
  let ?G = "lxi_getif P (addr_af addr) (strncpy (LIFNAMSIZ P) base) (LIFNAMSIZ P) first w"
  let ?A = "ip_apply P (snd (fst ?G)) addr (addr_af addr) first (snd ?G)"
  have e: "lxi_iface_ip P base addr first w = ?A"
    using assms by (simp add: lxi_iface_ip_eq)
  have g: "grows w (snd ?G)" using getif_quiet by blast
  have a: "addrnum (snd ?G) = addrnum w" using getif_quiet by blast
  note go = getif_obs [of w P "addr_af addr" "strncpy (LIFNAMSIZ P) base" "LIFNAMSIZ P" first]
  note f = ip_apply_obs [of "snd ?G" P "snd (fst ?G)" addr "addr_af addr" first]
  have g2: "grows (snd ?G) (snd ?A)" using ip_apply_facts by blast
  have nt: "news w (snd ?A) = news w (snd ?G) @ news (snd ?G) (snd ?A)"
    using g g2 by (rule news_trans)
  show ?thesis
    unfolding e nt using f go a by simp
qed

lemma iface_ip_obs_fail:
  assumes "fst (fst (lxi_getif P (addr_af addr) (strncpy (LIFNAMSIZ P) base) (LIFNAMSIZ P) first w)) \<noteq> 0"
  shows "[c \<leftarrow> calls_of (news w (snd (lxi_iface_ip P base addr first w))). is_addrobj_call c] = [] \<and>
   \<not> applied (news w (snd (lxi_iface_ip P base addr first w))) \<and>
   fst (fst (lxi_iface_ip P base addr first w)) = - 1 \<and>
   Warn ''failed to create new logical interface on %s: %s'' \<in>
     set (news w (snd (lxi_iface_ip P base addr first w)))"
proof -
  note go = getif_obs [of w P "addr_af addr" "strncpy (LIFNAMSIZ P) base" "LIFNAMSIZ P" first]
  show ?thesis
    using iface_ip_fail [OF assms] go by simp
qed

lemma iface_ip_applied:
  "(fst (fst (lxi_iface_ip P base addr first w)) = 0) =
     applied (news w (snd (lxi_iface_ip P base addr first w)))"
proof (cases "fst (fst (lxi_getif P (addr_af addr) (strncpy (LIFNAMSIZ P) base) (LIFNAMSIZ P) first w)) = 0")
  case True
  show ?thesis using iface_ip_obs_ok [OF True] by blast
next
  case False
  show ?thesis using iface_ip_obs_fail [OF False] by simp
qed

lemma getif_calls:
  "[c \<leftarrow> calls_of (news w (snd (lxi_getif P af iface len first w))). is_dhcp_call c] = [] \<and>
   [c \<leftarrow> calls_of (news w (snd (lxi_getif P af iface len first w))). is_addrobj_call c] = [] \<and>
   list_all no_stop (news w (snd (lxi_getif P af iface len first w)))"
  by (simp add: lxi_getif_def close_warn_def extern_def lxi_warn_def Let_def news_def
      is_dhcp_call_def is_addrobj_call_def)

lemma ip_apply_calls:
  "[c \<leftarrow> calls_of (news w (snd (ip_apply P iface addr af first w))). is_dhcp_call c] = [] \<and>
   list_all no_stop (news w (snd (ip_apply P iface addr af first w)))"
  by (simp add: ip_apply_def destroy_addrobj_def extern_def lxi_warn_def Let_def news_def
      is_dhcp_call_def)

lemma iface_ip_calls:
  "grows w (snd (lxi_iface_ip P base addr first w)) \<and>
   [c \<leftarrow> calls_of (news w (snd (lxi_iface_ip P base addr first w))). is_dhcp_call c] = [] \<and>
   list_all no_stop (news w (snd (lxi_iface_ip P base addr first w)))"
proof -
  let ?G = "lxi_getif P (addr_af addr) (strncpy (LIFNAMSIZ P) base) (LIFNAMSIZ P) first w"
  let ?A = "ip_apply P (snd (fst ?G)) addr (addr_af addr) first (snd ?G)"
  have g: "grows w (snd ?G)" using getif_quiet by blast
  note gc = getif_calls [of w P "addr_af addr" "strncpy (LIFNAMSIZ P) base" "LIFNAMSIZ P" first]
  show ?thesis
  proof (cases "fst (fst ?G) = 0")
    case True
    have e: "lxi_iface_ip P base addr first w = ?A"
      using True by (simp add: lxi_iface_ip_eq)
    have g2: "grows (snd ?G) (snd ?A)" using ip_apply_facts by blast
    have nt: "news w (snd ?A) = news w (snd ?G) @ news (snd ?G) (snd ?A)"
      using g g2 by (rule news_trans)
    show ?thesis
      unfolding e nt using grows_trans [OF g g2] gc ip_apply_calls [of "snd ?G" P "snd (fst ?G)" addr "addr_af addr" first]
      by simp
  next
    case False
    show ?thesis
      using iface_ip_fail [OF False] gc by simp
  qed
qed

lemma token_loop_calls:
  "grows w (snd (token_loop P iface ts st w)) \<and>
   [c \<leftarrow> calls_of (news w (snd (token_loop P iface ts st w))). is_dhcp_call c] = [] \<and>
   list_all no_stop (news w (snd (token_loop P iface ts st w)))"
proof (induction ts arbitrary: st w)
  case Nil
  show ?case by (simp add: news_def)
next
  case (Cons t ts)
  show ?case
  proof (cases "t = ''addrconf'' \<or> t = ''dhcp''")
    case True
    then show ?thesis using Cons.IH by auto
  next
    case False
    let ?I = "lxi_iface_ip P iface t (snd st) w"
    let ?w2 = "if fst (fst ?I) < 0
               then lxi_warn ''Unable to add new IP address (%s) to interface %s'' (snd ?I)
               else snd ?I"
    let ?st = "(fst st, snd (fst ?I))"
    have e: "token_loop P iface (t # ts) st w = token_loop P iface ts ?st ?w2"
      using False by (simp add: Let_def split_def)
    note ic = iface_ip_calls [of w P iface t "snd st"]
    have gi: "grows w (snd ?I)" using ic by blast
    have g2: "grows w ?w2" and n2: "news w ?w2 = news w (snd ?I) @ (if fst (fst ?I) < 0 then [Warn ''Unable to add new IP address (%s) to interface %s''] else [])"
      using grows_warn [OF gi] gi by auto
    note ih = Cons.IH [of ?w2 ?st]
    have g3: "grows ?w2 (snd (token_loop P iface ts ?st ?w2))" using ih by blast
    have nt: "news w (snd (token_loop P iface ts ?st ?w2)) =
        news w ?w2 @ news ?w2 (snd (token_loop P iface ts ?st ?w2))"
      using g2 g3 by (rule news_trans)
    show ?thesis
      unfolding e nt n2 using grows_trans [OF g2 g3] ic ih by simp
  qed
qed

lemma token_loop_skip_dhcp:
  "token_loop P iface [t \<leftarrow> ts. t \<noteq> ''dhcp''] st w = token_loop P iface ts st w"
  by (induction ts arbitrary: st w) (simp_all add: Let_def split_def)


lemma token_seg_literal:
  assumes "t \<noteq> ''addrconf''" and "t \<noteq> ''dhcp''"
  shows "token_seg P base ts1 t st w =
      news (snd (token_loop P base ts1 st w))
        (snd (lxi_iface_ip P base t (snd (fst (token_loop P base ts1 st w)))
               (snd (token_loop P base ts1 st w)))) @
      (if fst (fst (lxi_iface_ip P base t (snd (fst (token_loop P base ts1 st w)))
               (snd (token_loop P base ts1 st w)))) < 0
       then [Warn ''Unable to add new IP address (%s) to interface %s''] else []) \<and>
    grows (snd (token_loop P base ts1 st w)) (snd (token_loop P base (ts1 @ [t]) st w))"
proof -
  let ?Wa = "snd (token_loop P base ts1 st w)"
  let ?I = "lxi_iface_ip P base t (snd (fst (token_loop P base ts1 st w))) ?Wa"
  have gi: "grows ?Wa (snd ?I)" using iface_ip_calls by blast
  have e: "snd (token_loop P base (ts1 @ [t]) st w) =
      (if fst (fst ?I) < 0
       then lxi_warn ''Unable to add new IP address (%s) to interface %s'' (snd ?I)
       else snd ?I)"
    unfolding token_loop_append token_loop_single using assms by simp
  show ?thesis
    unfolding token_seg_def e using grows_warn [OF gi] gi by simp
qed

lemma token_seg_applied:
  assumes "t \<noteq> ''addrconf''" and "t \<noteq> ''dhcp''"
  shows "applied (token_seg P base ts1 t st w) =
     (fst (fst (lxi_iface_ip P base t (snd (fst (token_loop P base ts1 st w)))
               (snd (token_loop P base ts1 st w)))) = 0)"
  using token_seg_literal [OF assms, of P base ts1 st w]
    iface_ip_applied [of P base t "snd (fst (token_loop P base ts1 st w))" "snd (token_loop P base ts1 st w)"]
  by simp

lemma earlier_v4_applied_Nil [simp]: "earlier_v4_applied P base [] st w = False"
  by (simp add: earlier_v4_applied_def)

lemma earlier_v4_applied_snoc:
  "earlier_v4_applied P base (xs @ [x]) st w =
     (earlier_v4_applied P base xs st w \<or> literal_v4 x \<and> applied (token_seg P base xs x st w))"
  by (auto simp: earlier_v4_applied_def list_ex_iff nth_append less_Suc_eq)

lemma token_loop_flag_obs:
  "snd (fst (token_loop P base ts st w)) = (snd st \<or> earlier_v4_applied P base ts st w)"
proof (induction ts rule: rev_induct)
  case Nil
  then show ?case by simp
next
  case (snoc x xs)
  have step: "snd (fst (token_loop P base (xs @ [x]) st w)) =
      (snd (fst (token_loop P base xs st w)) \<or>
       literal_v4 x \<and> applied (token_seg P base xs x st w))"
  proof (cases "x = ''addrconf'' \<or> x = ''dhcp''")
    case True
    then show ?thesis
      unfolding token_loop_append token_loop_single by (auto simp: literal_v4_def)
  next
    case False
    then have a: "x \<noteq> ''addrconf''" and b: "x \<noteq> ''dhcp''" by simp_all
    show ?thesis
      unfolding token_seg_applied [OF a b]
      unfolding token_loop_append token_loop_single
      using iface_ip_flag [of P base x "snd (fst (token_loop P base xs st w))" "snd (token_loop P base xs st w)"]
        a b
      by (auto simp: literal_v4_def)
  qed
  show ?case
    unfolding step snoc.IH earlier_v4_applied_snoc by blast
qed

lemma net_dhcp_obs:
  assumes "lxi_net_dhcp P base ipaddrs w = Inr (f0, W0)"
  shows "grows w W0 \<and> addif_calls (news w W0) = [] \<and>
     [c \<leftarrow> calls_of (news w W0). is_addrobj_call c] = [] \<and>
     (dhcp_requests (news w W0) = [] \<or>
      dhcp_requests (news w W0) = [strncpy (LIFNAMSIZ P) base]) \<and>
     f0 = dhcp_ok (news w W0) \<and>
     (f0 \<longrightarrow> dhcp_requests (news w W0) = [strncpy (LIFNAMSIZ P) base]) \<and>
     (\<not> strstr_found ipaddrs ''dhcp'' \<longrightarrow> W0 = w)"
  using assms
  by (auto simp: lxi_net_dhcp_def lxi_iface_dhcp_def lxi_getif_def close_warn_def extern_def
      alloc_def lxi_warn_def lxi_err_def Let_def news_def grows_def is_addrobj_call_def
      addif_of_event_def split: if_splits)


lemma addif_of_Warn [simp]: "addif_of_event (Warn m) = []"
  by (simp add: addif_of_event_def)

lemma aobj_of_Warn [simp]: "aobj_of_event (Warn m) = []"
  by (simp add: aobj_of_event_def)

lemma iface_ip_base_obs:
  assumes v4: "\<not> strstr_found addr '':''" and nf: "\<not> first" and L: "length base \<le> LIFNAMSIZ P"
  shows "addif_calls (news w (snd (lxi_iface_ip P base addr first w))) = [] \<and>
     set [c \<leftarrow> calls_of (news w (snd (lxi_iface_ip P base addr first w))). is_addrobj_call c] \<subseteq>
       set (addrobj_calls (aobjname_of P base (addrnum w)) addr) \<and>
     (applied (news w (snd (lxi_iface_ip P base addr first w))) \<longrightarrow>
       [c \<leftarrow> calls_of (news w (snd (lxi_iface_ip P base addr first w))). is_addrobj_call c] =
         addrobj_calls (aobjname_of P base (addrnum w)) addr) \<and>
     (aobj_names (news w (snd (lxi_iface_ip P base addr first w))) =
        [aobjname_of P base (addrnum w)] \<or>
      Warn ''failed to create new logical interface on %s: %s'' \<in>
        set (news w (snd (lxi_iface_ip P base addr first w))))"
proof -
  let ?G = "lxi_getif P (addr_af addr) (strncpy (LIFNAMSIZ P) base) (LIFNAMSIZ P) first w"
  have af: "addr_af addr = AF_INET" using v4 by (simp add: addr_af_def)
  note gb = getif_base [OF af nf, of w P "strncpy (LIFNAMSIZ P) base" "LIFNAMSIZ P"]
  have nm: "snd (fst ?G) = base" using gb L by simp
  have ad: "addif_calls (news w (snd (lxi_iface_ip P base addr first w))) = []"
    using iface_ip_base [OF v4 nf L, of w] by blast
  show ?thesis
  proof (cases "fst (fst ?G) = 0")
    case True
    have an: "aobj_names (news w (snd (lxi_iface_ip P base addr first w))) =
        [aobjname_of P base (addrnum w)]"
      using iface_ip_ok [OF True] by (simp add: nm)
    show ?thesis
      using iface_ip_obs_ok [OF True] ad an by (simp only: nm) simp
  next
    case False
    show ?thesis
      using iface_ip_obs_fail [OF False] ad by simp
  qed
qed

lemma iface_ip_lif_obs:
  assumes v6: "strstr_found addr '':'' \<or> first" and L: "length base < LIFNAMSIZ P"
  shows "[c \<leftarrow> calls_of (news w (snd (lxi_iface_ip P base addr first w))). is_addrobj_call c] = [] \<and>
     \<not> applied (news w (snd (lxi_iface_ip P base addr first w))) \<and>
     Warn ''failed to create new logical interface on %s: %s'' \<in>
       set (news w (snd (lxi_iface_ip P base addr first w))) \<or>
     0 \<le> answers w (Suc (clock w)) \<and>
     addif_calls (news w (snd (lxi_iface_ip P base addr first w))) =
       [(base, answers w (Suc (clock w)))] \<and>
     strncpy (LIFNAMSIZ P) (lifname base (answers w (Suc (clock w)))) \<noteq> base \<and>
     aobj_names (news w (snd (lxi_iface_ip P base addr first w))) =
       [aobjname_of P (strncpy (LIFNAMSIZ P) (lifname base (answers w (Suc (clock w)))))
          (addrnum w)] \<and>
     set [c \<leftarrow> calls_of (news w (snd (lxi_iface_ip P base addr first w))). is_addrobj_call c] \<subseteq>
       set (addrobj_calls
         (aobjname_of P (strncpy (LIFNAMSIZ P) (lifname base (answers w (Suc (clock w)))))
            (addrnum w)) addr) \<and>
     (applied (news w (snd (lxi_iface_ip P base addr first w))) \<longrightarrow>
       [c \<leftarrow> calls_of (news w (snd (lxi_iface_ip P base addr first w))). is_addrobj_call c] =
         addrobj_calls
           (aobjname_of P (strncpy (LIFNAMSIZ P) (lifname base (answers w (Suc (clock w)))))
              (addrnum w)) addr)"
proof -
  let ?G = "lxi_getif P (addr_af addr) (strncpy (LIFNAMSIZ P) base) (LIFNAMSIZ P) first w"
  have af: "addr_af addr = AF_INET6 \<or> first" using v6 by (auto simp: addr_af_def)
  note gl = getif_lif [OF af, of w P "strncpy (LIFNAMSIZ P) base" "LIFNAMSIZ P"]
  have sb: "strncpy (LIFNAMSIZ P) base = base" using L by simp
  note ne = lifname_neq [OF L, of "answers w (Suc (clock w))"]
  show ?thesis
  proof (cases "fst (fst ?G) = 0")
    case True
    have nm: "snd (fst ?G) = strncpy (LIFNAMSIZ P) (lifname base (answers w (Suc (clock w))))"
      using gl True by (simp add: sb)
    have a1: "0 \<le> answers w (Suc (clock w))"
      using gl True by simp
    have a2: "addif_calls (news w (snd (lxi_iface_ip P base addr first w))) =
       [(base, answers w (Suc (clock w)))]"
      using iface_ip_ok [OF True] gl True by (simp add: sb)
    have a3: "aobj_names (news w (snd (lxi_iface_ip P base addr first w))) =
       [aobjname_of P (strncpy (LIFNAMSIZ P) (lifname base (answers w (Suc (clock w)))))
          (addrnum w)]"
      using iface_ip_ok [OF True] by (simp add: nm)
    note o = iface_ip_obs_ok [OF True, unfolded nm]
    show ?thesis
      using a1 a2 a3 ne o by blast
  next
    case False
    show ?thesis
      using iface_ip_obs_fail [OF False] by simp
  qed
qed

text \<open>
  C2, as the code has it. The addresses of one interface are assigned by the DHCP step
  and then by the loop over the tokens of the address string; the theorem is about the
  part of the log written for a token \<open>t\<close> that is an address, after the tokens
  \<open>ts1\<close>. On a base interface whose name fits its buffer, when the DHCP step returns:
  \<^item> \<^verbatim>\<open>lxi_net_addrs\<close> is the token loop run after the DHCP step, started with the
    flag \<open>first_ipv4_configured\<close> that the log of the DHCP step shows (the reply with
    return code 0);
  \<^item> the DHCP step allocates no logical interface and touches no address object, and a
    request it makes is for the base name itself;
  \<^item> an IPv4 address, when neither DHCP succeeded nor the log shows an earlier IPv4
    address of the string applied: no \<^verbatim>\<open>SIOCLIFADDIF\<close> call is made, every call on
    an address object is on the object named after the base interface itself, with the
    address \<open>t\<close>, and these are the four calls in their order when the address was
    applied; the object is created unless the function gave up for want of a socket;
  \<^item> an IPv6 address, and an IPv4 address after DHCP succeeded or after an earlier IPv4
    address was applied: either the function gives up with the warning
    \<open>failed to create new logical interface\<close> and no call on an address object, or one
    \<^verbatim>\<open>SIOCLIFADDIF\<close> call is made on the base name and the address object is
    created on the logical interface the kernel returned, whose name differs from the
    base name, with the address \<open>t\<close>;
  \<^item> the name of an address object is \<open><interface>/addr<N>\<close>.
\<close>

theorem logical_interface_policy:
  assumes L: "length base < LIFNAMSIZ P"
    and D: "lxi_net_dhcp P base ipaddrs w = Inr (f0, W0)"
    and T: "ipaddr_tokens P ipaddrs = ts1 @ t # ts2"
    and t1: "t \<noteq> ''addrconf''" and t2: "t \<noteq> ''dhcp''"
  shows
   "lxi_net_addrs P base ipaddrs dac w =
      Inr (token_loop P base (ts1 @ t # ts2) (dac, dhcp_ok (news w W0)) W0) \<and>
    grows w W0 \<and>
    addif_calls (news w W0) = [] \<and>
    [c \<leftarrow> calls_of (news w W0). is_addrobj_call c] = [] \<and>
    (dhcp_requests (news w W0) = [] \<or> dhcp_requests (news w W0) = [base]) \<and>
    (dhcp_ok (news w W0) \<longrightarrow> dhcp_requests (news w W0) = [base]) \<and>
    (\<not> strstr_found ipaddrs ''dhcp'' \<longrightarrow> W0 = w) \<and>
    grows W0 (snd (token_loop P base ts1 (dac, dhcp_ok (news w W0)) W0)) \<and>
    grows (snd (token_loop P base ts1 (dac, dhcp_ok (news w W0)) W0))
          (snd (token_loop P base (ts1 @ [t]) (dac, dhcp_ok (news w W0)) W0)) \<and>
    (\<not> strstr_found t '':'' \<and> \<not> dhcp_ok (news w W0) \<and>
     \<not> earlier_v4_applied P base ts1 (dac, dhcp_ok (news w W0)) W0 \<longrightarrow>
       addif_calls (token_seg P base ts1 t (dac, dhcp_ok (news w W0)) W0) = [] \<and>
       set [c \<leftarrow> calls_of (token_seg P base ts1 t (dac, dhcp_ok (news w W0)) W0).
              is_addrobj_call c] \<subseteq>
         set (addrobj_calls
           (aobjname_of P base
              (addrnum (snd (token_loop P base ts1 (dac, dhcp_ok (news w W0)) W0)))) t) \<and>
       (applied (token_seg P base ts1 t (dac, dhcp_ok (news w W0)) W0) \<longrightarrow>
          [c \<leftarrow> calls_of (token_seg P base ts1 t (dac, dhcp_ok (news w W0)) W0).
             is_addrobj_call c] =
            addrobj_calls
              (aobjname_of P base
                 (addrnum (snd (token_loop P base ts1 (dac, dhcp_ok (news w W0)) W0)))) t) \<and>
       (aobj_names (token_seg P base ts1 t (dac, dhcp_ok (news w W0)) W0) =
          [aobjname_of P base
             (addrnum (snd (token_loop P base ts1 (dac, dhcp_ok (news w W0)) W0)))] \<or>
        Warn ''failed to create new logical interface on %s: %s'' \<in>
          set (token_seg P base ts1 t (dac, dhcp_ok (news w W0)) W0))) \<and>
    (strstr_found t '':'' \<or> dhcp_ok (news w W0) \<or>
     earlier_v4_applied P base ts1 (dac, dhcp_ok (news w W0)) W0 \<longrightarrow>
       [c \<leftarrow> calls_of (token_seg P base ts1 t (dac, dhcp_ok (news w W0)) W0).
          is_addrobj_call c] = [] \<and>
       \<not> applied (token_seg P base ts1 t (dac, dhcp_ok (news w W0)) W0) \<and>
       Warn ''failed to create new logical interface on %s: %s'' \<in>
         set (token_seg P base ts1 t (dac, dhcp_ok (news w W0)) W0) \<or>
       (\<exists>n. 0 \<le> n \<and>
          addif_calls (token_seg P base ts1 t (dac, dhcp_ok (news w W0)) W0) = [(base, n)] \<and>
          strncpy (LIFNAMSIZ P) (lifname base n) \<noteq> base \<and>
          aobj_names (token_seg P base ts1 t (dac, dhcp_ok (news w W0)) W0) =
            [aobjname_of P (strncpy (LIFNAMSIZ P) (lifname base n))
               (addrnum (snd (token_loop P base ts1 (dac, dhcp_ok (news w W0)) W0)))] \<and>
          set [c \<leftarrow> calls_of (token_seg P base ts1 t (dac, dhcp_ok (news w W0)) W0).
                 is_addrobj_call c] \<subseteq>
            set (addrobj_calls
              (aobjname_of P (strncpy (LIFNAMSIZ P) (lifname base n))
                 (addrnum (snd (token_loop P base ts1 (dac, dhcp_ok (news w W0)) W0)))) t) \<and>
          (applied (token_seg P base ts1 t (dac, dhcp_ok (news w W0)) W0) \<longrightarrow>
             [c \<leftarrow> calls_of (token_seg P base ts1 t (dac, dhcp_ok (news w W0)) W0).
                is_addrobj_call c] =
               addrobj_calls
                 (aobjname_of P (strncpy (LIFNAMSIZ P) (lifname base n))
                    (addrnum (snd (token_loop P base ts1 (dac, dhcp_ok (news w W0)) W0)))) t))) \<and>
    aobjname_of P x k = snprintf (IPADM_AOBJSIZ P) (x @ ''/addr'' @ dec_int (sint k))"
proof -
  note d = net_dhcp_obs [OF D]
  have sb: "strncpy (LIFNAMSIZ P) base = base" using L by simp
  have f0: "f0 = dhcp_ok (news w W0)" using d by blast
  let ?st = "(dac, dhcp_ok (news w W0))"
  let ?Wa = "snd (token_loop P base ts1 ?st W0)"
  let ?fl = "snd (fst (token_loop P base ts1 ?st W0))"
  let ?I = "lxi_iface_ip P base t ?fl ?Wa"
  let ?S = "token_seg P base ts1 t ?st W0"
  let ?N = "news ?Wa (snd ?I)"
  have 1: "lxi_net_addrs P base ipaddrs dac w = Inr (token_loop P base (ts1 @ t # ts2) ?st W0)"
    using D T by (simp add: lxi_net_addrs_def f0)
  have 2: "grows w W0" using d by blast
  have 3: "addif_calls (news w W0) = []" using d by blast
  have 4: "[c \<leftarrow> calls_of (news w W0). is_addrobj_call c] = []" using d by blast
  have 5: "dhcp_requests (news w W0) = [] \<or> dhcp_requests (news w W0) = [base]"
    using d by (simp add: sb)
  have 6: "dhcp_ok (news w W0) \<longrightarrow> dhcp_requests (news w W0) = [base]"
    using d f0 by (simp add: sb)
  have 7: "\<not> strstr_found ipaddrs ''dhcp'' \<longrightarrow> W0 = w" using d by blast
  have 8: "grows W0 ?Wa" using token_loop_calls by blast
  note sl = token_seg_literal [OF t1 t2, of P base ts1 ?st W0]
  have 9: "grows ?Wa (snd (token_loop P base (ts1 @ [t]) ?st W0))" using sl by blast
  have S: "?S = ?N @ (if fst (fst ?I) < 0
       then [Warn ''Unable to add new IP address (%s) to interface %s''] else [])"
    using sl by blast
  have fl: "?fl = (dhcp_ok (news w W0) \<or> earlier_v4_applied P base ts1 ?st W0)"
    using token_loop_flag_obs [of P base ts1 ?st W0] by simp
  have oS: "addif_calls ?S = addif_calls ?N" "calls_of ?S = calls_of ?N"
      "applied ?S = applied ?N" "aobj_names ?S = aobj_names ?N" "set ?N \<subseteq> set ?S"
    unfolding S by auto
  have 10: "\<not> strstr_found t '':'' \<and> \<not> dhcp_ok (news w W0) \<and>
     \<not> earlier_v4_applied P base ts1 ?st W0 \<longrightarrow>
       addif_calls ?S = [] \<and>
       set [c \<leftarrow> calls_of ?S. is_addrobj_call c] \<subseteq>
         set (addrobj_calls (aobjname_of P base (addrnum ?Wa)) t) \<and>
       (applied ?S \<longrightarrow>
          [c \<leftarrow> calls_of ?S. is_addrobj_call c] =
            addrobj_calls (aobjname_of P base (addrnum ?Wa)) t) \<and>
       (aobj_names ?S = [aobjname_of P base (addrnum ?Wa)] \<or>
        Warn ''failed to create new logical interface on %s: %s'' \<in> set ?S)"
  proof
    assume a: "\<not> strstr_found t '':'' \<and> \<not> dhcp_ok (news w W0) \<and>
       \<not> earlier_v4_applied P base ts1 ?st W0"
    have v4: "\<not> strstr_found t '':''" using a by blast
    have nf: "\<not> ?fl" using a fl by blast
    have L': "length base \<le> LIFNAMSIZ P" using L by simp
    show "addif_calls ?S = [] \<and>
       set [c \<leftarrow> calls_of ?S. is_addrobj_call c] \<subseteq>
         set (addrobj_calls (aobjname_of P base (addrnum ?Wa)) t) \<and>
       (applied ?S \<longrightarrow>
          [c \<leftarrow> calls_of ?S. is_addrobj_call c] =
            addrobj_calls (aobjname_of P base (addrnum ?Wa)) t) \<and>
       (aobj_names ?S = [aobjname_of P base (addrnum ?Wa)] \<or>
        Warn ''failed to create new logical interface on %s: %s'' \<in> set ?S)"
      unfolding oS(1-4) using iface_ip_base_obs [OF v4 nf L', of ?Wa] oS(5) by blast
  qed
  have 11: "strstr_found t '':'' \<or> dhcp_ok (news w W0) \<or>
     earlier_v4_applied P base ts1 ?st W0 \<longrightarrow>
       [c \<leftarrow> calls_of ?S. is_addrobj_call c] = [] \<and>
       \<not> applied ?S \<and>
       Warn ''failed to create new logical interface on %s: %s'' \<in> set ?S \<or>
       (\<exists>n. 0 \<le> n \<and>
          addif_calls ?S = [(base, n)] \<and>
          strncpy (LIFNAMSIZ P) (lifname base n) \<noteq> base \<and>
          aobj_names ?S =
            [aobjname_of P (strncpy (LIFNAMSIZ P) (lifname base n)) (addrnum ?Wa)] \<and>
          set [c \<leftarrow> calls_of ?S. is_addrobj_call c] \<subseteq>
            set (addrobj_calls
              (aobjname_of P (strncpy (LIFNAMSIZ P) (lifname base n)) (addrnum ?Wa)) t) \<and>
          (applied ?S \<longrightarrow>
             [c \<leftarrow> calls_of ?S. is_addrobj_call c] =
               addrobj_calls
                 (aobjname_of P (strncpy (LIFNAMSIZ P) (lifname base n)) (addrnum ?Wa)) t))"
  proof
    assume a: "strstr_found t '':'' \<or> dhcp_ok (news w W0) \<or>
       earlier_v4_applied P base ts1 ?st W0"
    have v6: "strstr_found t '':'' \<or> ?fl" using a fl by blast
    note o = iface_ip_lif_obs [OF v6 L, of ?Wa]
    from o show "[c \<leftarrow> calls_of ?S. is_addrobj_call c] = [] \<and>
       \<not> applied ?S \<and>
       Warn ''failed to create new logical interface on %s: %s'' \<in> set ?S \<or>
       (\<exists>n. 0 \<le> n \<and>
          addif_calls ?S = [(base, n)] \<and>
          strncpy (LIFNAMSIZ P) (lifname base n) \<noteq> base \<and>
          aobj_names ?S =
            [aobjname_of P (strncpy (LIFNAMSIZ P) (lifname base n)) (addrnum ?Wa)] \<and>
          set [c \<leftarrow> calls_of ?S. is_addrobj_call c] \<subseteq>
            set (addrobj_calls
              (aobjname_of P (strncpy (LIFNAMSIZ P) (lifname base n)) (addrnum ?Wa)) t) \<and>
          (applied ?S \<longrightarrow>
             [c \<leftarrow> calls_of ?S. is_addrobj_call c] =
               addrobj_calls
                 (aobjname_of P (strncpy (LIFNAMSIZ P) (lifname base n)) (addrnum ?Wa)) t))"
    proof
      assume "[c \<leftarrow> calls_of ?N. is_addrobj_call c] = [] \<and> \<not> applied ?N \<and>
         Warn ''failed to create new logical interface on %s: %s'' \<in> set ?N"
      then show ?thesis
        unfolding oS(1-4) using oS(5) by blast
    next
      assume b: "0 \<le> answers ?Wa (Suc (clock ?Wa)) \<and>
         addif_calls ?N = [(base, answers ?Wa (Suc (clock ?Wa)))] \<and>
         strncpy (LIFNAMSIZ P) (lifname base (answers ?Wa (Suc (clock ?Wa)))) \<noteq> base \<and>
         aobj_names ?N =
           [aobjname_of P (strncpy (LIFNAMSIZ P) (lifname base (answers ?Wa (Suc (clock ?Wa)))))
              (addrnum ?Wa)] \<and>
         set [c \<leftarrow> calls_of ?N. is_addrobj_call c] \<subseteq>
           set (addrobj_calls
             (aobjname_of P (strncpy (LIFNAMSIZ P) (lifname base (answers ?Wa (Suc (clock ?Wa)))))
                (addrnum ?Wa)) t) \<and>
         (applied ?N \<longrightarrow>
           [c \<leftarrow> calls_of ?N. is_addrobj_call c] =
             addrobj_calls
               (aobjname_of P (strncpy (LIFNAMSIZ P) (lifname base (answers ?Wa (Suc (clock ?Wa)))))
                  (addrnum ?Wa)) t)"
      show ?thesis
        unfolding oS(1-4)
        by (rule disjI2, rule exI [of _ "answers ?Wa (Suc (clock ?Wa))"]) (rule b)
    qed
  qed
  have 12: "aobjname_of P x k = snprintf (IPADM_AOBJSIZ P) (x @ ''/addr'' @ dec_int (sint k))"
    by (simp add: aobjname_of_def)
  show ?thesis
    using 1 2 3 4 5 6 7 8 9 10 11 12 by (intro conjI)
qed

lemma quiet_after_first:
  "snd (fst (token_loop ref_platform ''net0'' [''10.0.0.1''] (False, False) quiet_world)) = True \<and>
   addrnum (snd (token_loop ref_platform ''net0'' [''10.0.0.1''] (False, False) quiet_world)) = 1 \<and>
   aobj_names (events (snd (token_loop ref_platform ''net0'' [''10.0.0.1''] (False, False) quiet_world))) =
     [''net0/addr0'']"
  by (simp add: addr_eval)

lemma news_self [simp]: "news w w = []"
  by (simp add: news_def)

lemma net0_second_seg:
  "token_seg ref_platform ''net0'' [''10.0.0.1''] ''10.0.0.2'' (False, False) quiet_world =
     [Call (Socket AF_INET) 0, Call (Ioctl_SIOCLIFADDIF ''net0'') 0, Call Close 0,
      Call (Ipadm_create_addrobj ''net0:0/addr1'') 0,
      Call (Ipadm_set_addr ''net0:0/addr1'' ''10.0.0.2'') 0,
      Call (Ipadm_create_addr ''net0:0/addr1'') 0,
      Call (Ipadm_destroy_addrobj ''net0:0/addr1'') 0]"
  by (simp add: token_seg_def addr_eval news_def)

lemma net0_first_seg:
  "token_seg ref_platform ''net0'' [] ''10.0.0.1'' (False, False) quiet_world =
     [Call (Socket AF_INET) 0, Call Close 0,
      Call (Ipadm_create_addrobj ''net0/addr0'') 0,
      Call (Ipadm_set_addr ''net0/addr0'' ''10.0.0.1'') 0,
      Call (Ipadm_create_addr ''net0/addr0'') 0,
      Call (Ipadm_destroy_addrobj ''net0/addr0'') 0]"
  by (simp add: token_seg_def addr_eval news_def)

lemma net0_dhcp_world:
  "lxi_net_dhcp ref_platform ''net0'' ''dhcp,10.0.0.1'' quiet_world =
     Inr (True, quiet_world\<lparr>events :=
       [Call (Socket AF_INET) 0, Call Close 0, Call (Dhcp_start_agent 5) 0,
        Call (Dhcp_ipc_make_request ''net0'' 5) 0, Call Dhcp_reply_return_code 0],
       clock := 5, allocs := 1\<rparr>)"
  by (simp add: lxi_net_dhcp_def lxi_iface_dhcp_def lxi_getif_def close_warn_def extern_def
      alloc_def quiet_world_def Let_def strncpy_def)

lemma net0_dhcp_seg:
  "token_seg ref_platform ''net0'' [''dhcp''] ''10.0.0.1'' (False, True)
     (quiet_world\<lparr>events :=
       [Call (Socket AF_INET) 0, Call Close 0, Call (Dhcp_start_agent 5) 0,
        Call (Dhcp_ipc_make_request ''net0'' 5) 0, Call Dhcp_reply_return_code 0],
       clock := 5, allocs := 1\<rparr>) =
     [Call (Socket AF_INET) 0, Call (Ioctl_SIOCLIFADDIF ''net0'') 0, Call Close 0,
      Call (Ipadm_create_addrobj ''net0:0/addr0'') 0,
      Call (Ipadm_set_addr ''net0:0/addr0'' ''10.0.0.1'') 0,
      Call (Ipadm_create_addr ''net0:0/addr0'') 0,
      Call (Ipadm_destroy_addrobj ''net0:0/addr0'') 0]"
  by (simp add: token_seg_def addr_eval news_def)


lemma net0_names:
  "aobjname_of ref_platform ''net0'' 0 = ''net0/addr0''"
  "aobjname_of ref_platform (strncpy (LIFNAMSIZ ref_platform) (lifname ''net0'' 0)) 0 = ''net0:0/addr0''"
  "aobjname_of ref_platform (strncpy (LIFNAMSIZ ref_platform) (lifname ''net0'' 0)) 1 = ''net0:0/addr1''"
  by (simp_all add: aobjname_of_def snprintf_def strncpy_def lifname_def dec_int_def dec_nat_small
      digit_char_simps)

theorem logical_interface_policy_witness:
  "length ''net0'' < LIFNAMSIZ ref_platform \<and>
   lxi_net_dhcp ref_platform ''net0'' ''10.0.0.1,10.0.0.2'' quiet_world = Inr (False, quiet_world) \<and>
   ipaddr_tokens ref_platform ''10.0.0.1,10.0.0.2'' = [''10.0.0.1'', ''10.0.0.2''] \<and>
   \<not> earlier_v4_applied ref_platform ''net0'' [] (False, False) quiet_world \<and>
   addif_calls (token_seg ref_platform ''net0'' [] ''10.0.0.1'' (False, False) quiet_world) = [] \<and>
   [c \<leftarrow> calls_of (token_seg ref_platform ''net0'' [] ''10.0.0.1'' (False, False) quiet_world).
      is_addrobj_call c] = addrobj_calls ''net0/addr0'' ''10.0.0.1'' \<and>
   earlier_v4_applied ref_platform ''net0'' [''10.0.0.1''] (False, False) quiet_world \<and>
   addif_calls (token_seg ref_platform ''net0'' [''10.0.0.1''] ''10.0.0.2'' (False, False) quiet_world) =
     [(''net0'', 0)] \<and>
   [c \<leftarrow> calls_of (token_seg ref_platform ''net0'' [''10.0.0.1''] ''10.0.0.2'' (False, False)
      quiet_world). is_addrobj_call c] = addrobj_calls ''net0:0/addr1'' ''10.0.0.2'' \<and>
   value_of (lxi_net_dhcp ref_platform ''net0'' ''dhcp,10.0.0.1'' quiet_world) = Some True \<and>
   ipaddr_tokens ref_platform ''dhcp,10.0.0.1'' = [''dhcp'', ''10.0.0.1''] \<and>
   dhcp_requests (news quiet_world
     (world_of (lxi_net_dhcp ref_platform ''net0'' ''dhcp,10.0.0.1'' quiet_world))) = [''net0''] \<and>
   addif_calls (token_seg ref_platform ''net0'' [''dhcp''] ''10.0.0.1'' (False, True)
     (world_of (lxi_net_dhcp ref_platform ''net0'' ''dhcp,10.0.0.1'' quiet_world))) =
     [(''net0'', 0)] \<and>
   [c \<leftarrow> calls_of (token_seg ref_platform ''net0'' [''dhcp''] ''10.0.0.1'' (False, True)
     (world_of (lxi_net_dhcp ref_platform ''net0'' ''dhcp,10.0.0.1'' quiet_world))).
      is_addrobj_call c] = addrobj_calls ''net0:0/addr0'' ''10.0.0.1''"
proof -
  let ?P = ref_platform
  let ?Wd = "quiet_world\<lparr>events :=
       [Call (Socket AF_INET) 0, Call Close 0, Call (Dhcp_start_agent 5) 0,
        Call (Dhcp_ipc_make_request ''net0'' 5) 0, Call Dhcp_reply_return_code 0],
       clock := 5, allocs := 1\<rparr>"
  let ?S1 = "token_seg ?P ''net0'' [] ''10.0.0.1'' (False, False) quiet_world"
  let ?S2 = "token_seg ?P ''net0'' [''10.0.0.1''] ''10.0.0.2'' (False, False) quiet_world"
  let ?S3 = "token_seg ?P ''net0'' [''dhcp''] ''10.0.0.1'' (False, True) ?Wd"
  have L: "length ''net0'' < LIFNAMSIZ ?P" by simp
  have D: "lxi_net_dhcp ?P ''net0'' ''10.0.0.1,10.0.0.2'' quiet_world = Inr (False, quiet_world)"
    by (simp add: lxi_net_dhcp_def)
  have T: "ipaddr_tokens ?P ''10.0.0.1,10.0.0.2'' = [''10.0.0.1'', ''10.0.0.2'']"
    by (simp add: ipaddr_tokens_def strlcpy_def)
  have T1: "ipaddr_tokens ?P ''10.0.0.1,10.0.0.2'' = [] @ ''10.0.0.1'' # [''10.0.0.2'']"
    using T by simp
  have T2: "ipaddr_tokens ?P ''10.0.0.1,10.0.0.2'' = [''10.0.0.1''] @ ''10.0.0.2'' # []"
    using T by simp
  have TD: "ipaddr_tokens ?P ''dhcp,10.0.0.1'' = [''dhcp'', ''10.0.0.1'']"
    by (simp add: ipaddr_tokens_def strlcpy_def)
  have T3: "ipaddr_tokens ?P ''dhcp,10.0.0.1'' = [''dhcp''] @ ''10.0.0.1'' # []"
    using TD by simp
  have k0: "dhcp_ok (news quiet_world quiet_world) = False" by simp
  have k1: "dhcp_ok (news quiet_world ?Wd) = True"
    by (simp add: news_def quiet_world_def)
  have wd: "world_of (lxi_net_dhcp ?P ''net0'' ''dhcp,10.0.0.1'' quiet_world) = ?Wd"
    by (simp add: net0_dhcp_world)
  have vd: "value_of (lxi_net_dhcp ?P ''net0'' ''dhcp,10.0.0.1'' quiet_world) = Some True"
    by (simp add: net0_dhcp_world)
  note i1 = logical_interface_policy [OF L D T1, where dac = False, unfolded k0]
  note i2 = logical_interface_policy [OF L D T2, where dac = False, unfolded k0]
  note i3 = logical_interface_policy [OF L net0_dhcp_world T3, where dac = False, unfolded k1]
  have e1: "\<not> earlier_v4_applied ?P ''net0'' [] (False, False) quiet_world" by simp
  have e2: "earlier_v4_applied ?P ''net0'' [''10.0.0.1''] (False, False) quiet_world"
    by (simp add: earlier_v4_applied_def literal_v4_def net0_first_seg)
  have a1: "applied ?S1" by (simp add: net0_first_seg)
  have a2: "applied ?S2" by (simp add: net0_second_seg)
  have a3: "applied ?S3" unfolding net0_dhcp_seg by simp
  have n1: "addrnum (snd (token_loop ?P ''net0'' [] (False, False) quiet_world)) = 0"
    by (simp add: quiet_world_def)
  have n2: "addrnum (snd (token_loop ?P ''net0'' [''10.0.0.1''] (False, False) quiet_world)) = 1"
    using quiet_after_first by blast
  have n3: "addrnum (snd (token_loop ?P ''net0'' [''dhcp''] (False, True) ?Wd)) = 0"
    by (simp add: quiet_world_def)
  have v4: "\<not> strstr_found ''10.0.0.1'' '':''" by simp
  have b1: "addif_calls ?S1 = [] \<and>
      [c \<leftarrow> calls_of ?S1. is_addrobj_call c] = addrobj_calls ''net0/addr0'' ''10.0.0.1''"
    using i1 [THEN conjunct2, THEN conjunct2, THEN conjunct2, THEN conjunct2, THEN conjunct2,
              THEN conjunct2, THEN conjunct2, THEN conjunct2, THEN conjunct2, THEN conjunct1]
      v4 e1 a1 n1
    by (simp add: net0_names)
  have ad2: "addif_calls ?S2 = [(''net0'', 0)]"
    by (simp add: net0_second_seg addif_of_event_def)
  have ad3: "addif_calls ?S3 = [(''net0'', 0)]"
    unfolding net0_dhcp_seg by (simp add: addif_of_event_def)
  from i2 [THEN conjunct2, THEN conjunct2, THEN conjunct2, THEN conjunct2, THEN conjunct2,
           THEN conjunct2, THEN conjunct2, THEN conjunct2, THEN conjunct2, THEN conjunct2,
           THEN conjunct1] e2 a2
  obtain n where n: "addif_calls ?S2 = [(''net0'', n)]"
      "applied ?S2 \<longrightarrow> [c \<leftarrow> calls_of ?S2. is_addrobj_call c] =
         addrobj_calls (aobjname_of ?P (strncpy (LIFNAMSIZ ?P) (lifname ''net0'' n))
           (addrnum (snd (token_loop ?P ''net0'' [''10.0.0.1''] (False, False) quiet_world))))
           ''10.0.0.2''"
    by auto
  have n0: "n = 0" using n(1) ad2 by simp
  have b2: "[c \<leftarrow> calls_of ?S2. is_addrobj_call c] = addrobj_calls ''net0:0/addr1'' ''10.0.0.2''"
    using n(2) a2 unfolding n0 n2 net0_names by blast
  from i3 [THEN conjunct2, THEN conjunct2, THEN conjunct2, THEN conjunct2, THEN conjunct2,
           THEN conjunct2, THEN conjunct2, THEN conjunct2, THEN conjunct2, THEN conjunct2,
           THEN conjunct1] a3
  obtain m where m: "addif_calls ?S3 = [(''net0'', m)]"
      "applied ?S3 \<longrightarrow> [c \<leftarrow> calls_of ?S3. is_addrobj_call c] =
         addrobj_calls (aobjname_of ?P (strncpy (LIFNAMSIZ ?P) (lifname ''net0'' m))
           (addrnum (snd (token_loop ?P ''net0'' [''dhcp''] (False, True) ?Wd))))
           ''10.0.0.1''"
    by auto
  have m0: "m = 0" using m(1) ad3 by simp
  have b3: "[c \<leftarrow> calls_of ?S3. is_addrobj_call c] = addrobj_calls ''net0:0/addr0'' ''10.0.0.1''"
    using m(2) a3 unfolding m0 n3 net0_names by blast
  have r3: "dhcp_requests (news quiet_world ?Wd) = [''net0'']"
    using i3 [THEN conjunct2, THEN conjunct2, THEN conjunct2, THEN conjunct2, THEN conjunct2,
              THEN conjunct1] by simp
  show ?thesis
    unfolding wd
    using L D T e1 b1 [THEN conjunct1] b1 [THEN conjunct2] e2 ad2 b2 vd TD r3 ad3 b3
    by (intro conjI)
qed

section \<open>DHCP\<close>

lemma is_dhcp_failure_simps [simp]:
  "is_dhcp_failure (Warn m) = False" "is_dhcp_failure (Err m) = False"
  "is_dhcp_failure (Fault m) = False"
  "is_dhcp_failure (Call c a) =
     (a \<noteq> 0 \<and> (c = Dhcp_reply_return_code \<or> (\<exists>i t. c = Dhcp_ipc_make_request i t)))"
  by (auto simp: is_dhcp_failure_def split: call.splits)

lemma dhcp_failed_simps [simp]:
  "dhcp_failed [] = False" "dhcp_failed (e # es) = (is_dhcp_failure e \<or> dhcp_failed es)"
  "dhcp_failed (xs @ ys) = (dhcp_failed xs \<or> dhcp_failed ys)"
  by (auto simp: dhcp_failed_def list_ex_iff)

lemma iface_dhcp_failed:
  assumes "dhcp_failed (news w (world_of (lxi_iface_dhcp P base False w)))"
  shows "(\<exists>rc. lxi_iface_dhcp P base False w =
             Inr ((rc, False), world_of (lxi_iface_dhcp P base False w)) \<and> rc \<noteq> 0) \<and>
     Warn ''Failed to start DHCP on %s: %s'' \<in>
       set (news w (world_of (lxi_iface_dhcp P base False w))) \<and>
     Dhcp_ipc_make_request (strncpy (LIFNAMSIZ P) base) 5 \<in>
       set (calls_of (news w (world_of (lxi_iface_dhcp P base False w)))) \<and>
     list_all no_stop (news w (world_of (lxi_iface_dhcp P base False w)))"
  using assms
  by (auto simp: lxi_iface_dhcp_def lxi_getif_def close_warn_def extern_def
      alloc_def lxi_warn_def lxi_err_def Let_def news_def split: if_splits)

lemma iface_dhcp_nonzero:
  assumes "lxi_iface_dhcp P base False w = Inr ((rc, f), w1)" and "rc \<noteq> 0"
  shows "\<not> f \<and> list_all no_stop (news w w1) \<and> (\<exists>m. Warn m \<in> set (news w w1))"
  using assms
  by (auto simp: lxi_iface_dhcp_def lxi_getif_def close_warn_def extern_def
      alloc_def lxi_warn_def lxi_err_def Let_def news_def split: if_splits)


lemma getif_first_call:
  "calls_of (news w (snd (lxi_getif P af iface len first w))) \<noteq> [] \<and>
   hd (calls_of (news w (snd (lxi_getif P af iface len first w)))) = Socket af"
  by (simp add: lxi_getif_def close_warn_def extern_def lxi_warn_def Let_def news_def)

lemma iface_ip_first_call:
  "calls_of (news w (snd (lxi_iface_ip P base addr first w))) \<noteq> [] \<and>
   hd (calls_of (news w (snd (lxi_iface_ip P base addr first w)))) = Socket (addr_af addr)"
proof -
  let ?G = "lxi_getif P (addr_af addr) (strncpy (LIFNAMSIZ P) base) (LIFNAMSIZ P) first w"
  let ?A = "ip_apply P (snd (fst ?G)) addr (addr_af addr) first (snd ?G)"
  have g: "grows w (snd ?G)" using getif_quiet by blast
  note gf = getif_first_call [of w P "addr_af addr" "strncpy (LIFNAMSIZ P) base" "LIFNAMSIZ P" first]
  show ?thesis
  proof (cases "fst (fst ?G) = 0")
    case True
    have e: "lxi_iface_ip P base addr first w = ?A"
      using True by (simp add: lxi_iface_ip_eq)
    have g2: "grows (snd ?G) (snd ?A)" using ip_apply_facts by blast
    have nt: "news w (snd ?A) = news w (snd ?G) @ news (snd ?G) (snd ?A)"
      using g g2 by (rule news_trans)
    show ?thesis
      unfolding e nt using gf by simp
  next
    case False
    show ?thesis
      using iface_ip_fail [OF False] gf by simp
  qed
qed

lemma token_seg_first_call:
  assumes "t \<noteq> ''addrconf''" and "t \<noteq> ''dhcp''"
  shows "calls_of (token_seg P base ts1 t st w) \<noteq> [] \<and>
     hd (calls_of (token_seg P base ts1 t st w)) = Socket (addr_af t)"
  using token_seg_literal [OF assms, of P base ts1 st w]
    iface_ip_first_call [of "snd (token_loop P base ts1 st w)" P base t
      "snd (fst (token_loop P base ts1 st w))"]
  by simp

lemma iface_dhcp_calls:
  "grows w (world_of (lxi_iface_dhcp P iface False w)) \<and>
   [c \<leftarrow> calls_of (news w (world_of (lxi_iface_dhcp P iface False w))). is_addrobj_call c] = [] \<and>
   length [c \<leftarrow> calls_of (news w (world_of (lxi_iface_dhcp P iface False w))). is_dhcp_request c] \<le> 1 \<and>
   (0 \<le> answers w (clock w) \<longrightarrow>
      Dhcp_start_agent 5 \<in> set (calls_of (news w (world_of (lxi_iface_dhcp P iface False w)))))"
  by (simp add: lxi_iface_dhcp_def lxi_getif_def close_warn_def extern_def alloc_def lxi_warn_def
      lxi_err_def Let_def news_def grows_def is_addrobj_call_def is_dhcp_request_def)


lemma request_is_dhcp: "is_dhcp_request c \<Longrightarrow> is_dhcp_call c"
  by (cases c) (simp_all add: is_dhcp_request_def is_dhcp_call_def)

lemma no_dhcp_no_request:
  "[c \<leftarrow> xs. is_dhcp_call c] = [] \<Longrightarrow> [c \<leftarrow> xs. is_dhcp_request c] = []"
  by (auto simp: filter_empty_conv dest: request_is_dhcp)

text \<open>
  C7. The address string contains \<open>dhcp\<close>, and the log of \<^verbatim>\<open>lxi_iface_dhcp\<close> shows
  that the request failed: \<^verbatim>\<open>dhcp_ipc_make_request\<close> came back with an error (a
  timeout is one), or the reply carried a return code other than 0. Then the DHCP step
  returns with \<open>first_ipv4_configured\<close> still \<open>False\<close>; the request was made with the
  timeout of 5 seconds; the log has the warning of \<^verbatim>\<open>lxi_iface_dhcp\<close> and the
  warning of its caller, and neither a fatal error nor a fault; \<^verbatim>\<open>lxi_net_addrs\<close>
  goes on with the token loop over all the tokens of the string, started with the flag
  \<open>False\<close>, and returns, its whole log free of fatal errors; and for every token that
  is an address, the part of the log written for it begins with the \<^verbatim>\<open>socket\<close>
  call of \<^verbatim>\<open>lxi_iface_ip\<close>.
\<close>

theorem dhcp_failure_is_warning:
  assumes S: "strstr_found ipaddrs ''dhcp''"
    and F: "dhcp_failed (news w (world_of (lxi_iface_dhcp P base False w)))"
  shows
   "value_of (lxi_net_dhcp P base ipaddrs w) = Some False \<and>
    Warn ''Failed to start DHCP on %s: %s'' \<in>
      set (news w (world_of (lxi_net_dhcp P base ipaddrs w))) \<and>
    Warn ''Failed to start DHCP on %s'' \<in>
      set (news w (world_of (lxi_net_dhcp P base ipaddrs w))) \<and>
    Dhcp_ipc_make_request (strncpy (LIFNAMSIZ P) base) 5 \<in>
      set (calls_of (news w (world_of (lxi_net_dhcp P base ipaddrs w)))) \<and>
    list_all no_stop (news w (world_of (lxi_net_dhcp P base ipaddrs w))) \<and>
    lxi_net_addrs P base ipaddrs dac w =
      Inr (token_loop P base (ipaddr_tokens P ipaddrs) (dac, False)
             (world_of (lxi_net_dhcp P base ipaddrs w))) \<and>
    list_all no_stop (news w (world_of (lxi_net_addrs P base ipaddrs dac w))) \<and>
    (ipaddr_tokens P ipaddrs = ts1 @ t # ts2 \<and> t \<noteq> ''addrconf'' \<and> t \<noteq> ''dhcp'' \<longrightarrow>
       calls_of (token_seg P base ts1 t (dac, False)
          (world_of (lxi_net_dhcp P base ipaddrs w))) \<noteq> [] \<and>
       hd (calls_of (token_seg P base ts1 t (dac, False)
          (world_of (lxi_net_dhcp P base ipaddrs w)))) = Socket (addr_af t))"
proof -
  let ?D = "lxi_iface_dhcp P base False w"
  let ?Wd = "lxi_warn ''Failed to start DHCP on %s'' (world_of ?D)"
  note f = iface_dhcp_failed [OF F]
  from f obtain rc where rc: "?D = Inr ((rc, False), world_of ?D)" "rc \<noteq> 0" by blast
  have nd: "lxi_net_dhcp P base ipaddrs w = Inr (False, ?Wd)"
    unfolding lxi_net_dhcp_def using S rc(2) by (subst rc(1)) simp
  have wd: "world_of (lxi_net_dhcp P base ipaddrs w) = ?Wd"
    unfolding nd by simp
  have gd: "grows w (world_of ?D)"
    using iface_dhcp_calls by blast
  have gw: "grows w ?Wd" and nw: "news w ?Wd = news w (world_of ?D) @ [Warn ''Failed to start DHCP on %s'']"
    using grows_warn [OF gd] by simp_all
  let ?T = "token_loop P base (ipaddr_tokens P ipaddrs) (dac, False) ?Wd"
  have 1: "value_of (lxi_net_dhcp P base ipaddrs w) = Some False"
    unfolding nd by simp
  have 2: "Warn ''Failed to start DHCP on %s: %s'' \<in> set (news w ?Wd)"
    unfolding nw using f by simp
  have 3: "Warn ''Failed to start DHCP on %s'' \<in> set (news w ?Wd)"
    unfolding nw by simp
  have 4: "Dhcp_ipc_make_request (strncpy (LIFNAMSIZ P) base) 5 \<in> set (calls_of (news w ?Wd))"
    unfolding nw using f by simp
  have 5: "list_all no_stop (news w ?Wd)"
    unfolding nw using f by simp
  have 6: "lxi_net_addrs P base ipaddrs dac w = Inr ?T"
    unfolding lxi_net_addrs_def nd by simp
  note tc = token_loop_calls [of ?Wd P base "ipaddr_tokens P ipaddrs" "(dac, False)"]
  have g3: "grows ?Wd (snd ?T)" using tc by blast
  have nt: "news w (snd ?T) = news w ?Wd @ news ?Wd (snd ?T)"
    using gw g3 by (rule news_trans)
  have 7: "list_all no_stop (news w (world_of (lxi_net_addrs P base ipaddrs dac w)))"
    unfolding 6 using nt 5 tc by simp
  have 8: "ipaddr_tokens P ipaddrs = ts1 @ t # ts2 \<and> t \<noteq> ''addrconf'' \<and> t \<noteq> ''dhcp'' \<longrightarrow>
       calls_of (token_seg P base ts1 t (dac, False) ?Wd) \<noteq> [] \<and>
       hd (calls_of (token_seg P base ts1 t (dac, False) ?Wd)) = Socket (addr_af t)"
    using token_seg_first_call [of t P base ts1 "(dac, False)" ?Wd] by blast
  show ?thesis
    unfolding wd using 1 [unfolded wd] 2 3 4 5 6 [unfolded wd] 7 8 by (intro conjI)
qed

lemma net0_dhcp_timeout:
  "lxi_iface_dhcp ref_platform ''net0'' False (world_answering (\<lambda>n. if n = 3 then 1 else 0)) =
     Inr ((- 1, False),
       (world_answering (\<lambda>n. if n = 3 then 1 else 0))\<lparr>events :=
          [Call (Socket AF_INET) 0, Call Close 0, Call (Dhcp_start_agent 5) 0,
           Call (Dhcp_ipc_make_request ''net0'' 5) 1,
           Warn ''Failed to start DHCP on %s: %s''],
          clock := 4, allocs := 1\<rparr>)"
  by (simp add: lxi_iface_dhcp_def lxi_getif_def close_warn_def extern_def lxi_warn_def
      alloc_def world_answering_def quiet_world_def Let_def strncpy_def)

lemma net0_after_timeout:
  "aobj_names (news (world_answering (\<lambda>n. if n = 3 then 1 else 0))
      (world_of (lxi_net_addrs ref_platform ''net0'' ''dhcp,10.0.0.1'' False
         (world_answering (\<lambda>n. if n = 3 then 1 else 0))))) = [''net0/addr0''] \<and>
   addif_calls (news (world_answering (\<lambda>n. if n = 3 then 1 else 0))
      (world_of (lxi_net_addrs ref_platform ''net0'' ''dhcp,10.0.0.1'' False
         (world_answering (\<lambda>n. if n = 3 then 1 else 0))))) = []"
  unfolding lxi_net_addrs_def lxi_net_dhcp_def net0_dhcp_timeout
  by (simp add: ipaddr_tokens_def strlcpy_def addr_eval news_def)

theorem dhcp_failure_is_warning_witness:
  "strstr_found ''dhcp,10.0.0.1'' ''dhcp'' \<and>
   dhcp_failed (news (world_answering (\<lambda>n. if n = 3 then 1 else 0))
     (world_of (lxi_iface_dhcp ref_platform ''net0'' False
        (world_answering (\<lambda>n. if n = 3 then 1 else 0))))) \<and>
   value_of (lxi_net_dhcp ref_platform ''net0'' ''dhcp,10.0.0.1''
     (world_answering (\<lambda>n. if n = 3 then 1 else 0))) = Some False \<and>
   list_all no_stop (news (world_answering (\<lambda>n. if n = 3 then 1 else 0))
     (world_of (lxi_net_addrs ref_platform ''net0'' ''dhcp,10.0.0.1'' False
        (world_answering (\<lambda>n. if n = 3 then 1 else 0))))) \<and>
   aobj_names (news (world_answering (\<lambda>n. if n = 3 then 1 else 0))
      (world_of (lxi_net_addrs ref_platform ''net0'' ''dhcp,10.0.0.1'' False
         (world_answering (\<lambda>n. if n = 3 then 1 else 0))))) = [''net0/addr0'']"
proof -
  let ?w = "world_answering (\<lambda>n. if n = 3 then 1 else 0)"
  have S: "strstr_found ''dhcp,10.0.0.1'' ''dhcp''" by simp
  have F: "dhcp_failed (news ?w (world_of (lxi_iface_dhcp ref_platform ''net0'' False ?w)))"
    unfolding net0_dhcp_timeout
    by (simp add: news_def world_answering_def quiet_world_def)
  note t = dhcp_failure_is_warning [OF S F, where dac = False]
  note t1 = t [THEN conjunct1]
  note t7 = t [THEN conjunct2, THEN conjunct2, THEN conjunct2, THEN conjunct2, THEN conjunct2,
               THEN conjunct2, THEN conjunct1]
  show ?thesis
    using S F t1 t7 net0_after_timeout [THEN conjunct1] by (intro conjI)
qed

end
